(* ===== verification/Prelude.thy ===== *)
theory Prelude
  imports Main "HOL-Library.AList" "HOL-Library.List_Lexorder" "HOL-Library.Char_ord"
begin

text \<open>
  Shared vocabulary of the development: the Python exceptions the converter can raise,
  the result type \<open>'a result\<close> (an exception is \<open>Inl\<close>, as it would propagate
  uncaught to the top of \<^verbatim>\<open>main\<close>), its bind, the type names of dates and station ids,
  and generic lemmas on lists, association lists and options that the component
  theories share.
\<close>

named_theorems result_simps "evaluation rules for the result monad"
named_theorems alist_simps "facts on the stops dictionary kept as an association list"

section \<open>Exceptions and results\<close>

text \<open>
  The exceptions the source can raise. \<open>FetchError\<close> is any failure of
  \<^verbatim>\<open>urllib2.urlopen\<close> or \<^verbatim>\<open>json.load\<close>: the source catches none of them.
\<close>

datatype py_error = IndexError | KeyError | ValueError | TypeError | OverflowError | FetchError

type_synonym 'a result = "py_error + 'a"

definition rbind :: "'a result \<Rightarrow> ('a \<Rightarrow> 'b result) \<Rightarrow> 'b result" where
  "rbind r f = (case r of Inl e \<Rightarrow> Inl e | Inr x \<Rightarrow> f x)"

lemma rbind_Inl [simp, result_simps]: "rbind (Inl e) f = Inl e"
  by (simp add: rbind_def)

lemma rbind_Inr [simp, result_simps]: "rbind (Inr x) f = f x"
  by (simp add: rbind_def)

lemma rbind_eq_Inr [result_simps]:
  "rbind r f = Inr y \<longleftrightarrow> (\<exists>x. r = Inr x \<and> f x = Inr y)"
  by (cases r) (simp_all add: rbind_def)

lemma rbind_eq_Inl [result_simps]:
  "rbind r f = Inl e \<longleftrightarrow> r = Inl e \<or> (\<exists>x. r = Inr x \<and> f x = Inl e)"
  by (cases r) (simp_all add: rbind_def)

text \<open>Congruence for recursion under \<open>rbind\<close>: the continuation is only ever
  applied to the value the first computation returned.\<close>

lemma rbind_cong [fundef_cong]:
  "r = r' \<Longrightarrow> (\<And>x. r' = Inr x \<Longrightarrow> f x = g x) \<Longrightarrow> rbind r f = rbind r' g"
  by (cases r') (simp_all add: rbind_def)

lemma map_sum_id_ident [simp, result_simps]: "map_sum id (\<lambda>x. x) r = r"
  by (cases r) simp_all

text \<open>
  A Python \<^verbatim>\<open>for\<close> loop whose body may raise, threading the state:
  the first exception ends the loop.
\<close>

fun rfold :: "('a \<Rightarrow> 's \<Rightarrow> 's result) \<Rightarrow> 'a list \<Rightarrow> 's \<Rightarrow> 's result" where
  "rfold f [] s = Inr s"
| "rfold f (x # xs) s = rbind (f x s) (rfold f xs)"

lemma rfold_append [result_simps]:
  "rfold f (xs @ ys) s = rbind (rfold f xs s) (rfold f ys)"
  by (induction xs arbitrary: s) (auto simp: rbind_def split: sum.splits)

text \<open>
  An invariant kept by every successful step of the loop body is kept by the loop.
\<close>

lemma rfold_invariant:
  assumes step: "\<And>x s s'. x \<in> set xs \<Longrightarrow> P s \<Longrightarrow> f x s = Inr s' \<Longrightarrow> P s'"
    and start: "P s"
    and run: "rfold f xs s = Inr s'"
  shows "P s'"
  using assms
proof (induction xs arbitrary: s)
  case Nil
  then show ?case by simp
next
  case (Cons x xs)
  from Cons.prems(3) obtain t where t: "f x s = Inr t" and rest: "rfold f xs t = Inr s'"
    by (auto simp: rbind_eq_Inr)
  have "P t" using Cons.prems(1)[of x s t] Cons.prems(2) t by simp
  then show ?case using Cons.IH[of t] Cons.prems(1) rest by auto
qed

text \<open>A relation between the state before and after, reflexive and transitive.\<close>

lemma rfold_rel:
  assumes step: "\<And>x s s'. x \<in> set xs \<Longrightarrow> f x s = Inr s' \<Longrightarrow> R s s'"
    and refl: "\<And>s. R s s"
    and trans: "\<And>a b c. R a b \<Longrightarrow> R b c \<Longrightarrow> R a c"
    and run: "rfold f xs s = Inr s'"
  shows "R s s'"
  using assms
proof (induction xs arbitrary: s)
  case Nil
  then show ?case by simp
next
  case (Cons x xs)
  from Cons.prems(4) obtain t where t: "f x s = Inr t" and rest: "rfold f xs t = Inr s'"
    by (auto simp: rbind_eq_Inr)
  have "R s t" using Cons.prems(1)[of x s t] t by simp
  moreover have "R t s'" using Cons.IH[of t] Cons.prems(1-3) rest by auto
  ultimately show ?case by (rule trans)
qed

text \<open>
  A Python loop that rewrites each element of a list in place and may raise: the
  elements are rewritten left to right and the first exception ends it.
\<close>

fun rmap :: "('a \<Rightarrow> 'b result) \<Rightarrow> 'a list \<Rightarrow> 'b list result" where
  "rmap f [] = Inr []"
| "rmap f (x # xs) = rbind (f x) (\<lambda>y. rbind (rmap f xs) (\<lambda>ys. Inr (y # ys)))"

lemma rmap_Inr_iff [result_simps]:
  "rmap f xs = Inr ys \<longleftrightarrow> length ys = length xs \<and> (\<forall>i < length xs. f (xs ! i) = Inr (ys ! i))"
proof (induction xs arbitrary: ys)
  case Nil
  then show ?case by auto
next
  case (Cons x xs)
  show ?case
  proof
    assume "rmap f (x # xs) = Inr ys"
    then obtain y ys' where "f x = Inr y" "rmap f xs = Inr ys'" "ys = y # ys'"
      by (auto simp: rbind_eq_Inr)
    with Cons.IH show "length ys = length (x # xs) \<and> (\<forall>i < length (x # xs). f ((x # xs) ! i) = Inr (ys ! i))"
      by (auto simp: nth_Cons split: nat.splits)
  next
    assume r: "length ys = length (x # xs) \<and> (\<forall>i < length (x # xs). f ((x # xs) ! i) = Inr (ys ! i))"
    then obtain y ys' where ys: "ys = y # ys'" by (cases ys) auto
    with r have "f x = Inr y" by force
    moreover from r ys have "rmap f xs = Inr ys'"
      using Cons.IH by force
    ultimately show "rmap f (x # xs) = Inr ys" using ys by simp
  qed
qed

lemma rmap_total [result_simps]:
  "(\<And>x. x \<in> set xs \<Longrightarrow> \<exists>y. f x = Inr y) \<Longrightarrow> \<exists>ys. rmap f xs = Inr ys"
  by (induction xs) fastforce+

section \<open>Names of the model's types\<close>

text \<open>
  Dates are day numbers: \<^verbatim>\<open>dateparse\<close> maps the API's date strings injectively to
  days, and the source only subtracts dates (\<^verbatim>\<open>.days\<close>), compares them and adds
  \<^verbatim>\<open>timedelta(days=1)\<close>. Station ids are Python ints.
\<close>

type_synonym date = int
type_synonym sid = int

section \<open>Index ranges\<close>

text \<open>Peeling the first index off a bounded \<^verbatim>\<open>range(i, n)\<close> loop.\<close>

lemma all_range_from:
  assumes "i < n"
  shows "(\<forall>j. i \<le> j \<and> j < n \<longrightarrow> P j) \<longleftrightarrow> P i \<and> (\<forall>j. Suc i \<le> j \<and> j < n \<longrightarrow> P j)"
proof
  assume "\<forall>j. i \<le> j \<and> j < n \<longrightarrow> P j"
  with assms show "P i \<and> (\<forall>j. Suc i \<le> j \<and> j < n \<longrightarrow> P j)" by auto
next
  assume A: "P i \<and> (\<forall>j. Suc i \<le> j \<and> j < n \<longrightarrow> P j)"
  show "\<forall>j. i \<le> j \<and> j < n \<longrightarrow> P j"
  proof (intro allI impI)
    fix j
    assume "i \<le> j \<and> j < n"
    with A show "P j" by (cases "j = i") auto
  qed
qed

section \<open>Association lists as dictionaries\<close>

text \<open>
  A Python dict is kept as an association list read through \<open>map_of\<close>;
  \<open>AList.update\<close> overwrites a present key in place and appends a new one, as
  dict assignment does.
\<close>

lemma map_of_update_same [simp, alist_simps]: "map_of (AList.update k v al) k = Some v"
  by (simp add: update_conv')

lemma map_of_update_other [simp, alist_simps]:
  "k' \<noteq> k \<Longrightarrow> map_of (AList.update k v al) k' = map_of al k'"
  by (simp add: update_conv')

lemma keys_update [simp, alist_simps]:
  "fst ` set (AList.update k v al) = insert k (fst ` set al)"
  by (simp add: dom_update)

lemma map_of_zip_map_Suc [alist_simps]:
  "map_of (zip ks (map Suc ns)) k = map_option Suc (map_of (zip ks ns) k)"
proof (induction ks arbitrary: ns)
  case Nil
  then show ?case by simp
next
  case (Cons a ks)
  then show ?case by (cases ns) auto
qed

lemma map_of_SomeD_key [alist_simps]: "map_of al k = Some v \<Longrightarrow> k \<in> fst ` set al"
  by (metis domI dom_map_of_conv_image_fst)

end
