(* ===== verification/PyBase.thy ===== *)
theory PyBase
  imports Prelude
begin

text \<open>
  The Python builtins the converter relies on, modelled on strings as character lists:
  \<^verbatim>\<open>str.split\<close>, list indexing with its \<^verbatim>\<open>IndexError\<close>, \<^verbatim>\<open>int()\<close> on a
  decimal string with its \<^verbatim>\<open>ValueError\<close>, \<^verbatim>\<open>str()\<close> of an int, and Python 2's
  ordering of mixed \<^verbatim>\<open>int\<close>/\<^verbatim>\<open>str\<close> values (every int is below every str; two
  strs compare bytewise, lexicographically). Also the DB JSON quirk that one element
  of a list arrives unwrapped (\<^verbatim>\<open>get_first_in_list\<close>, and the dict-or-list
  departure board).
\<close>

section \<open>str.split\<close>

fun split_acc :: "char \<Rightarrow> string \<Rightarrow> string \<Rightarrow> string list" where
  "split_acc c acc [] = [rev acc]"
| "split_acc c acc (x # xs) =
     (if x = c then rev acc # split_acc c [] xs else split_acc c (x # acc) xs)"

definition py_split :: "char \<Rightarrow> string \<Rightarrow> string list" where
  "py_split c s = split_acc c [] s"

text \<open>Python's \<^verbatim>\<open>xs[i]\<close> for a non-negative index.\<close>

definition py_index :: "'a list \<Rightarrow> nat \<Rightarrow> 'a result" where
  "py_index xs i = (if i < length xs then Inr (xs ! i) else Inl IndexError)"

text \<open>Python's \<^verbatim>\<open>xs[-1]\<close>.\<close>

definition py_last :: "'a list \<Rightarrow> 'a result" where
  "py_last xs = (if xs = [] then Inl IndexError else Inr (last xs))"

section \<open>int() and str()\<close>

definition py_isdigit :: "char \<Rightarrow> bool" where
  "py_isdigit c \<longleftrightarrow> (48::nat) \<le> of_char c \<and> of_char c \<le> (57::nat)"

definition digit_val :: "char \<Rightarrow> nat" where
  "digit_val c = of_char c - 48"

fun digits_val :: "nat \<Rightarrow> string \<Rightarrow> nat" where
  "digits_val acc [] = acc"
| "digits_val acc (c # cs) = digits_val (10 * acc + digit_val c) cs"

definition py_int_digits :: "string \<Rightarrow> int result" where
  "py_int_digits s =
     (if s \<noteq> [] \<and> list_all py_isdigit s then Inr (int (digits_val 0 s)) else Inl ValueError)"

text \<open>
  \<^verbatim>\<open>int(s)\<close> on a string: surrounding white space is stripped, then an optional sign
  and at least one decimal digit; anything else raises \<^verbatim>\<open>ValueError\<close>.
\<close>

text \<open>\<^verbatim>\<open>str.strip()\<close> of the white space \<^verbatim>\<open>int()\<close> ignores: space, tab, newline, vertical tab, form feed, carriage return.\<close>

definition py_isspace :: "char \<Rightarrow> bool" where
  "py_isspace c \<longleftrightarrow> of_char c = (32::nat) \<or> ((9::nat) \<le> of_char c \<and> of_char c \<le> (13::nat))"

definition py_strip :: "string \<Rightarrow> string" where
  "py_strip s = rev (dropWhile py_isspace (rev (dropWhile py_isspace s)))"

definition py_int :: "string \<Rightarrow> int result" where
  "py_int s0 =
     (case py_strip s0 of
        c # ds \<Rightarrow>
          if c = CHR ''-'' then map_sum id uminus (py_int_digits ds)
          else if c = CHR ''+'' then py_int_digits ds
          else py_int_digits (c # ds)
      | [] \<Rightarrow> Inl ValueError)"

fun nat_str :: "nat \<Rightarrow> string" where
  "nat_str n =
     (if n < 10 then [char_of (48 + n)] else nat_str (n div 10) @ [char_of (48 + n mod 10)])"

declare nat_str.simps [simp del]

definition py_str_int :: "int \<Rightarrow> string" where
  "py_str_int i = (if i < 0 then CHR ''-'' # nat_str (nat (- i)) else nat_str (nat i))"

section \<open>Python 2 comparison of values\<close>

text \<open>
  The crawl cursor's hour and minute start as the int \<open>0\<close> and later hold the
  strings cut out of departure times, so they are values of either type.
\<close>

datatype pyval = PInt int | PStr string

fun py2_gt :: "pyval \<Rightarrow> pyval \<Rightarrow> bool" where
  "py2_gt (PInt a) (PInt b) = (b < a)"
| "py2_gt (PStr a) (PInt b) = True"
| "py2_gt (PInt a) (PStr b) = False"
| "py2_gt (PStr a) (PStr b) = (b < a)"

fun py_str_val :: "pyval \<Rightarrow> string" where
  "py_str_val (PInt i) = py_str_int i"
| "py_str_val (PStr s) = s"

section \<open>The DB JSON single-or-list quirk\<close>

datatype 'a one_or_list = Single 'a | Many "'a list"

text \<open>\<^verbatim>\<open>get_first_in_list\<close>: the first element of a list, the object itself otherwise.\<close>

fun get_first_in_list :: "'a one_or_list \<Rightarrow> 'a result" where
  "get_first_in_list (Many xs) = py_index xs 0"
| "get_first_in_list (Single x) = Inr x"

text \<open>The departure board's fix-up: a lone dict is wrapped into a list.\<close>

fun as_list :: "'a one_or_list \<Rightarrow> 'a list" where
  "as_list (Single x) = [x]"
| "as_list (Many xs) = xs"

section \<open>Laws of the builtins\<close>

named_theorems py_simps "evaluation laws of the modelled Python builtins"

lemma split_acc_no_sep: "c \<notin> set s \<Longrightarrow> split_acc c acc s = [rev acc @ s]"
  by (induction s arbitrary: acc) auto

lemma split_acc_sep:
  "c \<notin> set a \<Longrightarrow> split_acc c acc (a @ c # b) = (rev acc @ a) # split_acc c [] b"
  by (induction a arbitrary: acc) auto

lemma py_split_no_sep [py_simps]: "c \<notin> set s \<Longrightarrow> py_split c s = [s]"
  by (simp add: py_split_def split_acc_no_sep)

lemma py_split_sep [py_simps]: "c \<notin> set a \<Longrightarrow> py_split c (a @ c # b) = a # py_split c b"
  by (simp add: py_split_def split_acc_sep)

lemma split_acc_nonempty: "split_acc c acc s \<noteq> []"
  by (induction s arbitrary: acc) auto

lemma py_split_nonempty [simp, py_simps]: "py_split c s \<noteq> []"
  by (simp add: py_split_def split_acc_nonempty)

text \<open>Element 0 of a split always exists: \<^verbatim>\<open>s.split(':')[0]\<close> never raises.\<close>

lemma py_index_split_0 [py_simps]: "py_index (py_split c s) 0 = Inr (hd (py_split c s))"
  by (simp add: py_index_def hd_conv_nth)

lemma digits_val_append: "digits_val acc (xs @ ys) = digits_val (digits_val acc xs) ys"
  by (induction xs arbitrary: acc) auto

lemma digit_char_of: "(d::nat) < 10 \<Longrightarrow> digit_val (char_of (48 + d)) = d"
  by (simp add: digit_val_def)

lemma isdigit_char_of: "(d::nat) < 10 \<Longrightarrow> py_isdigit (char_of (48 + d))"
  by (simp add: py_isdigit_def)

lemma nat_str_nonempty [simp, py_simps]: "nat_str n \<noteq> []"
  by (subst nat_str.simps) simp

lemma nat_str_digits [py_simps]: "list_all py_isdigit (nat_str n)"
proof (induction n rule: nat_str.induct)
  case (1 n)
  then show ?case
    by (subst nat_str.simps) (simp add: isdigit_char_of)
qed

lemma digits_val_nat_str [py_simps]: "digits_val 0 (nat_str n) = n"
proof (induction n rule: nat_str.induct)
  case (1 n)
  show ?case
  proof (cases "n < 10")
    case True
    then show ?thesis by (subst nat_str.simps) (simp add: digit_char_of)
  next
    case False
    then have "digits_val 0 (nat_str n) = 10 * (n div 10) + n mod 10"
      using "1" by (subst nat_str.simps) (simp add: digits_val_append digit_char_of)
    then show ?thesis by simp
  qed
qed

lemma nat_str_hd_not_sign: "hd (nat_str n) \<noteq> CHR ''-'' \<and> hd (nat_str n) \<noteq> CHR ''+''"
proof -
  have "py_isdigit (hd (nat_str n))"
    using nat_str_digits[of n] nat_str_nonempty[of n]
    by (cases "nat_str n") auto
  then show ?thesis by (auto simp: py_isdigit_def)
qed

lemma py_strip_id:
  assumes "\<forall>c \<in> set s. \<not> py_isspace c"
  shows "py_strip s = s"
proof -
  have dw: "dropWhile py_isspace xs = xs" if "\<forall>c \<in> set xs. \<not> py_isspace c" for xs
    using that by (cases xs) simp_all
  have "dropWhile py_isspace (rev s) = rev s"
    using assms by (intro dw) simp
  with dw[OF assms] show ?thesis by (simp add: py_strip_def)
qed

lemma digit_not_space: "py_isdigit c \<Longrightarrow> \<not> py_isspace c"
  by (simp add: py_isdigit_def py_isspace_def)

lemma py_strip_nat_str [simp, py_simps]: "py_strip (nat_str n) = nat_str n"
  using nat_str_digits[of n] by (intro py_strip_id) (auto simp: list_all_iff digit_not_space)

lemma py_strip_neg_nat_str [simp, py_simps]: "py_strip (CHR ''-'' # nat_str n) = CHR ''-'' # nat_str n"
proof -
  have "\<not> py_isspace CHR ''-''" by (simp add: py_isspace_def)
  with nat_str_digits[of n] show ?thesis
    by (intro py_strip_id) (auto simp: list_all_iff digit_not_space)
qed

lemma py_int_nat_str [py_simps]: "py_int (nat_str n) = Inr (int n)"
proof (cases "nat_str n")
  case Nil
  then show ?thesis by simp
next
  case (Cons c ds)
  with nat_str_hd_not_sign[of n] have "c \<noteq> CHR ''-''" "c \<noteq> CHR ''+''" by auto
  moreover have "py_strip (c # ds) = c # ds"
    using py_strip_nat_str[of n] Cons by simp
  ultimately show ?thesis using Cons
    using nat_str_digits[of n] digits_val_nat_str[of n]
    by (simp add: py_int_def py_int_digits_def)
qed

lemma py_int_digit_str:
  assumes ne: "s \<noteq> []" and ds: "list_all py_isdigit s"
  shows "py_int s = Inr (int (digits_val 0 s))"
proof -
  have "py_strip s = s" using ds by (intro py_strip_id) (auto simp: list_all_iff digit_not_space)
  moreover have "\<not> py_isdigit CHR ''-''" "\<not> py_isdigit CHR ''+''" by (simp_all add: py_isdigit_def)
  ultimately show ?thesis using ne ds by (cases s) (auto simp: py_int_def py_int_digits_def)
qed

lemma py_int_py_str_int [py_simps]: "py_int (py_str_int i) = Inr i"
proof (cases "i < 0")
  case True
  have "py_int_digits (nat_str (nat (- i))) = Inr (int (nat (- i)))"
    using nat_str_digits digits_val_nat_str by (simp add: py_int_digits_def)
  with True show ?thesis by (simp add: py_str_int_def py_int_def)
next
  case False
  then show ?thesis by (simp add: py_str_int_def py_int_nat_str)
qed

lemma py_str_int_nat [py_simps]: "0 \<le> i \<Longrightarrow> py_str_int i = nat_str (nat i)"
  by (simp add: py_str_int_def)

lemma split_acc_pieces: "c \<notin> set acc \<Longrightarrow> x \<in> set (split_acc c acc s) \<Longrightarrow> c \<notin> set x"
proof (induction s arbitrary: acc)
  case Nil
  then show ?case by simp
next
  case (Cons a s)
  show ?case
  proof (cases "a = c")
    case True
    with Cons.prems have "x = rev acc \<or> x \<in> set (split_acc c [] s)" by simp
    with Cons.prems(1) Cons.IH[of "[]"] show ?thesis by auto
  next
    case False
    with Cons.prems have "x \<in> set (split_acc c (a # acc) s)" by simp
    with Cons.prems(1) False Cons.IH[of "a # acc"] show ?thesis by auto
  qed
qed

lemma py_split_pieces [py_simps]: "x \<in> set (py_split c s) \<Longrightarrow> c \<notin> set x"
  unfolding py_split_def by (rule split_acc_pieces) auto

lemma colon_not_in_nat_str [py_simps]: "CHR '':'' \<notin> set (nat_str n)"
proof
  assume "CHR '':'' \<in> set (nat_str n)"
  with nat_str_digits[of n] have "py_isdigit CHR '':''"
    by (simp add: list_all_iff)
  then show False by (simp add: py_isdigit_def)
qed

lemma colon_not_in_py_str_int [py_simps]: "CHR '':'' \<notin> set (py_str_int i)"
  by (simp add: py_str_int_def colon_not_in_nat_str)

lemma py2_gt_irrefl [simp]: "\<not> py2_gt v v"
  by (cases v) auto

text \<open>
  Round trip of Python's \<^verbatim>\<open>str\<close> and \<^verbatim>\<open>int\<close>: \<^verbatim>\<open>int(str(i)) == i\<close> for
  every int, and \<^verbatim>\<open>str\<close> writes only digits after an optional minus sign, so the
  colon that \<^verbatim>\<open>pack_trip\<close> appends can always be split off again.
\<close>

theorem py_int_str_roundtrip:
  "py_int (py_str_int i) = Inr i \<and> CHR '':'' \<notin> set (py_str_int i) \<and>
   py_split CHR '':'' (py_str_int i @ CHR '':'' # m) = py_str_int i # py_split CHR '':'' m"
  by (simp add: py_int_py_str_int colon_not_in_py_str_int py_split_sep)

end
