(* ===== verification/Data.thy ===== *)
theory Data
  imports Complex_Main PyBase
begin

text \<open>
  The data of \<^verbatim>\<open>src/db_to_gtfs.py\<close>. The source keeps everything in dicts; each dict
  shape becomes a record with the dict's keys as fields, and the \<^verbatim>\<open>DBApiToGTFS\<close>
  object becomes the record \<open>converter\<close>. The remote API is the environment
  \<open>env\<close>: one function per kind of request, each of which may fail
  (\<open>FetchError\<close>), already decoded from JSON. The API sends coordinates as strings;
  the converter's stations hold them as reals, converted by \<^verbatim>\<open>float()\<close>, a library
  function that is a parameter of the environment (\<open>to_float\<close>) and may raise.
\<close>

type_synonym coord = real

section \<open>Payloads of the remote API\<close>

text \<open>A station as the API returns it (\<^verbatim>\<open>StopLocation\<close>), or as
  \<^verbatim>\<open>process_trip\<close> builds it from a journey stop (lines 158--163).\<close>

record stop_location =
  loc_name :: string
  loc_id :: string
  loc_lat :: string
  loc_lon :: string

text \<open>One entry of a departure board.\<close>

record departure =
  dep_time :: string
  dep_date :: date
  dep_stopid :: string
  dep_direction :: string
  dep_name :: string
  dep_ref :: string

text \<open>One stop of a journey detail; the four time fields are optional keys.\<close>

record jd_stop =
  js_name :: string
  js_id :: string
  js_lat :: string
  js_lon :: string
  js_routeIdx :: string
  js_arrTime :: "string option"
  js_depTime :: "string option"
  js_arrDate :: "date option"
  js_depDate :: "date option"

text \<open>
  A journey detail. \<^verbatim>\<open>Names.Name\<close>, \<^verbatim>\<open>Types.Type\<close>, \<^verbatim>\<open>Operators.Operator\<close>
  and \<^verbatim>\<open>Stops.Stop\<close> arrive as one object or a list of them; of a name, type or
  operator object only its \<^verbatim>\<open>.get(...)\<close> is read, which is \<open>None\<close> when the key
  is missing.
\<close>

record journey_detail =
  jd_names :: "string option one_or_list"
  jd_types :: "string option one_or_list"
  jd_operators :: "string option one_or_list"
  jd_stops :: "jd_stop one_or_list"

datatype request = ReqBoard sid date string | ReqTrip string | ReqStation string

text \<open>
  The environment: \<^verbatim>\<open>DEP_URL\<close> queried for a station id, date and time string
  (\<open>None\<close> when the answer has no \<^verbatim>\<open>DepartureBoard.Departure\<close>); a journey detail
  reference (\<open>None\<close> when there is no \<^verbatim>\<open>JourneyDetail\<close>); \<^verbatim>\<open>STATION_URL\<close>
  searched for a string (\<open>None\<close> when there is no \<^verbatim>\<open>LocationList.StopLocation\<close>);
  and the library functions \<^verbatim>\<open>HTMLParser.unescape\<close> and \<^verbatim>\<open>float()\<close> (the
  latter raising \<^verbatim>\<open>ValueError\<close> on a string that is no number).
\<close>

record env =
  departure_board :: "sid \<Rightarrow> date \<Rightarrow> string \<Rightarrow> departure one_or_list option result"
  journey_detail_of :: "string \<Rightarrow> journey_detail option result"
  location_name :: "string \<Rightarrow> stop_location one_or_list option result"
  unescape :: "string \<Rightarrow> string"
  to_float :: "string \<Rightarrow> coord result"

section \<open>The converter's own records\<close>

text \<open>A station, as built by \<^verbatim>\<open>get_station_ob\<close>, with its crawl cursor.\<close>

record station =
  stop_id :: sid
  stop_name :: string
  stop_lat :: coord
  stop_lon :: coord
  last_check_h :: pyval
  last_check_m :: pyval
  last_date :: date
  has_trip :: bool
  trips_fetched :: bool

record stoptime =
  st_stop_id :: sid
  st_stop_sequence :: int
  arrival_time :: string
  departure_time :: string
  arrival_date :: date
  departure_date :: date

text \<open>
  A trip. \<open>tr_headsign\<close> and \<open>tr_service_date\<close> are written by \<^verbatim>\<open>pack_trip\<close> before
  the trip is ever read, \<open>tr_service_id\<close> by \<^verbatim>\<open>generate_calendar_dates\<close>
  (\<open>None\<close>: the key is absent). The source's unused \<^verbatim>\<open>'notes'\<close> key is left out.
\<close>

record trip =
  tr_stoptimes :: "stoptime list"
  tr_name :: "string option"
  tr_type :: "string option"
  tr_agency_id :: "string option"
  tr_route_id :: nat
  tr_headsign :: string
  tr_service_date :: date
  tr_service_dates :: "date set"
  tr_service_id :: "nat option"

record route =
  route_short_name :: "string option"
  route_long_name :: "string option"
  route_type :: int
  route_agency_id :: "string option"

text \<open>
  The \<^verbatim>\<open>DBApiToGTFS\<close> object. \<^verbatim>\<open>self.stops\<close> is a dict from station id to station;
  \<open>requests\<close> is the sequence of remote requests made so far (the I/O trace, not a
  variable of the source).
\<close>

record converter =
  stops :: "(sid \<times> station) list"
  trips :: "trip list"
  routes :: "route list"
  agencies :: "string option list"
  calendar_dates :: "date set list"
  processed :: "departure list"
  start_date :: date
  end_date :: date
  requests :: "request list"

definition init_converter :: "date \<Rightarrow> date \<Rightarrow> converter" where
  "init_converter sd ed =
     \<lparr>stops = [], trips = [], routes = [], agencies = [], calendar_dates = [],
      processed = [], start_date = sd, end_date = ed, requests = []\<rparr>"

definition log_request :: "request \<Rightarrow> converter \<Rightarrow> converter" where
  "log_request r c = c\<lparr>requests := requests c @ [r]\<rparr>"

end
