(* ===== verification/Stations.thy ===== *)
theory Stations
  imports Data
begin

text \<open>
  The Station Registry: \<^verbatim>\<open>self.stops\<close>, the dict from station id to station, with
  \<^verbatim>\<open>get_station_ob\<close> (lines 268--281), \<^verbatim>\<open>process_station_by_ob\<close> (62--68),
  \<^verbatim>\<open>get_station_detail\<close> (261--266), \<^verbatim>\<open>process_station_by_id\<close> (53--60) and
  \<^verbatim>\<open>get_unfetched_station_id\<close> (415--420). The dict is an association list; its
  iteration order (hash order in Python 2) is taken to be the list order, and the
  registry's lemmas show that any order would do.
\<close>

section \<open>Definitions\<close>

definition get_station_ob :: "env \<Rightarrow> converter \<Rightarrow> stop_location \<Rightarrow> station result" where
  "get_station_ob E c loc =
     rbind (py_int (loc_id loc)) (\<lambda>i.
     rbind (to_float E (loc_lat loc)) (\<lambda>lat.
     rbind (to_float E (loc_lon loc)) (\<lambda>lon.
       Inr \<lparr>stop_id = i, stop_name = unescape E (loc_name loc),
            stop_lat = lat, stop_lon = lon,
            last_check_h = PInt 0, last_check_m = PInt 0, last_date = start_date c,
            has_trip = False, trips_fetched = False\<rparr>)))"

text \<open>
  The station argument is \<^verbatim>\<open>None\<close>, a station dict, or (from a station search that
  matched several stations) a list, on which \<^verbatim>\<open>station['id']\<close> raises
  \<^verbatim>\<open>TypeError\<close>.
\<close>

definition process_station_by_ob ::
  "env \<Rightarrow> stop_location one_or_list option \<Rightarrow> converter \<Rightarrow> converter result" where
  "process_station_by_ob E station c =
     (case station of
        None \<Rightarrow> Inr c
      | Some (Many _) \<Rightarrow> Inl TypeError
      | Some (Single loc) \<Rightarrow>
          rbind (py_int (loc_id loc)) (\<lambda>k.
            if map_of (stops c) k \<noteq> None then Inr c
            else rbind (get_station_ob E c loc) (\<lambda>st. Inr (c\<lparr>stops := AList.update k st (stops c)\<rparr>))))"

definition get_station_detail ::
  "env \<Rightarrow> sid \<Rightarrow> converter \<Rightarrow> (stop_location one_or_list option \<times> converter) result" where
  "get_station_detail E i c =
     (let q = py_str_int i in
      rbind (location_name E q) (\<lambda>det. Inr (det, log_request (ReqStation q) c)))"

definition process_station_by_id :: "env \<Rightarrow> sid \<Rightarrow> converter \<Rightarrow> converter result" where
  "process_station_by_id E i c =
     (if map_of (stops c) i \<noteq> None then Inr c
      else rbind (get_station_detail E i c) (\<lambda>(det, c'). process_station_by_ob E det c'))"

fun first_unfetched :: "(sid \<times> station) list \<Rightarrow> sid option" where
  "first_unfetched [] = None"
| "first_unfetched ((k, s) # rest) =
     (if \<not> trips_fetched s then Some (stop_id s) else first_unfetched rest)"

definition get_unfetched_station_id :: "converter \<Rightarrow> sid option" where
  "get_unfetched_station_id c = first_unfetched (stops c)"

text \<open>
  Well-formedness of the dict: each key once, and each station stored under its own
  id (the source stores \<^verbatim>\<open>self.stops[int(station['id'])]\<close> a station whose
  \<^verbatim>\<open>stop_id\<close> is \<^verbatim>\<open>int(station['id'])\<close>).
\<close>

definition stops_wf :: "(sid \<times> station) list \<Rightarrow> bool" where
  "stops_wf sts \<longleftrightarrow> distinct (map fst sts) \<and> list_all (\<lambda>(k, s). stop_id s = k) sts"

text \<open>The station a registry holds for an id, if any (the abstraction to a map).\<close>

abbreviation station_of :: "converter \<Rightarrow> sid \<Rightarrow> station option" where
  "station_of c \<equiv> map_of (stops c)"

section \<open>Lemmas\<close>

lemma stops_wf_update [alist_simps]:
  "stops_wf sts \<Longrightarrow> stop_id st = k \<Longrightarrow> stops_wf (AList.update k st sts)"
proof (induction sts)
  case Nil
  then show ?case by (simp add: stops_wf_def)
next
  case (Cons p sts)
  obtain k' s' where p: "p = (k', s')" by (cases p)
  show ?case
  proof (cases "k' = k")
    case True
    with Cons.prems p show ?thesis by (simp add: stops_wf_def)
  next
    case False
    from Cons.prems p have "stops_wf sts" by (simp add: stops_wf_def)
    with Cons.IH Cons.prems(2) have "stops_wf (AList.update k st sts)" by simp
    with Cons.prems p False show ?thesis
      by (simp add: stops_wf_def dom_update)
  qed
qed

lemma stops_wf_lookup [alist_simps]: "stops_wf sts \<Longrightarrow> map_of sts k = Some s \<Longrightarrow> stop_id s = k"
  by (induction sts) (auto simp: stops_wf_def split: if_splits)

lemma process_station_by_ob_cases:
  assumes "process_station_by_ob E station c = Inr c'"
  shows "(c' = c \<and> (station = None \<or> (\<exists>loc k. station = Some (Single loc) \<and>
             py_int (loc_id loc) = Inr k \<and> map_of (stops c) k \<noteq> None))) \<or>
         (\<exists>loc k st. station = Some (Single loc) \<and> py_int (loc_id loc) = Inr k \<and>
            map_of (stops c) k = None \<and> get_station_ob E c loc = Inr st \<and>
            c' = c\<lparr>stops := AList.update k st (stops c)\<rparr>)"
  using assms
  by (auto simp: process_station_by_ob_def rbind_eq_Inr split: option.splits one_or_list.splits if_splits)

lemma get_station_ob_id: "get_station_ob E c loc = Inr st \<Longrightarrow> py_int (loc_id loc) = Inr (stop_id st)"
  by (auto simp: get_station_ob_def rbind_eq_Inr)

lemma process_station_by_ob_wf:
  "stops_wf (stops c) \<Longrightarrow> process_station_by_ob E station c = Inr c' \<Longrightarrow> stops_wf (stops c')"
proof -
  assume wf: "stops_wf (stops c)" and run: "process_station_by_ob E station c = Inr c'"
  have "c' = c \<or> (\<exists>loc k st. py_int (loc_id loc) = Inr k \<and> get_station_ob E c loc = Inr st \<and>
            c' = c\<lparr>stops := AList.update k st (stops c)\<rparr>)"
    using process_station_by_ob_cases[OF run] by blast
  then show ?thesis
  proof
    assume "c' = c"
    with wf show ?thesis by simp
  next
    assume "\<exists>loc k st. py_int (loc_id loc) = Inr k \<and> get_station_ob E c loc = Inr st \<and>
            c' = c\<lparr>stops := AList.update k st (stops c)\<rparr>"
    then obtain loc k st where "py_int (loc_id loc) = Inr k" "get_station_ob E c loc = Inr st"
        "c' = c\<lparr>stops := AList.update k st (stops c)\<rparr>"
      by blast
    moreover from this have "stop_id st = k" using get_station_ob_id by fastforce
    ultimately show ?thesis using wf by (simp add: stops_wf_update)
  qed
qed

lemma process_station_by_ob_keeps:
  "process_station_by_ob E station c = Inr c' \<Longrightarrow> map_of (stops c) k = Some s \<Longrightarrow>
   map_of (stops c') k = Some s"
  by (drule process_station_by_ob_cases) (auto simp: update_conv')

lemma process_station_by_ob_frame:
  "process_station_by_ob E station c = Inr c' \<Longrightarrow> c' = c\<lparr>stops := stops c'\<rparr>"
  by (drule process_station_by_ob_cases) auto

text \<open>
  C14: \<^verbatim>\<open>process_station_by_ob\<close> is the specification's get-or-create: a station
  whose id is registered leaves the converter as it was (the registered station is never
  replaced, its crawl cursor kept); a new id registers the fresh, uncrawled station that
  \<^verbatim>\<open>get_station_ob\<close> builds, under that id, and changes nothing else.
\<close>

theorem process_station_by_ob_get_or_create:
  "process_station_by_ob E (Some (Single loc)) c = Inr c' \<Longrightarrow> py_int (loc_id loc) = Inr k \<Longrightarrow>
   (case map_of (stops c) k of
      Some st \<Rightarrow> c' = c
    | None \<Rightarrow> (\<exists>st. get_station_ob E c loc = Inr st \<and> stop_id st = k \<and> \<not> trips_fetched st \<and>
                   map_of (stops c') = (map_of (stops c))(k \<mapsto> st) \<and> c' = c\<lparr>stops := stops c'\<rparr>))"
proof -
  assume run: "process_station_by_ob E (Some (Single loc)) c = Inr c'" and k: "py_int (loc_id loc) = Inr k"
  have fresh: "stop_id st = k \<and> \<not> trips_fetched st" if "get_station_ob E c loc = Inr st" for st
    using that k by (auto simp: get_station_ob_def rbind_eq_Inr)
  from process_station_by_ob_cases[OF run] k show ?thesis
    by (auto simp: update_conv' dest: fresh split: option.splits)
qed

lemma first_unfetched_Some:
  "stops_wf sts \<Longrightarrow> first_unfetched sts = Some i \<Longrightarrow> \<exists>s. map_of sts i = Some s \<and> \<not> trips_fetched s"
proof (induction sts rule: first_unfetched.induct)
  case 1
  then show ?case by simp
next
  case (2 k s rest)
  from "2.prems"(1) have k: "stop_id s = k" and knew: "k \<notin> fst ` set rest"
    and wf: "stops_wf rest"
    by (auto simp: stops_wf_def)
  show ?case
  proof (cases "trips_fetched s")
    case False
    with "2.prems"(2) k show ?thesis by auto
  next
    case True
    with "2.prems"(2) have "first_unfetched rest = Some i" by simp
    with "2.IH" True wf obtain s' where "map_of rest i = Some s'" "\<not> trips_fetched s'" by auto
    moreover from this knew have "i \<noteq> k" by (auto dest: map_of_SomeD_key)
    ultimately show ?thesis by simp
  qed
qed

lemma first_unfetched_None:
  "first_unfetched sts = None \<longleftrightarrow> (\<forall>(k, s) \<in> set sts. trips_fetched s)"
  by (induction sts rule: first_unfetched.induct) auto

text \<open>
  C23: \<^verbatim>\<open>get_unfetched_station_id\<close> implements "pick any station not yet crawled": it
  answers \<^verbatim>\<open>None\<close> exactly when every registered station is crawled, and otherwise
  the id of a registered, uncrawled station.
\<close>

theorem get_unfetched_station_id_spec:
  "stops_wf (stops c) \<Longrightarrow>
   (get_unfetched_station_id c = None \<longleftrightarrow> (\<forall>(k, s) \<in> set (stops c). trips_fetched s)) \<and>
   (\<forall>i. get_unfetched_station_id c = Some i \<longrightarrow> (\<exists>s. station_of c i = Some s \<and> \<not> trips_fetched s))"
  by (simp add: get_unfetched_station_id_def first_unfetched_None first_unfetched_Some)

end
