(* ===== verification/Routes.thy ===== *)
theory Routes
  imports Data
begin

text \<open>
  The Route/Agency Deduplicator: \<^verbatim>\<open>route_append\<close> (lines 214--234). A route is
  identified by its long name (the trip's name) and its agency; a trip with a new
  identity appends a route (and its agency, if new) and gets the new route's index;
  otherwise it gets the index of the first route with that identity. The abstract
  contract is a map from identities to indices that only grows.
\<close>

section \<open>Definitions\<close>

text \<open>\<^verbatim>\<open>for rid, route in enumerate(self.routes): if ...: return rid\<close>\<close>

fun find_route :: "route list \<Rightarrow> string option \<Rightarrow> string option \<Rightarrow> nat \<Rightarrow> nat option" where
  "find_route [] lname ag i = None"
| "find_route (r # rs) lname ag i =
     (if route_long_name r = lname \<and> route_agency_id r = ag then Some i else find_route rs lname ag (Suc i))"

definition route_append :: "trip \<Rightarrow> converter \<Rightarrow> nat \<times> converter" where
  "route_append tr c =
     (let short_name = tr_type tr; long_name = tr_name tr; agency_id = tr_agency_id tr in
      case find_route (routes c) long_name agency_id 0 of
        Some rid \<Rightarrow> (rid, c)
      | None \<Rightarrow>
          let c1 = c\<lparr>routes := routes c @ [\<lparr>route_short_name = short_name, route_long_name = long_name,
                                             route_type = 2, route_agency_id = agency_id\<rparr>]\<rparr>;
              c2 = (if agency_id \<notin> set (agencies c1) then c1\<lparr>agencies := agencies c1 @ [agency_id]\<rparr> else c1)
          in (length (routes c2) - 1, c2))"

text \<open>The identity of a route, and the abstraction of the route list to a map.\<close>

definition route_key :: "route \<Rightarrow> string option \<times> string option" where
  "route_key r = (route_long_name r, route_agency_id r)"

definition route_index :: "route list \<Rightarrow> (string option \<times> string option) \<rightharpoonup> nat" where
  "route_index rs = map_of (zip (map route_key rs) [0..<length rs])"

text \<open>The contract: an identity already known keeps its index, a new one gets the next.\<close>

definition route_resolve_abs ::
  "((string option \<times> string option) \<rightharpoonup> nat) \<Rightarrow> nat \<Rightarrow> string option \<times> string option \<Rightarrow>
   nat \<times> ((string option \<times> string option) \<rightharpoonup> nat)" where
  "route_resolve_abs m n key = (case m key of Some rid \<Rightarrow> (rid, m) | None \<Rightarrow> (n, m(key \<mapsto> n)))"

text \<open>Invariant of the route and agency lists.\<close>

definition routes_wf :: "converter \<Rightarrow> bool" where
  "routes_wf c \<longleftrightarrow> distinct (map route_key (routes c)) \<and> distinct (agencies c) \<and>
     (\<forall>r \<in> set (routes c). route_agency_id r \<in> set (agencies c) \<and> route_type r = 2)"

section \<open>Lemmas\<close>

lemma route_index_Nil [simp]: "route_index [] k = None"
  by (simp add: route_index_def)

lemma route_index_Cons:
  "route_index (r # rs) k = (if k = route_key r then Some 0 else map_option Suc (route_index rs k))"
  by (simp add: route_index_def upt_conv_Cons map_Suc_upt[symmetric] map_of_zip_map_Suc del: upt_Suc)

lemma route_index_None: "route_index rs k = None \<longleftrightarrow> k \<notin> set (map route_key rs)"
  by (simp add: route_index_def map_of_zip_is_None)

lemma find_route_index:
  "find_route rs lname ag i = map_option (\<lambda>j. j + i) (route_index rs (lname, ag))"
  by (induction rs lname ag i rule: find_route.induct)
     (auto simp: route_index_Cons route_key_def option.map_comp comp_def route_index_None)

lemma route_index_snoc:
  "route_index (rs @ [r]) =
     (if route_key r \<in> set (map route_key rs) then route_index rs
      else (route_index rs)(route_key r \<mapsto> length rs))"
proof (rule ext)
  fix k
  have z: "zip (map route_key (rs @ [r])) [0..<length (rs @ [r])] =
           zip (map route_key rs) [0..<length rs] @ [(route_key r, length rs)]"
    by simp
  have "route_index (rs @ [r]) k =
        (case route_index rs k of None \<Rightarrow> map_of [(route_key r, length rs)] k | Some v \<Rightarrow> Some v)"
    unfolding route_index_def z map_of_append map_add_def
    by (cases "map_of (zip (map route_key rs) [0..<length rs]) k") simp_all
  then show "route_index (rs @ [r]) k =
     (if route_key r \<in> set (map route_key rs) then route_index rs
      else (route_index rs)(route_key r \<mapsto> length rs)) k"
    using route_index_None[of rs k] route_index_None[of rs "route_key r"]
    by (auto split: option.splits)
qed

lemma dom_route_index: "dom (route_index rs) = set (map route_key rs)"
  by (simp add: route_index_def)

lemma route_index_SomeD:
  "route_index rs k = Some i \<Longrightarrow> i < length rs \<and> route_key (rs ! i) = k"
  by (induction rs arbitrary: i) (auto simp: route_index_Cons split: if_splits)

lemma route_append_cases:
  assumes "route_append tr c = (rid, c')"
  shows "(route_index (routes c) (tr_name tr, tr_agency_id tr) = Some rid \<and> c' = c) \<or>
         (route_index (routes c) (tr_name tr, tr_agency_id tr) = None \<and> rid = length (routes c) \<and>
          c' = c\<lparr>routes := routes c @ [\<lparr>route_short_name = tr_type tr, route_long_name = tr_name tr,
                                        route_type = 2, route_agency_id = tr_agency_id tr\<rparr>],
                 agencies := (if tr_agency_id tr \<in> set (agencies c) then agencies c
                              else agencies c @ [tr_agency_id tr])\<rparr>)"
  using assms
  by (auto simp: route_append_def find_route_index Let_def split: option.splits if_splits)

lemma route_append_index:
  "route_append tr c = (rid, c') \<Longrightarrow>
   (rid, route_index (routes c')) =
     route_resolve_abs (route_index (routes c)) (length (routes c)) (tr_name tr, tr_agency_id tr)"
proof -
  assume run: "route_append tr c = (rid, c')"
  from route_append_cases[OF run] show ?thesis
  proof
    assume "route_index (routes c) (tr_name tr, tr_agency_id tr) = Some rid \<and> c' = c"
    then show ?thesis by (simp add: route_resolve_abs_def)
  next
    assume new: "route_index (routes c) (tr_name tr, tr_agency_id tr) = None \<and> rid = length (routes c) \<and>
          c' = c\<lparr>routes := routes c @ [\<lparr>route_short_name = tr_type tr, route_long_name = tr_name tr,
                                        route_type = 2, route_agency_id = tr_agency_id tr\<rparr>],
                 agencies := (if tr_agency_id tr \<in> set (agencies c) then agencies c
                              else agencies c @ [tr_agency_id tr])\<rparr>"
    then have "(tr_name tr, tr_agency_id tr) \<notin> set (map route_key (routes c))"
      using route_index_None by blast
    with new show ?thesis
      by (simp add: route_resolve_abs_def route_index_snoc route_key_def)
  qed
qed

lemma route_append_result:
  "route_append tr c = (rid, c') \<Longrightarrow>
   rid < length (routes c') \<and> route_key (routes c' ! rid) = (tr_name tr, tr_agency_id tr)"
proof -
  assume run: "route_append tr c = (rid, c')"
  have "route_index (routes c') (tr_name tr, tr_agency_id tr) = Some rid"
    using route_append_index[OF run] by (auto simp: route_resolve_abs_def split: option.splits)
  then show ?thesis by (rule route_index_SomeD)
qed

lemma route_append_frame:
  "route_append tr c = (rid, c') \<Longrightarrow>
   c' = c\<lparr>routes := routes c', agencies := agencies c'\<rparr> \<and>
   (\<exists>rs. routes c' = routes c @ rs) \<and> (\<exists>as. agencies c' = agencies c @ as)"
  by (drule route_append_cases) auto

lemma route_append_wf:
  "routes_wf c \<Longrightarrow> route_append tr c = (rid, c') \<Longrightarrow> routes_wf c'"
  by (drule route_append_cases)
     (auto simp: routes_wf_def route_key_def route_index_None)

lemma route_append_known:
  "route_index (routes c) (tr_name tr, tr_agency_id tr) = Some rid \<Longrightarrow> route_append tr c = (rid, c)"
  by (simp add: route_append_def find_route_index Let_def)

text \<open>
  C5: \<^verbatim>\<open>route_append\<close> implements the map contract \<open>route_resolve_abs\<close> on the
  abstraction \<open>route_index\<close>, and only ever appends routes and agencies, so an index
  once handed out keeps naming the same route.
\<close>

theorem route_append_refines:
  "route_append tr c = (rid, c') \<Longrightarrow>
   (rid, route_index (routes c')) =
     route_resolve_abs (route_index (routes c)) (length (routes c)) (tr_name tr, tr_agency_id tr) \<and>
   (\<exists>rs. routes c' = routes c @ rs) \<and> (\<exists>as. agencies c' = agencies c @ as)"
  using route_append_index route_append_frame by blast

end
