(* ===== verification/Trips.thy ===== *)
theory Trips
  imports Data
begin

text \<open>
  The Trip Deduplicator: \<^verbatim>\<open>trip_compare\<close> (lines 183--201) and \<^verbatim>\<open>trip_append\<close>
  (203--211). Two trips are the same service run when they agree on name, type,
  number of stops, and on station and departure time at every stop but the last;
  the second occurrence only adds its service date to the first's set of dates.
\<close>

section \<open>Definitions\<close>

text \<open>The loop \<^verbatim>\<open>for i in range(0, len(trip1['stoptimes']) - 1)\<close>.\<close>

function stops_agree :: "stoptime list \<Rightarrow> stoptime list \<Rightarrow> nat \<Rightarrow> nat \<Rightarrow> bool" where
  "stops_agree xs ys i n =
     (if i < n then
        if st_stop_id (xs ! i) \<noteq> st_stop_id (ys ! i) then False
        else if departure_time (xs ! i) \<noteq> departure_time (ys ! i) then False
        else stops_agree xs ys (Suc i) n
      else True)"
  by pat_completeness auto
termination
  by (relation "measure (\<lambda>(xs, ys, i, n). n - i)") auto

declare stops_agree.simps [simp del]

definition trip_compare :: "trip \<Rightarrow> trip \<Rightarrow> bool" where
  "trip_compare t1 t2 =
     (if tr_name t1 \<noteq> tr_name t2 then False
      else if tr_type t1 \<noteq> tr_type t2 then False
      else if length (tr_stoptimes t1) \<noteq> length (tr_stoptimes t2) then False
      else stops_agree (tr_stoptimes t1) (tr_stoptimes t2) 0 (length (tr_stoptimes t1) - 1))"

text \<open>\<^verbatim>\<open>for trip in self.trips: if self.trip_compare(trip, trip_add): ... return\<close>;
  the matching trip's date set grows in place.\<close>

fun merge_trip :: "trip list \<Rightarrow> trip \<Rightarrow> trip list option" where
  "merge_trip [] t = None"
| "merge_trip (x # xs) t =
     (if trip_compare x t then Some (x\<lparr>tr_service_dates := insert (tr_service_date t) (tr_service_dates x)\<rparr> # xs)
      else map_option (Cons x) (merge_trip xs t))"

definition trip_append :: "trip \<Rightarrow> converter \<Rightarrow> converter" where
  "trip_append t c =
     (case merge_trip (trips c) t of
        Some ts \<Rightarrow> c\<lparr>trips := ts\<rparr>
      | None \<Rightarrow> c\<lparr>trips := trips c @ [t\<lparr>tr_service_dates := insert (tr_service_date t) (tr_service_dates t)\<rparr>]\<rparr>)"

text \<open>The structural identity \<^verbatim>\<open>trip_compare\<close> decides, as a value.\<close>

definition trip_shape :: "trip \<Rightarrow> string option \<times> string option \<times> nat \<times> (sid \<times> string) list" where
  "trip_shape t =
     (tr_name t, tr_type t, length (tr_stoptimes t),
      map (\<lambda>st. (st_stop_id st, departure_time st)) (butlast (tr_stoptimes t)))"

text \<open>
  The abstract view of the trip list: a map from a trip's shape to its operating days
  (the first trip of each shape counts, as the scan finds it first).
\<close>

definition trip_map :: "trip list \<Rightarrow> (string option \<times> string option \<times> nat \<times> (sid \<times> string) list) \<rightharpoonup> date set" where
  "trip_map ts = map_of (map (\<lambda>x. (trip_shape x, tr_service_dates x)) ts)"

section \<open>Lemmas\<close>

lemma stops_agree_iff:
  "stops_agree xs ys i n \<longleftrightarrow>
   (\<forall>j. i \<le> j \<and> j < n \<longrightarrow> st_stop_id (xs ! j) = st_stop_id (ys ! j) \<and>
                            departure_time (xs ! j) = departure_time (ys ! j))"
proof (induction xs ys i n rule: stops_agree.induct)
  case (1 xs ys i n)
  show ?case
  proof (cases "i < n")
    case True
    note split = all_range_from[OF True]
    from True "1.IH" show ?thesis
      by (subst stops_agree.simps) (simp only: split if_splits; auto)
  next
    case False
    then show ?thesis by (subst stops_agree.simps) auto
  qed
qed

lemma trip_compare_shape: "trip_compare t1 t2 \<longleftrightarrow> trip_shape t1 = trip_shape t2"
proof -
  let ?xs = "tr_stoptimes t1" and ?ys = "tr_stoptimes t2"
  have "length ?xs = length ?ys \<Longrightarrow>
        (map (\<lambda>st. (st_stop_id st, departure_time st)) (butlast ?xs) =
         map (\<lambda>st. (st_stop_id st, departure_time st)) (butlast ?ys)) \<longleftrightarrow>
        (\<forall>j. 0 \<le> j \<and> j < length ?xs - 1 \<longrightarrow> st_stop_id (?xs ! j) = st_stop_id (?ys ! j) \<and>
                                           departure_time (?xs ! j) = departure_time (?ys ! j))"
    by (auto simp: list_eq_iff_nth_eq nth_butlast)
  then show ?thesis
    by (auto simp: trip_compare_def trip_shape_def stops_agree_iff)
qed

lemma trip_shape_upd [simp]:
  "trip_shape (t\<lparr>tr_service_dates := D\<rparr>) = trip_shape t"
  "trip_shape (t\<lparr>tr_service_id := sid\<rparr>) = trip_shape t"
  by (simp_all add: trip_shape_def)

lemma trip_map_Cons: "trip_map (x # xs) = (trip_map xs)(trip_shape x \<mapsto> tr_service_dates x)"
  by (simp add: trip_map_def)

lemma merge_trip_None: "merge_trip ts t = None \<longleftrightarrow> (\<forall>x \<in> set ts. trip_shape x \<noteq> trip_shape t)"
  by (induction ts) (auto simp: trip_compare_shape)

lemma merge_trip_Some:
  "merge_trip ts t = Some ts' \<Longrightarrow>
   map trip_shape ts' = map trip_shape ts \<and>
   (\<exists>ds. trip_map ts (trip_shape t) = Some ds \<and>
         trip_map ts' = (trip_map ts)(trip_shape t \<mapsto> insert (tr_service_date t) ds))"
proof (induction ts arbitrary: ts')
  case Nil
  then show ?case by simp
next
  case (Cons x xs)
  show ?case
  proof (cases "trip_compare x t")
    case True
    with Cons.prems show ?thesis by (auto simp: trip_map_Cons trip_compare_shape)
  next
    case False
    with Cons.prems obtain xs' where xs': "merge_trip xs t = Some xs'" "ts' = x # xs'" by auto
    from False have ne: "trip_shape x \<noteq> trip_shape t" by (simp add: trip_compare_shape)
    from Cons.IH[OF xs'(1)] obtain ds where
        sh: "map trip_shape xs' = map trip_shape xs" and
        ds: "trip_map xs (trip_shape t) = Some ds" and
        upd: "trip_map xs' = (trip_map xs)(trip_shape t \<mapsto> insert (tr_service_date t) ds)"
      by blast
    have "trip_map ts' = (trip_map (x # xs))(trip_shape t \<mapsto> insert (tr_service_date t) ds)"
      using xs'(2) upd ne by (simp add: trip_map_Cons fun_upd_twist)
    moreover have "trip_map (x # xs) (trip_shape t) = Some ds"
      using ds ne by (simp add: trip_map_Cons)
    ultimately show ?thesis using sh xs'(2) by auto
  qed
qed

lemma trip_map_snoc_new:
  "trip_map ts k = None \<Longrightarrow> trip_shape x = k \<Longrightarrow> trip_map (ts @ [x]) = (trip_map ts)(k \<mapsto> tr_service_dates x)"
  by (auto simp: trip_map_def map_add_def fun_eq_iff split: option.splits)

lemma trip_map_append:
  "trip_map (trips (trip_append t c)) =
     (trip_map (trips c))(trip_shape t \<mapsto>
        insert (tr_service_date t)
          (case trip_map (trips c) (trip_shape t) of None \<Rightarrow> tr_service_dates t | Some ds \<Rightarrow> ds))"
proof (cases "merge_trip (trips c) t")
  case None
  then have "trip_map (trips c) (trip_shape t) = None"
    by (auto simp: merge_trip_None trip_map_def map_of_eq_None_iff)
  with None show ?thesis by (simp add: trip_append_def trip_map_snoc_new)
next
  case (Some ts')
  then show ?thesis using merge_trip_Some[OF Some] by (auto simp: trip_append_def)
qed

text \<open>
  C4: \<^verbatim>\<open>trip_append\<close> refines the map contract: on the abstraction \<open>trip_map\<close> it adds
  the new trip's service day to the day set of its shape, creating the entry (with the
  trip's own days) when the shape is new.
\<close>

theorem trip_append_refines:
  "trip_map (trips (trip_append t c)) =
     (trip_map (trips c))(trip_shape t \<mapsto>
        insert (tr_service_date t)
          (case trip_map (trips c) (trip_shape t) of None \<Rightarrow> tr_service_dates t | Some ds \<Rightarrow> ds))"
  by (rule trip_map_append)

lemma trip_append_shapes:
  "map trip_shape (trips (trip_append t c)) = map trip_shape (trips c) \<or>
   map trip_shape (trips (trip_append t c)) = map trip_shape (trips c) @ [trip_shape t] \<and>
   (\<forall>x \<in> set (trips c). trip_shape x \<noteq> trip_shape t)"
proof (cases "merge_trip (trips c) t")
  case None
  then have "\<forall>x\<in>set (trips c). trip_shape x \<noteq> trip_shape t" by (simp add: merge_trip_None)
  with None show ?thesis by (simp add: trip_append_def)
next
  case (Some ts')
  then show ?thesis using merge_trip_Some[OF Some] by (simp add: trip_append_def)
qed

lemma trip_append_distinct:
  "distinct (map trip_shape (trips c)) \<Longrightarrow> distinct (map trip_shape (trips (trip_append t c)))"
proof -
  assume d: "distinct (map trip_shape (trips c))"
  from trip_append_shapes[of t c] show ?thesis
  proof
    assume "map trip_shape (trips (trip_append t c)) = map trip_shape (trips c)"
    with d show ?thesis by simp
  next
    assume A: "map trip_shape (trips (trip_append t c)) = map trip_shape (trips c) @ [trip_shape t] \<and>
               (\<forall>x \<in> set (trips c). trip_shape x \<noteq> trip_shape t)"
    then have "trip_shape t \<notin> set (map trip_shape (trips c))" by auto
    with d A show ?thesis by simp
  qed
qed

lemma trip_append_frame:
  "stops (trip_append t c) = stops c \<and> routes (trip_append t c) = routes c \<and>
   agencies (trip_append t c) = agencies c \<and> processed (trip_append t c) = processed c \<and>
   start_date (trip_append t c) = start_date c \<and> end_date (trip_append t c) = end_date c \<and>
   requests (trip_append t c) = requests c \<and> calendar_dates (trip_append t c) = calendar_dates c"
  unfolding trip_append_def by (cases "merge_trip (trips c) t") simp_all

lemma merge_trip_again: "merge_trip ts t = Some ts' \<Longrightarrow> merge_trip ts' t = Some ts'"
proof (induction ts arbitrary: ts')
  case Nil
  then show ?case by simp
next
  case (Cons x xs)
  show ?case
  proof (cases "trip_compare x t")
    case True
    with Cons.prems show ?thesis by (auto simp: trip_compare_shape)
  next
    case False
    with Cons.prems obtain xs' where "merge_trip xs t = Some xs'" "ts' = x # xs'" by auto
    with Cons.IH False show ?thesis by simp
  qed
qed

lemma merge_trip_append_miss:
  "\<forall>x \<in> set xs. \<not> trip_compare x t \<Longrightarrow> merge_trip (xs @ ys) t = map_option (\<lambda>zs. xs @ zs) (merge_trip ys t)"
  by (cases "merge_trip ys t"; induction xs) auto

text \<open>
  C21: Feeding the same trip twice gives the same state as feeding it once: one trip, its
  service day recorded once (specification, section 8, idempotence).
\<close>

theorem trip_append_idem: "trip_append t (trip_append t c) = trip_append t c"
proof (cases "merge_trip (trips c) t")
  case None
  let ?t' = "t\<lparr>tr_service_dates := insert (tr_service_date t) (tr_service_dates t)\<rparr>"
  have miss: "\<forall>x \<in> set (trips c). \<not> trip_compare x t"
    using None by (simp add: merge_trip_None trip_compare_shape)
  have "merge_trip (trips c @ [?t']) t = Some (trips c @ [?t'])"
    using merge_trip_append_miss[OF miss, of "[?t']"] by (simp add: trip_compare_shape)
  with None show ?thesis by (simp add: trip_append_def)
next
  case (Some ts')
  then show ?thesis using merge_trip_again[OF Some] by (simp add: trip_append_def)
qed

text \<open>
  C15: \<^verbatim>\<open>trip_compare\<close>'s index loop decides exactly equality of trip shapes, so it is
  an equivalence relation: merging never depends on the order of the two trips.
\<close>

theorem trip_compare_equivalence:
  "equivp trip_compare \<and> (\<forall>t1 t2. trip_compare t1 t2 \<longleftrightarrow> trip_shape t1 = trip_shape t2)"
proof -
  have "trip_compare = (\<lambda>t1 t2. trip_shape t1 = trip_shape t2)"
    by (simp add: fun_eq_iff trip_compare_shape)
  moreover have "equivp (\<lambda>t1 t2. trip_shape t1 = trip_shape (t2::trip))"
    by (rule equivpI) (auto simp: reflp_def symp_def transp_def)
  ultimately show ?thesis by (simp add: trip_compare_shape)
qed

text \<open>
  C22: The order in which two fresh trips (no service days yet, as \<^verbatim>\<open>process_trip\<close>
  builds them) reach \<^verbatim>\<open>trip_append\<close> does not matter: the resulting map from
  trip shape to operating days is the same.
\<close>

theorem trip_append_commute:
  assumes "tr_service_dates t1 = {}" "tr_service_dates t2 = {}"
  shows "trip_map (trips (trip_append t2 (trip_append t1 c))) = trip_map (trips (trip_append t1 (trip_append t2 c)))"
  using assms by (auto simp: trip_map_append fun_eq_iff insert_commute split: option.splits)

end
