(* ===== verification/Normalizer.thy ===== *)
theory Normalizer
  imports Data
begin

text \<open>
  The Time/Date Normalizer: \<^verbatim>\<open>pack_trip\<close> (lines 237--259). Each stop time whose
  arrival or departure date lies after the trip's service day (the first stop's
  departure date) gets that date replaced by the service day and its clock time's hour
  raised by 24 per day of offset, as GTFS writes times past midnight. Then the trip's
  headsign becomes the name of its last stop and its service date the service day.
\<close>

section \<open>Definitions\<close>

text \<open>The two pieces of a clock time \<^verbatim>\<open>HH:MM\<close>: \<^verbatim>\<open>int(t.split(':')[0])\<close> and
  \<^verbatim>\<open>t.split(':')[1]\<close>.\<close>

definition time_hour :: "string \<Rightarrow> int result" where
  "time_hour t = rbind (py_index (py_split CHR '':'' t) 0) py_int"

definition time_minute :: "string \<Rightarrow> string result" where
  "time_minute t = py_index (py_split CHR '':'' t) 1"

text \<open>\<^verbatim>\<open>str(int(t.split(':')[0]) + 24 * delta) + ":" + t.split(':')[1]\<close>\<close>

definition roll_time :: "string \<Rightarrow> int \<Rightarrow> string result" where
  "roll_time t delta =
     rbind (time_hour t) (\<lambda>h. rbind (time_minute t) (\<lambda>m. Inr (py_str_int (h + 24 * delta) @ '':'' @ m)))"

text \<open>The body of the loop over the stop times (lines 244--255).\<close>

definition pack_stoptime :: "date \<Rightarrow> stoptime \<Rightarrow> stoptime result" where
  "pack_stoptime sd st =
     (let arrdelta = arrival_date st - sd; depdelta = departure_date st - sd in
      rbind (if arrdelta > 0
             then rbind (roll_time (arrival_time st) arrdelta)
                    (\<lambda>t. Inr (st\<lparr>arrival_date := sd, arrival_time := t\<rparr>))
             else Inr st)
        (\<lambda>st1. if depdelta > 0
               then rbind (roll_time (departure_time st1) depdelta)
                      (\<lambda>t. Inr (st1\<lparr>departure_date := sd, departure_time := t\<rparr>))
               else Inr st1))"

definition pack_trip :: "(sid \<times> station) list \<Rightarrow> trip \<Rightarrow> trip result" where
  "pack_trip sts tr =
     rbind (py_index (tr_stoptimes tr) 0) (\<lambda>st0.
       let sd = departure_date st0 in
       rbind (rmap (pack_stoptime sd) (tr_stoptimes tr)) (\<lambda>sts'.
         rbind (py_last sts') (\<lambda>lst.
           case map_of sts (st_stop_id lst) of
             None \<Rightarrow> Inl KeyError
           | Some s \<Rightarrow> Inr (tr\<lparr>tr_stoptimes := sts', tr_headsign := stop_name s,
                               tr_service_date := sd\<rparr>))))"

text \<open>The service day of a trip: its first stop's departure date.\<close>

definition service_day :: "trip \<Rightarrow> date" where
  "service_day tr = departure_date (hd (tr_stoptimes tr))"

text \<open>
  A clock time the API may send: exactly one colon and an int before it.
\<close>

definition valid_clock :: "string \<Rightarrow> bool" where
  "valid_clock t \<longleftrightarrow> length (py_split CHR '':'' t) = 2 \<and> \<not> isl (time_hour t)"

text \<open>
  What normalization promises of one stop time \<open>st'\<close> made from \<open>st\<close> for service
  day \<open>sd\<close>: station and sequence kept, each date moved to the service day if it was
  later, each hour raised by 24 per day it was later, each minute kept.
\<close>

definition shift_hour :: "int \<Rightarrow> int result \<Rightarrow> int result" where
  "shift_hour d r = map_sum id (\<lambda>h. h + 24 * max 0 d) r"

definition packed_stop :: "date \<Rightarrow> stoptime \<Rightarrow> stoptime \<Rightarrow> bool" where
  "packed_stop sd st st' \<longleftrightarrow>
     st_stop_id st' = st_stop_id st \<and> st_stop_sequence st' = st_stop_sequence st \<and>
     arrival_date st' = min (arrival_date st) sd \<and>
     departure_date st' = min (departure_date st) sd \<and>
     time_hour (arrival_time st') = shift_hour (arrival_date st - sd) (time_hour (arrival_time st)) \<and>
     time_hour (departure_time st') = shift_hour (departure_date st - sd) (time_hour (departure_time st)) \<and>
     time_minute (arrival_time st') = time_minute (arrival_time st) \<and>
     time_minute (departure_time st') = time_minute (departure_time st) \<and>
     valid_clock (arrival_time st') \<and> valid_clock (departure_time st')"

section \<open>Clock times\<close>

lemma valid_clockE:
  assumes "valid_clock t"
  obtains h m where "time_hour t = Inr h" "time_minute t = Inr m" "CHR '':'' \<notin> set m"
proof -
  from assms obtain a b where sp: "py_split CHR '':'' t = [a, b]"
    by (auto simp: valid_clock_def length_Suc_conv numeral_2_eq_2)
  from assms obtain h where "time_hour t = Inr h"
    by (cases "time_hour t") (auto simp: valid_clock_def)
  moreover have "time_minute t = Inr b" using sp by (simp add: time_minute_def py_index_def)
  moreover have "CHR '':'' \<notin> set b" using sp py_split_pieces[of b "CHR '':''" t] by simp
  ultimately show ?thesis using that by blast
qed

text \<open>Reading back a rolled time gives the new hour and the old minute.\<close>

lemma rolled_clock:
  assumes "CHR '':'' \<notin> set m"
  shows "time_hour (py_str_int x @ CHR '':'' # m) = Inr x"
    and "time_minute (py_str_int x @ CHR '':'' # m) = Inr m"
    and "valid_clock (py_str_int x @ CHR '':'' # m)"
proof -
  have sp: "py_split CHR '':'' (py_str_int x @ CHR '':'' # m) = [py_str_int x, m]"
    using assms colon_not_in_py_str_int[of x] by (simp add: py_split_sep py_split_no_sep)
  show "time_hour (py_str_int x @ CHR '':'' # m) = Inr x"
    using sp by (simp add: time_hour_def py_index_def py_int_py_str_int)
  show "time_minute (py_str_int x @ CHR '':'' # m) = Inr m"
    using sp by (simp add: time_minute_def py_index_def)
  show "valid_clock (py_str_int x @ CHR '':'' # m)"
    using sp by (simp add: valid_clock_def time_hour_def py_index_def py_int_py_str_int)
qed

lemma roll_time_valid:
  assumes "valid_clock t"
  shows "\<exists>t'. roll_time t d = Inr t' \<and> time_hour t' = map_sum id (\<lambda>h. h + 24 * d) (time_hour t) \<and>
           time_minute t' = time_minute t \<and> valid_clock t'"
proof -
  obtain h m where hm: "time_hour t = Inr h" "time_minute t = Inr m" "CHR '':'' \<notin> set m"
    using assms by (rule valid_clockE)
  then show ?thesis by (simp add: roll_time_def rolled_clock)
qed

section \<open>Normalizing one stop time and one trip\<close>

lemma pack_stoptime_spec:
  assumes "valid_clock (arrival_time st)" "valid_clock (departure_time st)"
  shows "\<exists>st'. pack_stoptime sd st = Inr st' \<and> packed_stop sd st st'"
proof -
  obtain ta where ta: "roll_time (arrival_time st) (arrival_date st - sd) = Inr ta"
      "time_hour ta = map_sum id (\<lambda>h. h + 24 * (arrival_date st - sd)) (time_hour (arrival_time st))"
      "time_minute ta = time_minute (arrival_time st)" "valid_clock ta"
    using roll_time_valid[OF assms(1)] by blast
  obtain tb where tb: "roll_time (departure_time st) (departure_date st - sd) = Inr tb"
      "time_hour tb = map_sum id (\<lambda>h. h + 24 * (departure_date st - sd)) (time_hour (departure_time st))"
      "time_minute tb = time_minute (departure_time st)" "valid_clock tb"
    using roll_time_valid[OF assms(2)] by blast
  have id0: "map_sum id (\<lambda>h. h + 24 * max 0 d) r = r" if "d \<le> 0" for d :: int and r :: "int result"
    using that by (cases r) auto
  show ?thesis
    using assms ta tb
    by (cases "arrival_date st - sd > 0"; cases "departure_date st - sd > 0")
       (auto simp: pack_stoptime_def packed_stop_def shift_hour_def Let_def min_def)
qed

lemma pack_stoptimes_spec:
  assumes "\<forall>st\<in>set xs. valid_clock (arrival_time st) \<and> valid_clock (departure_time st)"
  shows "\<exists>ys. rmap (pack_stoptime sd) xs = Inr ys \<and> list_all2 (packed_stop sd) xs ys"
proof -
  obtain ys where ys: "rmap (pack_stoptime sd) xs = Inr ys"
    using rmap_total[of xs "pack_stoptime sd"] assms pack_stoptime_spec by blast
  have "packed_stop sd (xs ! i) (ys ! i)" if "i < length xs" for i
  proof -
    from that assms have "valid_clock (arrival_time (xs ! i))" "valid_clock (departure_time (xs ! i))"
      by auto
    then obtain st' where "pack_stoptime sd (xs ! i) = Inr st'" "packed_stop sd (xs ! i) st'"
      using pack_stoptime_spec by blast
    with ys that show ?thesis by (auto simp: rmap_Inr_iff)
  qed
  with ys show ?thesis by (auto simp: rmap_Inr_iff list_all2_conv_all_nth)
qed

lemma packed_stops_last_id:
  "list_all2 (packed_stop sd) xs ys \<Longrightarrow> xs \<noteq> [] \<Longrightarrow> st_stop_id (last ys) = st_stop_id (last xs)"
  by (induction xs ys rule: list_all2_induct) (auto simp: packed_stop_def list_all2_Nil)

text \<open>
  C3: \<^verbatim>\<open>pack_trip\<close> on a trip with at least one stop, well-formed clock times and a
  registered last station succeeds; it keeps every field but the stop times, headsign
  and service date; the headsign is the last station's name, the service date is the
  first stop's departure date, and every stop time is normalized as \<open>packed_stop\<close>
  says: dates after the service day move to it and their hours grow by 24 per day,
  dates before it stay as they are.
\<close>

theorem pack_trip_correct:
  assumes ne: "tr_stoptimes tr \<noteq> []"
    and clocks: "\<forall>st\<in>set (tr_stoptimes tr). valid_clock (arrival_time st) \<and> valid_clock (departure_time st)"
    and term_stop: "map_of sts (st_stop_id (last (tr_stoptimes tr))) = Some s"
  shows "\<exists>ys. pack_trip sts tr =
               Inr (tr\<lparr>tr_stoptimes := ys, tr_headsign := stop_name s, tr_service_date := service_day tr\<rparr>) \<and>
             list_all2 (packed_stop (service_day tr)) (tr_stoptimes tr) ys"
proof -
  obtain ys where ys: "rmap (pack_stoptime (service_day tr)) (tr_stoptimes tr) = Inr ys"
      and rel: "list_all2 (packed_stop (service_day tr)) (tr_stoptimes tr) ys"
    using pack_stoptimes_spec[OF clocks] by blast
  have ne': "ys \<noteq> []" using rel ne by (auto simp: list_all2_Nil2)
  have "st_stop_id (last ys) = st_stop_id (last (tr_stoptimes tr))"
    using packed_stops_last_id[OF rel ne] .
  with ys ne ne' term_stop rel show ?thesis
    by (auto simp: pack_trip_def service_day_def py_index_def py_last_def hd_conv_nth)
qed

end
