(* ===== verification/TripBuilder.thy ===== *)
theory TripBuilder
  imports Stations Routes Trips Normalizer
begin

text \<open>
  The Trip Builder: \<^verbatim>\<open>process_trip\<close> (lines 135--181). It fetches a journey detail,
  reads its name, type and operator, registers every stop's station and marks it as
  served, builds the stop times (an absent arrival falls back to the departure and
  vice versa), resolves the route, and, when the trip has more than one stop, packs it
  and hands it to the Trip Deduplicator. It composes the Station Registry, the
  Route/Agency Deduplicator, the Normalizer and the Trip Deduplicator in the source's
  order.
\<close>

section \<open>Definitions\<close>

text \<open>\<^verbatim>\<open>d['a'] if 'a' in d else d['b']\<close>: \<^verbatim>\<open>KeyError\<close> when both keys are absent.\<close>

definition key_or :: "'a option \<Rightarrow> 'a option \<Rightarrow> 'a result" where
  "key_or a b = (case a of Some x \<Rightarrow> Inr x | None \<Rightarrow> (case b of Some y \<Rightarrow> Inr y | None \<Rightarrow> Inl KeyError))"

text \<open>The station dict \<^verbatim>\<open>process_trip\<close> builds from a journey stop.\<close>

definition stop_loc :: "jd_stop \<Rightarrow> stop_location" where
  "stop_loc s = \<lparr>loc_name = js_name s, loc_id = js_id s, loc_lat = js_lat s, loc_lon = js_lon s\<rparr>"

text \<open>The body of \<^verbatim>\<open>for stoptime in data['JourneyDetail']['Stops']['Stop']\<close>.\<close>

definition process_stop :: "env \<Rightarrow> jd_stop \<Rightarrow> trip \<times> converter \<Rightarrow> (trip \<times> converter) result" where
  "process_stop E s tc =
     (let (tr, c) = tc in
      rbind (process_station_by_ob E (Some (Single (stop_loc s))) c) (\<lambda>c1.
      rbind (py_int (js_id s)) (\<lambda>i.
      rbind (py_int (js_routeIdx s)) (\<lambda>seq.
      rbind (key_or (js_arrTime s) (js_depTime s)) (\<lambda>arr_t.
      rbind (key_or (js_depTime s) (js_arrTime s)) (\<lambda>dep_t.
      rbind (key_or (js_arrDate s) (js_depDate s)) (\<lambda>arr_d.
      rbind (key_or (js_depDate s) (js_arrDate s)) (\<lambda>dep_d.
        let tr' = tr\<lparr>tr_stoptimes := tr_stoptimes tr @
                       [\<lparr>st_stop_id = i, st_stop_sequence = seq, arrival_time = arr_t,
                         departure_time = dep_t, arrival_date = arr_d, departure_date = dep_d\<rparr>]\<rparr>
        in case map_of (stops c1) i of
             None \<Rightarrow> Inl KeyError
           | Some st \<Rightarrow> Inr (tr', c1\<lparr>stops := AList.update i (st\<lparr>has_trip := True\<rparr>) (stops c1)\<rparr>)))))))))"

text \<open>
  The keys of a journey stop's dict: iterating over a dict (the API's encoding of a
  one-element \<^verbatim>\<open>Stop\<close> list) yields these strings, in an order of the dict's own
  that no result below depends on.
\<close>

definition jd_stop_keys :: "jd_stop \<Rightarrow> string list" where
  "jd_stop_keys s =
     [''name'', ''id'', ''lat'', ''lon'', ''routeIdx''] @
     (case js_arrTime s of Some _ \<Rightarrow> [''arrTime''] | None \<Rightarrow> []) @
     (case js_depTime s of Some _ \<Rightarrow> [''depTime''] | None \<Rightarrow> []) @
     (case js_arrDate s of Some _ \<Rightarrow> [''arrDate''] | None \<Rightarrow> []) @
     (case js_depDate s of Some _ \<Rightarrow> [''depDate''] | None \<Rightarrow> [])"

text \<open>
  The loop body when \<^verbatim>\<open>stoptime\<close> is one of those key strings: its first statement
  reads \<^verbatim>\<open>stoptime['name']\<close> (line 158), and a string indexed by a string raises
  \<^verbatim>\<open>TypeError\<close>.
\<close>

definition process_stop_key :: "string \<Rightarrow> trip \<times> converter \<Rightarrow> (trip \<times> converter) result" where
  "process_stop_key stoptime tc = Inl TypeError"

definition new_trip :: "string option \<Rightarrow> string option \<Rightarrow> string option \<Rightarrow> trip" where
  "new_trip name typ ag =
     \<lparr>tr_stoptimes = [], tr_name = name, tr_type = typ, tr_agency_id = ag, tr_route_id = 0,
      tr_headsign = [], tr_service_date = 0, tr_service_dates = {}, tr_service_id = None\<rparr>"

text \<open>Lines 176--181: resolve the route, then keep the trip only if it has two stops.\<close>

definition finish_trip :: "trip \<Rightarrow> converter \<Rightarrow> converter result" where
  "finish_trip tr c =
     (let (rid, c2) = route_append tr c; tr2 = tr\<lparr>tr_route_id := rid\<rparr> in
      if 1 < length (tr_stoptimes tr2)
      then rbind (pack_trip (stops c2) tr2) (\<lambda>tr3. Inr (trip_append tr3 c2))
      else Inr c2)"

definition process_journey :: "env \<Rightarrow> journey_detail \<Rightarrow> converter \<Rightarrow> converter result" where
  "process_journey E jd c =
     rbind (get_first_in_list (jd_names jd)) (\<lambda>name.
     rbind (get_first_in_list (jd_types jd)) (\<lambda>typ.
     rbind (get_first_in_list (jd_operators jd)) (\<lambda>ag.
       case jd_stops jd of
         Single s \<Rightarrow>
           rbind (rfold process_stop_key (jd_stop_keys s) (new_trip name typ ag, c)) (\<lambda>(tr1, c1).
             finish_trip tr1 c1)
       | Many sts \<Rightarrow>
           rbind (rfold (process_stop E) sts (new_trip name typ ag, c)) (\<lambda>(tr1, c1).
             finish_trip tr1 c1))))"

definition process_trip :: "env \<Rightarrow> string \<Rightarrow> converter \<Rightarrow> converter result" where
  "process_trip E url c =
     rbind (journey_detail_of E url) (\<lambda>data.
       let c0 = log_request (ReqTrip url) c in
       case data of
         None \<Rightarrow> Inr c0
       | Some jd \<Rightarrow> process_journey E jd c0)"

section \<open>Lemmas\<close>

lemma process_journey_Single: "jd_stops jd = Single s \<Longrightarrow> process_journey E jd c \<noteq> Inr c'"
  by (auto simp: process_journey_def rbind_eq_Inr jd_stop_keys_def process_stop_key_def)

lemma process_journey_cases:
  "process_journey E jd c = Inr c' \<Longrightarrow>
   \<exists>sts tr1 c1 nm ty ag. jd_stops jd = Many sts \<and>
      get_first_in_list (jd_names jd) = Inr nm \<and> get_first_in_list (jd_types jd) = Inr ty \<and>
      get_first_in_list (jd_operators jd) = Inr ag \<and>
      rfold (process_stop E) sts (new_trip nm ty ag, c) = Inr (tr1, c1) \<and> finish_trip tr1 c1 = Inr c'"
  by (cases "jd_stops jd") (fastforce simp: process_journey_Single, fastforce simp: process_journey_def rbind_eq_Inr)

lemma process_stop_frame:
  assumes "process_stop E s (tr, c) = Inr (tr', c')"
  shows "c' = c\<lparr>stops := stops c'\<rparr> \<and> (\<exists>x. tr' = tr\<lparr>tr_stoptimes := tr_stoptimes tr @ [x]\<rparr>)"
proof -
  from assms obtain c1 i st x where c1: "process_station_by_ob E (Some (Single (stop_loc s))) c = Inr c1"
      and c': "c' = c1\<lparr>stops := AList.update i (st\<lparr>has_trip := True\<rparr>) (stops c1)\<rparr>"
      and tr': "tr' = tr\<lparr>tr_stoptimes := tr_stoptimes tr @ [x]\<rparr>"
    by (auto simp: process_stop_def rbind_eq_Inr Let_def split: option.splits)
  from process_station_by_ob_frame[OF c1] c' tr' show ?thesis by (cases c, cases c1) auto
qed

lemma stops_loop_frame:
  "rfold (process_stop E) sts (tr, c) = Inr (tr', c') \<Longrightarrow>
   c' = c\<lparr>stops := stops c'\<rparr> \<and> tr' = tr\<lparr>tr_stoptimes := tr_stoptimes tr'\<rparr> \<and>
   length (tr_stoptimes tr') = length (tr_stoptimes tr) + length sts"
proof (induction sts arbitrary: tr c)
  case (Cons s sts)
  from Cons.prems obtain tr1 c1 where
      one: "process_stop E s (tr, c) = Inr (tr1, c1)" and rest: "rfold (process_stop E) sts (tr1, c1) = Inr (tr', c')"
    by (auto simp: rbind_eq_Inr)
  from process_stop_frame[OF one] Cons.IH[OF rest] show ?case by (cases c, cases c1) auto
qed simp

text \<open>
  C20: A journey of fewer than two stops is discarded as the specification says, but only
  after \<^verbatim>\<open>route_append\<close> (line 176, before the check of line 179): the trip list is
  unchanged while the journey's route, keyed by its name and operator, is registered.
\<close>

theorem process_journey_short_registers_route:
  "process_journey E jd c = Inr c' \<Longrightarrow> jd_stops jd = Many sts \<Longrightarrow> length sts < 2 \<Longrightarrow>
   trips c' = trips c \<and>
   (\<exists>nm ag. get_first_in_list (jd_names jd) = Inr nm \<and> get_first_in_list (jd_operators jd) = Inr ag \<and>
      (nm, ag) \<in> set (map route_key (routes c')))"
proof -
  assume run: "process_journey E jd c = Inr c'" and sts: "jd_stops jd = Many sts" and short: "length sts < 2"
  from process_journey_cases[OF run] sts obtain tr1 c1 nm ty ag where
      names: "get_first_in_list (jd_names jd) = Inr nm" "get_first_in_list (jd_operators jd) = Inr ag"
      and loop: "rfold (process_stop E) sts (new_trip nm ty ag, c) = Inr (tr1, c1)"
      and fin: "finish_trip tr1 c1 = Inr c'"
    by auto
  from stops_loop_frame[OF loop] have c1: "c1 = c\<lparr>stops := stops c1\<rparr>"
    and tr1: "tr1 = (new_trip nm ty ag)\<lparr>tr_stoptimes := tr_stoptimes tr1\<rparr>" and n: "length (tr_stoptimes tr1) < 2"
    using short by (auto simp: new_trip_def)
  obtain rid c2 where ra: "route_append tr1 c1 = (rid, c2)" by (cases "route_append tr1 c1")
  with fin n have c': "c' = c2" by (simp add: finish_trip_def)
  have "trips c2 = trips c1" using route_append_frame[OF ra] by (metis converter.select_convs(2) converter.surjective converter.update_convs(3,4))
  moreover have "trips c1 = trips c" using c1 by (metis converter.select_convs(2) converter.surjective converter.update_convs(1))
  moreover have "route_key (routes c2 ! rid) = (nm, ag)" and "rid < length (routes c2)"
    using route_append_result[OF ra] tr1 by (metis new_trip_def trip.select_convs(2,4) trip.surjective trip.update_convs(1))+
  ultimately show ?thesis using names c' by (metis in_set_conv_nth length_map nth_map)
qed

end
