(* ===== verification/Crawl.thy ===== *)
theory Crawl
  imports TripBuilder
begin

text \<open>
  The Crawl Frontier Driver, per station: \<^verbatim>\<open>dep_processed\<close> (lines 119--124) and
  \<^verbatim>\<open>get_all_trips_for_stop\<close> (70--111). A station's cursor is its date
  \<open>last_date\<close> and the hour and minute \<open>last_check_h\<close>, \<open>last_check_m\<close>, which hold
  the int 0 until the first departure and then strings. Each query of the departure
  board advances the date by one day; every reported departure can push the hour, the
  minute and the date further (compared as Python 2 compares); departures of this
  station not yet seen are turned into trips. The station record is read from and
  written back to \<^verbatim>\<open>self.stops\<close> at every step, because \<^verbatim>\<open>process_trip\<close> writes
  the same dict (\<^verbatim>\<open>has_trip\<close>) while the loop holds it.
\<close>

section \<open>Definitions\<close>

definition dep_processed :: "converter \<Rightarrow> departure \<Rightarrow> bool" where
  "dep_processed c dep =
     list_ex (\<lambda>p. dep_date p = dep_date dep \<and> dep_direction p = dep_direction dep \<and> dep_name p = dep_name dep)
       (processed c)"

text \<open>Lines 98--103: the cursor update for one departure.\<close>

definition update_cursor :: "departure \<Rightarrow> station \<Rightarrow> station result" where
  "update_cursor dep st =
     (let parts = py_split CHR '':'' (dep_time dep) in
      rbind (py_index parts 0) (\<lambda>h.
        let st1 = (if py2_gt (PStr h) (last_check_h st) then st\<lparr>last_check_h := PStr h\<rparr> else st) in
        rbind (py_index parts 1) (\<lambda>m.
          let st2 = (if py2_gt (PStr m) (last_check_m st1) then st1\<lparr>last_check_m := PStr m\<rparr> else st1) in
          Inr (if last_date st2 < dep_date dep then st2\<lparr>last_date := dep_date dep\<rparr> else st2))))"

text \<open>Lines 96--111: the body of the loop over the departures of one answer.\<close>

definition process_dep :: "env \<Rightarrow> sid \<Rightarrow> departure \<Rightarrow> converter \<Rightarrow> converter result" where
  "process_dep E sid dep c =
     (case map_of (stops c) sid of
        None \<Rightarrow> Inl KeyError
      | Some st \<Rightarrow>
          rbind (update_cursor dep st) (\<lambda>st'.
            let c1 = c\<lparr>stops := AList.update sid st' (stops c)\<rparr> in
            rbind (py_int (dep_stopid dep)) (\<lambda>k.
              if k = stop_id st' \<and> \<not> dep_processed c1 dep
              then rbind (process_trip E (dep_ref dep) c1) (\<lambda>c2. Inr (c2\<lparr>processed := processed c2 @ [dep]\<rparr>))
              else Inr c1)))"

text \<open>The time string of the request URL, \<^verbatim>\<open>str(h) + ':' + str(m)\<close>.\<close>

definition cursor_time :: "station \<Rightarrow> string" where
  "cursor_time st = py_str_val (last_check_h st) @ CHR '':'' # py_str_val (last_check_m st)"

text \<open>Lines 78--111: one iteration of the \<^verbatim>\<open>while\<close> loop.\<close>

definition board_step :: "env \<Rightarrow> sid \<Rightarrow> converter \<Rightarrow> converter result" where
  "board_step E sid c =
     (case map_of (stops c) sid of
        None \<Rightarrow> Inl KeyError
      | Some st \<Rightarrow>
          rbind (departure_board E (stop_id st) (last_date st) (cursor_time st)) (\<lambda>data.
            let c1 = log_request (ReqBoard (stop_id st) (last_date st) (cursor_time st)) c;
                c2 = c1\<lparr>stops := AList.update sid (st\<lparr>last_date := last_date st + 1\<rparr>) (stops c1)\<rparr>
            in case data of
                 None \<Rightarrow> Inr c2
               | Some deps \<Rightarrow> rfold (process_dep E sid) (as_list deps) c2))"

text \<open>
  What a step may do to the registry: keep every station, with its identity, name and
  coordinates, never move its date back, and never clear \<open>has_trip\<close> or
  \<open>trips_fetched\<close>; and keep the feed's dates.
\<close>

definition station_le :: "station \<Rightarrow> station \<Rightarrow> bool" where
  "station_le s s' \<longleftrightarrow>
     stop_id s' = stop_id s \<and> stop_name s' = stop_name s \<and> stop_lat s' = stop_lat s \<and>
     stop_lon s' = stop_lon s \<and> last_date s \<le> last_date s' \<and>
     (has_trip s \<longrightarrow> has_trip s') \<and> (trips_fetched s \<longrightarrow> trips_fetched s')"

definition conv_le :: "converter \<Rightarrow> converter \<Rightarrow> bool" where
  "conv_le c c' \<longleftrightarrow>
     (\<forall>k s. map_of (stops c) k = Some s \<longrightarrow> (\<exists>s'. map_of (stops c') k = Some s' \<and> station_le s s')) \<and>
     start_date c' = start_date c \<and> end_date c' = end_date c"

text \<open>The number of departure-board queries in a request trace.\<close>

definition board_queries :: "request list \<Rightarrow> nat" where
  "board_queries rs = length (filter (\<lambda>r. case r of ReqBoard _ _ _ \<Rightarrow> True | _ \<Rightarrow> False) rs)"

text \<open>Two states with the same request trace and the same processed departures.\<close>

abbreviation same_log :: "converter \<Rightarrow> converter \<Rightarrow> bool" where
  "same_log c c' \<equiv> requests c' = requests c \<and> processed c' = processed c"

section \<open>Lemmas: what a step may change\<close>

lemma station_le_refl [simp]: "station_le s s"
  by (simp add: station_le_def)

lemma station_le_trans: "station_le a b \<Longrightarrow> station_le b c \<Longrightarrow> station_le a c"
  by (auto simp: station_le_def)

lemma conv_le_refl [simp]: "conv_le c c"
  by (auto simp: conv_le_def)

lemma conv_le_trans: "conv_le a b \<Longrightarrow> conv_le b c \<Longrightarrow> conv_le a c"
  unfolding conv_le_def by (metis station_le_trans)

lemma conv_le_stops_same: "stops c' = stops c \<Longrightarrow> start_date c' = start_date c \<Longrightarrow>
  end_date c' = end_date c \<Longrightarrow> conv_le c c'"
  by (auto simp: conv_le_def)

lemma conv_le_update:
  "map_of (stops c) k = Some s \<Longrightarrow> station_le s s' \<Longrightarrow> conv_le c (c\<lparr>stops := AList.update k s' (stops c)\<rparr>)"
  by (auto simp: conv_le_def update_conv')

lemma conv_le_process_station_by_ob:
  "process_station_by_ob E station c = Inr c' \<Longrightarrow> conv_le c c'"
  by (auto simp: conv_le_def dest: process_station_by_ob_keeps process_station_by_ob_frame[THEN arg_cong[where f = start_date]]
                                   process_station_by_ob_frame[THEN arg_cong[where f = end_date]])

lemma conv_le_process_stop:
  "process_stop E s (tr, c) = Inr (tr', c') \<Longrightarrow> conv_le c c'"
proof -
  assume run: "process_stop E s (tr, c) = Inr (tr', c')"
  then obtain c1 i st where c1: "process_station_by_ob E (Some (Single (stop_loc s))) c = Inr c1"
      and st: "map_of (stops c1) i = Some st"
      and c': "c' = c1\<lparr>stops := AList.update i (st\<lparr>has_trip := True\<rparr>) (stops c1)\<rparr>"
    by (auto simp: process_stop_def rbind_eq_Inr Let_def split: option.splits)
  have "conv_le c c1" using c1 by (rule conv_le_process_station_by_ob)
  moreover have "conv_le c1 c'"
    using st c' by (auto intro: conv_le_update simp: station_le_def)
  ultimately show ?thesis by (rule conv_le_trans)
qed

lemma conv_le_stops_loop:
  "rfold (process_stop E) sts (tr, c) = Inr (tr', c') \<Longrightarrow> conv_le c c'"
  using rfold_rel[where R = "\<lambda>a b. conv_le (snd a) (snd b)" and f = "process_stop E" and xs = sts
                  and s = "(tr, c)" and s' = "(tr', c')"]
  by (force intro: conv_le_process_stop conv_le_trans)

lemma conv_le_finish_trip: "finish_trip tr c = Inr c' \<Longrightarrow> conv_le c c'"
proof -
  assume run: "finish_trip tr c = Inr c'"
  obtain rid c2 where ra: "route_append tr c = (rid, c2)" by (cases "route_append tr c")
  then have c2: "stops c2 = stops c" "start_date c2 = start_date c" "end_date c2 = end_date c"
    using route_append_frame[OF ra] by (metis converter.select_convs converter.surjective converter.update_convs)+
  show ?thesis
  proof (cases "1 < length (tr_stoptimes tr)")
    case True
    with run ra obtain tr3 where "c' = trip_append tr3 c2"
      by (auto simp: finish_trip_def rbind_eq_Inr)
    with c2 trip_append_frame[of tr3 c2] show ?thesis by (simp add: conv_le_stops_same)
  next
    case False
    with run ra c2 show ?thesis by (auto simp: finish_trip_def conv_le_stops_same)
  qed
qed

lemma conv_le_process_journey: "process_journey E jd c = Inr c' \<Longrightarrow> conv_le c c'"
proof (cases "jd_stops jd")
  case (Single x)
  then show "process_journey E jd c = Inr c' \<Longrightarrow> conv_le c c'"
    by (simp add: process_journey_Single)
next
  case (Many sts)
  assume "process_journey E jd c = Inr c'"
  with Many obtain tr1 c1 nm ty ag where
      loop: "rfold (process_stop E) sts (new_trip nm ty ag, c) = Inr (tr1, c1)" and
      fin: "finish_trip tr1 c1 = Inr c'"
    by (auto simp: process_journey_def rbind_eq_Inr)
  from conv_le_stops_loop[OF loop] conv_le_finish_trip[OF fin] show ?thesis
    by (rule conv_le_trans)
qed

lemma conv_le_process_trip: "process_trip E url c = Inr c' \<Longrightarrow> conv_le c c'"
proof -
  assume run: "process_trip E url c = Inr c'"
  let ?c0 = "log_request (ReqTrip url) c"
  have "conv_le c ?c0" by (simp add: log_request_def conv_le_stops_same)
  moreover have "conv_le ?c0 c'"
    using run by (auto simp: process_trip_def rbind_eq_Inr Let_def split: option.splits
                       intro: conv_le_process_journey)
  ultimately show ?thesis by (rule conv_le_trans)
qed

lemma update_cursor_le:
  "update_cursor dep st = Inr st' \<Longrightarrow> station_le st st' \<and> st' = st\<lparr>last_check_h := last_check_h st',
     last_check_m := last_check_m st', last_date := last_date st'\<rparr>"
proof -
  assume run: "update_cursor dep st = Inr st'"
  then obtain h m where
      st': "st' = (let st1 = (if py2_gt (PStr h) (last_check_h st) then st\<lparr>last_check_h := PStr h\<rparr> else st);
                      st2 = (if py2_gt (PStr m) (last_check_m st1) then st1\<lparr>last_check_m := PStr m\<rparr> else st1)
                  in if last_date st2 < dep_date dep then st2\<lparr>last_date := dep_date dep\<rparr> else st2)"
    by (auto simp: update_cursor_def rbind_eq_Inr Let_def)
  show ?thesis
    unfolding st' Let_def station_le_def
    by (cases "py2_gt (PStr h) (last_check_h st)"; cases "py2_gt (PStr m) (last_check_m st)";
        cases "py2_gt (PStr m) (PStr h)"; cases "last_date st < dep_date dep") simp_all
qed

lemma conv_le_process_dep: "process_dep E sid dep c = Inr c' \<Longrightarrow> conv_le c c'"
proof -
  assume run: "process_dep E sid dep c = Inr c'"
  then obtain st st' where st: "map_of (stops c) sid = Some st" and uc: "update_cursor dep st = Inr st'"
    by (auto simp: process_dep_def rbind_eq_Inr split: option.splits)
  let ?c1 = "c\<lparr>stops := AList.update sid st' (stops c)\<rparr>"
  have le1: "conv_le c ?c1" using st update_cursor_le[OF uc] by (blast intro: conv_le_update)
  from run st uc have "c' = ?c1 \<or> (\<exists>c2. process_trip E (dep_ref dep) ?c1 = Inr c2 \<and>
                                        c' = c2\<lparr>processed := processed c2 @ [dep]\<rparr>)"
    by (auto simp: process_dep_def rbind_eq_Inr Let_def split: if_splits)
  then show ?thesis
  proof
    assume "c' = ?c1"
    with le1 show ?thesis by simp
  next
    assume "\<exists>c2. process_trip E (dep_ref dep) ?c1 = Inr c2 \<and> c' = c2\<lparr>processed := processed c2 @ [dep]\<rparr>"
    then obtain c2 where c2: "process_trip E (dep_ref dep) ?c1 = Inr c2"
        and c': "c' = c2\<lparr>processed := processed c2 @ [dep]\<rparr>" by blast
    have "conv_le ?c1 c2" using c2 by (rule conv_le_process_trip)
    moreover have "conv_le c2 c'" using c' by (simp add: conv_le_stops_same)
    ultimately show ?thesis using le1 by (blast intro: conv_le_trans)
  qed
qed

text \<open>The two outcomes of one departure: skipped (only the cursor moves), or fetched.\<close>

lemma process_dep_cases:
  assumes "process_dep E sid dep c = Inr c'"
  obtains (skip) st st' where "map_of (stops c) sid = Some st" "update_cursor dep st = Inr st'"
      "c' = c\<lparr>stops := AList.update sid st' (stops c)\<rparr>"
    | (fetch) st st' c2 where "map_of (stops c) sid = Some st" "update_cursor dep st = Inr st'"
      "\<not> dep_processed c dep"
      "process_trip E (dep_ref dep) (c\<lparr>stops := AList.update sid st' (stops c)\<rparr>) = Inr c2"
      "c' = c2\<lparr>processed := processed c2 @ [dep]\<rparr>"
  using assms by (auto simp: process_dep_def rbind_eq_Inr Let_def dep_processed_def split: option.splits if_splits)

lemma conv_le_deps_loop: "rfold (process_dep E sid) deps c = Inr c' \<Longrightarrow> conv_le c c'"
  using rfold_rel[where R = conv_le and f = "process_dep E sid" and xs = deps and s = c and s' = c']
  by (force intro: conv_le_process_dep conv_le_trans)

text \<open>Each query moves the station's date forward by at least a day.\<close>

lemma board_step_progress:
  assumes run: "board_step E sid c = Inr c'" and st: "map_of (stops c) sid = Some st"
  shows "conv_le c c' \<and> (\<exists>st'. map_of (stops c') sid = Some st' \<and> last_date st + 1 \<le> last_date st')"
proof -
  let ?st1 = "st\<lparr>last_date := last_date st + 1\<rparr>"
  let ?c1 = "log_request (ReqBoard (stop_id st) (last_date st) (cursor_time st)) c"
  let ?c2 = "?c1\<lparr>stops := AList.update sid ?st1 (stops ?c1)\<rparr>"
  have le2: "conv_le c ?c2"
    using st by (auto simp: conv_le_def log_request_def update_conv' station_le_def)
  from run st obtain data where data: "departure_board E (stop_id st) (last_date st) (cursor_time st) = Inr data"
      and rest: "(case data of None \<Rightarrow> Inr ?c2 | Some deps \<Rightarrow> rfold (process_dep E sid) (as_list deps) ?c2) = Inr c'"
    by (auto simp: board_step_def rbind_eq_Inr Let_def)
  have le: "conv_le ?c2 c'"
    using rest by (auto split: option.splits intro: conv_le_deps_loop)
  have m: "map_of (stops ?c2) sid = Some ?st1" by (simp add: log_request_def)
  have "\<forall>k s. map_of (stops ?c2) k = Some s \<longrightarrow> (\<exists>s'. map_of (stops c') k = Some s' \<and> station_le s s')"
    using le unfolding conv_le_def by (rule conjunct1)
  from this[rule_format, OF m] obtain st' where "map_of (stops c') sid = Some st'" "station_le ?st1 st'"
    by blast
  then have "\<exists>st'. map_of (stops c') sid = Some st' \<and> last_date st + 1 \<le> last_date st'"
    by (auto simp: station_le_def)
  with le2 le show ?thesis by (blast intro: conv_le_trans)
qed

section \<open>Lemmas: the requests each step makes\<close>

lemma requests_process_station_by_ob:
  "process_station_by_ob E station c = Inr c' \<Longrightarrow> same_log c c'"
  by (drule process_station_by_ob_frame) (erule ssubst, simp)

lemma requests_process_stop:
  "process_stop E s (tr, c) = Inr (tr', c') \<Longrightarrow> same_log c c'"
  by (auto simp: process_stop_def rbind_eq_Inr Let_def split: option.splits
           dest!: requests_process_station_by_ob)

lemma requests_finish_trip: "finish_trip tr c = Inr c' \<Longrightarrow> same_log c c'"
proof -
  assume run: "finish_trip tr c = Inr c'"
  obtain rid c2 where ra: "route_append tr c = (rid, c2)" by (cases "route_append tr c")
  have "same_log c c2"
    using conjunct1[OF route_append_frame[OF ra]] by (metis converter.select_convs(6,9) converter.surjective converter.update_convs(3,4))
  with run ra trip_append_frame show ?thesis
    by (auto simp: finish_trip_def rbind_eq_Inr split: if_splits)
qed

lemma requests_process_journey: "process_journey E jd c = Inr c' \<Longrightarrow> same_log c c'"
proof (cases "jd_stops jd")
  case (Single x)
  then show "process_journey E jd c = Inr c' \<Longrightarrow> same_log c c'"
    by (simp add: process_journey_Single)
next
  case (Many sts)
  assume "process_journey E jd c = Inr c'"
  with Many obtain tr1 c1 nm ty ag where
      loop: "rfold (process_stop E) sts (new_trip nm ty ag, c) = Inr (tr1, c1)" and
      fin: "finish_trip tr1 c1 = Inr c'"
    by (auto simp: process_journey_def rbind_eq_Inr)
  have "same_log c c1"
    using rfold_rel[where R = "\<lambda>a b. same_log (snd a) (snd b)" and f = "process_stop E"
                    and xs = sts and s = "(new_trip nm ty ag, c)" and s' = "(tr1, c1)"] loop
    by (force dest: requests_process_stop)
  with requests_finish_trip[OF fin] show ?thesis by simp
qed

lemma requests_process_trip:
  "process_trip E url c = Inr c' \<Longrightarrow> requests c' = requests c @ [ReqTrip url] \<and> processed c' = processed c"
  by (auto simp: process_trip_def rbind_eq_Inr Let_def log_request_def split: option.splits
           dest!: requests_process_journey)

lemma board_queries_append [simp]: "board_queries (xs @ ys) = board_queries xs + board_queries ys"
  by (simp add: board_queries_def)

lemma board_queries_simps [simp]:
  "board_queries [] = 0"
  "board_queries (ReqBoard i d t # rs) = Suc (board_queries rs)"
  "board_queries (ReqTrip u # rs) = board_queries rs"
  "board_queries (ReqStation q # rs) = board_queries rs"
  by (simp_all add: board_queries_def)

lemma requests_process_dep:
  "process_dep E sid dep c = Inr c' \<Longrightarrow> \<exists>rs. requests c' = requests c @ rs \<and> board_queries rs = 0"
  by (auto simp: process_dep_def rbind_eq_Inr Let_def split: option.splits if_splits
           dest!: requests_process_trip)

lemma requests_deps_loop:
  "rfold (process_dep E sid) deps c = Inr c' \<Longrightarrow> \<exists>rs. requests c' = requests c @ rs \<and> board_queries rs = 0"
  using rfold_rel[where R = "\<lambda>a b. \<exists>rs. requests b = requests a @ rs \<and> board_queries rs = 0"
                  and f = "process_dep E sid" and xs = deps and s = c and s' = c']
  by (force dest: requests_process_dep)

lemma requests_board_step:
  "board_step E sid c = Inr c' \<Longrightarrow> map_of (stops c) sid = Some st \<Longrightarrow>
   \<exists>rs. requests c' = requests c @ ReqBoard (stop_id st) (last_date st) (cursor_time st) # rs \<and>
        board_queries rs = 0"
  by (auto simp: board_step_def rbind_eq_Inr Let_def log_request_def split: option.splits
           dest!: requests_deps_loop)

end
