(* ===== verification/Calendar.thy ===== *)
theory Calendar
  imports Data
begin

text \<open>
  The Calendar Minimizer: \<^verbatim>\<open>generate_calendar_dates\<close> (lines 283--293). Each trip
  gets the index of the first equal operating-day set already listed, or appends its
  own set and gets the new index. Its reference definition: the list of calendars is
  \<open>remdups\<close> of the trips' day sets, and each trip's id is the position of its set.
\<close>

section \<open>Definitions\<close>

text \<open>\<^verbatim>\<open>for sid, cdate in enumerate(self.calendar_dates): if cdate == ...: break\<close>\<close>

fun find_calendar :: "date set list \<Rightarrow> date set \<Rightarrow> nat \<Rightarrow> nat option" where
  "find_calendar [] ds i = None"
| "find_calendar (x # xs) ds i = (if x = ds then Some i else find_calendar xs ds (Suc i))"

text \<open>The body for one trip: the search, then the \<^verbatim>\<open>'service_id' not in trip\<close> test.\<close>

definition calendar_step :: "date set list \<Rightarrow> trip \<Rightarrow> trip \<times> date set list" where
  "calendar_step cal t =
     (let t1 = (case find_calendar cal (tr_service_dates t) 0 of
                  Some sid \<Rightarrow> t\<lparr>tr_service_id := Some sid\<rparr>
                | None \<Rightarrow> t)
      in if tr_service_id t1 = None
         then (t1\<lparr>tr_service_id := Some (length (cal @ [tr_service_dates t1]) - 1)\<rparr>,
               cal @ [tr_service_dates t1])
         else (t1, cal))"

fun calendar_loop :: "date set list \<Rightarrow> trip list \<Rightarrow> trip list \<times> date set list" where
  "calendar_loop cal [] = ([], cal)"
| "calendar_loop cal (t # ts) =
     (let (t', cal') = calendar_step cal t; (ts', cal'') = calendar_loop cal' ts in (t' # ts', cal''))"

definition generate_calendar_dates :: "converter \<Rightarrow> converter" where
  "generate_calendar_dates c =
     (let (ts, cal) = calendar_loop (calendar_dates c) (trips c) in c\<lparr>trips := ts, calendar_dates := cal\<rparr>)"

text \<open>Position of the first occurrence (the reference for service ids).\<close>

fun first_index :: "'a list \<Rightarrow> 'a \<Rightarrow> nat" where
  "first_index [] y = 0"
| "first_index (x # xs) y = (if x = y then 0 else Suc (first_index xs y))"

text \<open>Duplicates removed, each value kept at its first occurrence.\<close>

definition dedup_first :: "'a list \<Rightarrow> 'a list" where
  "dedup_first xs = rev (remdups (rev xs))"

section \<open>Lemmas\<close>

lemma first_index_append [simp]:
  "y \<in> set xs \<Longrightarrow> first_index (xs @ zs) y = first_index xs y"
  by (induction xs) auto

lemma first_index_snoc_new [simp]: "y \<notin> set xs \<Longrightarrow> first_index (xs @ [y]) y = length xs"
  by (induction xs) auto

lemma first_index_nth: "y \<in> set xs \<Longrightarrow> first_index xs y < length xs \<and> xs ! first_index xs y = y"
  by (induction xs) auto

lemma find_calendar_index:
  "find_calendar cal ds i = (if ds \<in> set cal then Some (i + first_index cal ds) else None)"
  by (induction cal ds i rule: find_calendar.induct) auto

lemma dedup_first_snoc:
  "dedup_first (xs @ [x]) = (if x \<in> set xs then dedup_first xs else dedup_first xs @ [x])"
  by (simp add: dedup_first_def)

lemma set_dedup_first [simp]: "set (dedup_first xs) = set xs"
  by (simp add: dedup_first_def)

lemma distinct_dedup_first [simp]: "distinct (dedup_first xs)"
  by (simp add: dedup_first_def)

lemma dedup_first_id: "distinct xs \<Longrightarrow> dedup_first xs = xs"
  by (simp add: dedup_first_def distinct_remdups_id)

lemma dedup_first_prefix: "\<exists>zs. dedup_first (xs @ ys) = dedup_first xs @ zs"
proof (induction ys rule: rev_induct)
  case Nil
  then show ?case by simp
next
  case (snoc y ys)
  then obtain zs where zs: "dedup_first (xs @ ys) = dedup_first xs @ zs" by blast
  have "dedup_first (xs @ ys @ [y]) =
        dedup_first (xs @ ys) @ (if y \<in> set (xs @ ys) then [] else [y])"
    using dedup_first_snoc[of "xs @ ys" y] by simp
  with zs show ?case by (intro exI[of _ "zs @ (if y \<in> set (xs @ ys) then [] else [y])"]) simp
qed

lemma dedup_first_absorb: "dedup_first (dedup_first xs @ ys) = dedup_first (xs @ ys)"
proof (induction ys rule: rev_induct)
  case Nil
  then show ?case by (simp add: dedup_first_id)
next
  case (snoc y ys)
  have "dedup_first (dedup_first xs @ ys @ [y]) =
        (if y \<in> set (xs @ ys) then dedup_first (dedup_first xs @ ys) else dedup_first (dedup_first xs @ ys) @ [y])"
    using dedup_first_snoc[of "dedup_first xs @ ys" y] by simp
  moreover have "dedup_first (xs @ ys @ [y]) =
        (if y \<in> set (xs @ ys) then dedup_first (xs @ ys) else dedup_first (xs @ ys) @ [y])"
    using dedup_first_snoc[of "xs @ ys" y] by simp
  ultimately show ?case using snoc.IH by simp
qed

lemma calendar_step_fresh:
  assumes "distinct cal" "tr_service_id t = None"
  shows "calendar_step cal t =
           (t\<lparr>tr_service_id := Some (first_index (dedup_first (cal @ [tr_service_dates t])) (tr_service_dates t))\<rparr>,
            dedup_first (cal @ [tr_service_dates t]))"
  using assms by (auto simp: calendar_step_def find_calendar_index dedup_first_snoc dedup_first_id)

lemma calendar_loop_reference:
  assumes "distinct cal" "\<forall>t \<in> set ts. tr_service_id t = None"
  shows "calendar_loop cal ts =
           (let R = dedup_first (cal @ map tr_service_dates ts)
            in (map (\<lambda>t. t\<lparr>tr_service_id := Some (first_index R (tr_service_dates t))\<rparr>) ts, R))"
  using assms
proof (induction ts arbitrary: cal)
  case Nil
  then show ?case by (simp add: dedup_first_id)
next
  case (Cons t ts)
  let ?C = "dedup_first (cal @ [tr_service_dates t])"
  let ?R = "dedup_first (cal @ map tr_service_dates (t # ts))"
  have R: "dedup_first (?C @ map tr_service_dates ts) = ?R"
    using dedup_first_absorb[of "cal @ [tr_service_dates t]" "map tr_service_dates ts"] by simp
  obtain zs where zs: "?R = ?C @ zs"
    using dedup_first_prefix[of "cal @ [tr_service_dates t]" "map tr_service_dates ts"] by auto
  have "first_index ?C (tr_service_dates t) = first_index ?R (tr_service_dates t)"
    using zs by simp
  with Cons.prems Cons.IH[of ?C] R show ?case
    by (simp add: calendar_step_fresh Let_def)
qed

text \<open>
  C6: The calendars \<^verbatim>\<open>generate_calendar_dates\<close> produces after a crawl are minimal:
  pairwise different, exactly the day sets the trips use, as many as there are
  distinct ones; every trip keeps its data and gets a service id that indexes its own
  day set.
\<close>

theorem generate_calendar_dates_minimal:
  assumes "calendar_dates c = []" "\<forall>t \<in> set (trips c). tr_service_id t = None"
  defines "c' \<equiv> generate_calendar_dates c"
  shows "distinct (calendar_dates c') \<and> set (calendar_dates c') = tr_service_dates ` set (trips c) \<and>
         length (calendar_dates c') = card (tr_service_dates ` set (trips c)) \<and>
         length (trips c') = length (trips c) \<and>
         (\<forall>i < length (trips c). \<exists>k. trips c' ! i = (trips c ! i)\<lparr>tr_service_id := Some k\<rparr> \<and>
              k < length (calendar_dates c') \<and> calendar_dates c' ! k = tr_service_dates (trips c ! i))"
proof -
  let ?R = "dedup_first (map tr_service_dates (trips c))"
  have loop: "calendar_loop [] (trips c) =
              (map (\<lambda>t. t\<lparr>tr_service_id := Some (first_index ?R (tr_service_dates t))\<rparr>) (trips c), ?R)"
    using calendar_loop_reference[of "[]" "trips c"] assms(2) by (simp add: Let_def)
  then have c': "trips c' = map (\<lambda>t. t\<lparr>tr_service_id := Some (first_index ?R (tr_service_dates t))\<rparr>) (trips c)"
      "calendar_dates c' = ?R"
    by (simp_all add: c'_def generate_calendar_dates_def assms(1))
  have "distinct ?R" by simp
  moreover have "set ?R = tr_service_dates ` set (trips c)" by simp
  moreover have "length ?R = card (tr_service_dates ` set (trips c))"
    by (metis calculation distinct_card)
  moreover have "\<forall>i < length (trips c). first_index ?R (tr_service_dates (trips c ! i)) < length ?R \<and>
                   ?R ! first_index ?R (tr_service_dates (trips c ! i)) = tr_service_dates (trips c ! i)"
  proof (intro allI impI)
    fix i
    assume "i < length (trips c)"
    then have "tr_service_dates (trips c ! i) \<in> set ?R" by simp
    then show "first_index ?R (tr_service_dates (trips c ! i)) < length ?R \<and>
               ?R ! first_index ?R (tr_service_dates (trips c ! i)) = tr_service_dates (trips c ! i)"
      by (rule first_index_nth)
  qed
  ultimately show ?thesis using c' by auto
qed

text \<open>
  C16: On the trips of a finished crawl (no service id yet, no calendar yet),
  \<^verbatim>\<open>generate_calendar_dates\<close> equals its reference: the calendars are the trips'
  day sets with duplicates dropped in first-seen order, and each trip's id is the
  position of its set there.
\<close>

theorem generate_calendar_dates_reference:
  assumes "calendar_dates c = []" "\<forall>t \<in> set (trips c). tr_service_id t = None"
  shows "generate_calendar_dates c =
           (let R = dedup_first (map tr_service_dates (trips c))
            in c\<lparr>trips := map (\<lambda>t. t\<lparr>tr_service_id := Some (first_index R (tr_service_dates t))\<rparr>) (trips c),
                 calendar_dates := R\<rparr>)"
  using calendar_loop_reference[of "[]" "trips c"] assms
  by (simp add: generate_calendar_dates_def Let_def)

end
