(* ===== verification/Frontier.thy ===== *)
theory Frontier
  imports Crawl Calendar
begin

text \<open>
  The crawl loops. \<open>trips_loop\<close> is the \<^verbatim>\<open>while stop['last_date'] < self.end_date\<close>
  loop of \<^verbatim>\<open>get_all_trips_for_stop\<close> (lines 77--111); it terminates because every
  query moves the station's date forward by a day (\<open>board_step_progress\<close>), so its
  measure is the number of days left in the window. \<open>crawl_loop\<close> is the loop of
  \<^verbatim>\<open>main\<close> (lines 443--446) over the stations not yet crawled; stations found while
  crawling join the frontier, so whether it ends depends on the API and it is defined
  in the option monad (\<open>None\<close>: it does not end).
\<close>

section \<open>Definitions\<close>

function trips_loop :: "env \<Rightarrow> sid \<Rightarrow> converter \<Rightarrow> converter result" where
  "trips_loop E sid c =
     (case map_of (stops c) sid of
        None \<Rightarrow> Inl KeyError
      | Some st \<Rightarrow>
          if last_date st < end_date c then rbind (board_step E sid c) (trips_loop E sid)
          else Inr c)"
  by pat_completeness auto
termination
proof (relation "measure (\<lambda>(E, sid, c). nat (end_date c - (case map_of (stops c) sid of
                                                              None \<Rightarrow> end_date c
                                                            | Some st \<Rightarrow> last_date st)))")
  show "wf (measure (\<lambda>(E, sid, c). nat (end_date c - (case map_of (stops c) sid of
                                                        None \<Rightarrow> end_date c
                                                      | Some st \<Rightarrow> last_date st))))"
    by simp
next
  fix E sid c st c'
  assume st: "map_of (stops c) sid = Some st" and lt: "last_date st < end_date c"
    and run: "board_step E sid c = Inr c'"
  from board_step_progress[OF run st] obtain st' where
      le: "conv_le c c'" and st': "map_of (stops c') sid = Some st'" and
      adv: "last_date st + 1 \<le> last_date st'"
    by blast
  have "end_date c' = end_date c" using le by (simp add: conv_le_def)
  with st st' adv lt show "((E, sid, c'), E, sid, c) \<in>
      measure (\<lambda>(E, sid, c). nat (end_date c - (case map_of (stops c) sid of
                                                  None \<Rightarrow> end_date c
                                                | Some st \<Rightarrow> last_date st)))"
    by simp
qed

declare trips_loop.simps [simp del]

text \<open>\<^verbatim>\<open>get_all_trips_for_stop\<close>: a crawled station is skipped; otherwise it is marked
  crawled before its loop starts.\<close>

definition get_all_trips_for_stop :: "env \<Rightarrow> sid \<Rightarrow> converter \<Rightarrow> converter result" where
  "get_all_trips_for_stop E sid c =
     (case map_of (stops c) sid of
        None \<Rightarrow> Inl KeyError
      | Some st \<Rightarrow>
          if trips_fetched st then Inr c
          else trips_loop E sid (c\<lparr>stops := AList.update sid (st\<lparr>trips_fetched := True\<rparr>) (stops c)\<rparr>))"

text \<open>\<^verbatim>\<open>while sid:\<close> stops on \<^verbatim>\<open>None\<close> and also on the station id \<^verbatim>\<open>0\<close>.\<close>

partial_function (option) crawl_loop :: "env \<Rightarrow> converter \<Rightarrow> converter result option" where
  "crawl_loop E c =
     (case get_unfetched_station_id c of
        None \<Rightarrow> Some (Inr c)
      | Some sid \<Rightarrow>
          if sid = 0 then Some (Inr c)
          else (case get_all_trips_for_stop E sid c of
                  Inl e \<Rightarrow> Some (Inl e)
                | Inr c' \<Rightarrow> crawl_loop E c'))"

section \<open>The loop of one station\<close>

lemma trips_loop_result:
  "trips_loop E sid c = Inr c' \<Longrightarrow> map_of (stops c) sid = Some st \<Longrightarrow>
   conv_le c c' \<and> (\<exists>st'. map_of (stops c') sid = Some st' \<and> end_date c \<le> last_date st') \<and>
   board_queries (requests c') \<le> board_queries (requests c) + nat (end_date c - last_date st)"
proof (induction E sid c arbitrary: st rule: trips_loop.induct)
  case (1 E sid c)
  note run = "1.prems"(1) and st = "1.prems"(2)
  show ?case
  proof (cases "last_date st < end_date c")
    case True
    with run st obtain c1 where step: "board_step E sid c = Inr c1" and rest: "trips_loop E sid c1 = Inr c'"
      by (auto simp: trips_loop.simps[of E sid c] rbind_eq_Inr)
    from board_step_progress[OF step st] obtain st1 where
        le1: "conv_le c c1" and st1: "map_of (stops c1) sid = Some st1" and adv: "last_date st + 1 \<le> last_date st1"
      by blast
    obtain rs where rs: "requests c1 = requests c @ ReqBoard (stop_id st) (last_date st) (cursor_time st) # rs"
        "board_queries rs = 0"
      using requests_board_step[OF step st] by blast
    have e: "end_date c1 = end_date c" using le1 by (simp add: conv_le_def)
    from "1.IH"[OF st True step rest st1] obtain st' where
        le2: "conv_le c1 c'" and st': "map_of (stops c') sid = Some st'" "end_date c1 \<le> last_date st'" and
        bq: "board_queries (requests c') \<le> board_queries (requests c1) + nat (end_date c1 - last_date st1)"
      by blast
    have "board_queries (requests c') \<le> board_queries (requests c) + nat (end_date c - last_date st)"
      using bq rs e adv True by simp
    moreover have "conv_le c c'" using le1 le2 by (rule conv_le_trans)
    moreover have "end_date c \<le> last_date st'" using st'(2) e by simp
    ultimately show ?thesis using st'(1) by blast
  next
    case False
    with run st have "c' = c" by (simp add: trips_loop.simps[of E sid c])
    with False st show ?thesis by auto
  qed
qed

lemma board_step_empty:
  assumes "departure_board E (stop_id st) (last_date st) (cursor_time st) = Inr None"
    and "map_of (stops c) sid = Some st"
  shows "board_step E sid c =
           Inr ((log_request (ReqBoard (stop_id st) (last_date st) (cursor_time st)) c)\<lparr>stops :=
                  AList.update sid (st\<lparr>last_date := last_date st + 1\<rparr>) (stops c)\<rparr>)"
  using assms by (simp add: board_step_def log_request_def)

lemma trips_loop_empty_board:
  assumes empty: "\<forall>d t. departure_board E sid d t = Inr None"
  shows "map_of (stops c) sid = Some st \<Longrightarrow> stop_id st = sid \<Longrightarrow>
         \<exists>c'. trips_loop E sid c = Inr c' \<and>
              board_queries (requests c') = board_queries (requests c) + nat (end_date c - last_date st) \<and>
              map_of (stops c') sid = Some (st\<lparr>last_date := max (last_date st) (end_date c)\<rparr>)"
proof (induction "nat (end_date c - last_date st)" arbitrary: c st)
  case 0
  then have "\<not> last_date st < end_date c" by simp
  with "0.prems" show ?case by (simp add: trips_loop.simps[of E sid c] max_def)
next
  case (Suc n)
  then have lt: "last_date st < end_date c" by simp
  let ?st1 = "st\<lparr>last_date := last_date st + 1\<rparr>"
  let ?c1 = "(log_request (ReqBoard (stop_id st) (last_date st) (cursor_time st)) c)\<lparr>stops :=
                  AList.update sid ?st1 (stops c)\<rparr>"
  have step: "board_step E sid c = Inr ?c1"
    using board_step_empty[of E st c sid] empty Suc.prems by simp
  have st1: "map_of (stops ?c1) sid = Some ?st1" by simp
  have n: "n = nat (end_date ?c1 - last_date ?st1)" using Suc.hyps(2) by (simp add: log_request_def)
  obtain c' where rest: "trips_loop E sid ?c1 = Inr c'" and
      bq: "board_queries (requests c') = board_queries (requests ?c1) + nat (end_date ?c1 - last_date ?st1)" and
      st': "map_of (stops c') sid = Some (?st1\<lparr>last_date := max (last_date ?st1) (end_date ?c1)\<rparr>)"
    using Suc.hyps(1)[OF n st1] Suc.prems(2) by auto
  have loop: "trips_loop E sid c = Inr c'"
    using Suc.prems(1) lt step rest by (simp add: trips_loop.simps[of E sid c])
  have "board_queries (requests c') = board_queries (requests c) + nat (end_date c - last_date st)"
    using bq lt by (simp add: log_request_def)
  moreover have "?st1\<lparr>last_date := max (last_date ?st1) (end_date ?c1)\<rparr> =
                 st\<lparr>last_date := max (last_date st) (end_date c)\<rparr>"
    using lt by (simp add: log_request_def max_def)
  ultimately show ?case using loop st' by auto
qed

lemma get_all_trips_for_stop_queries:
  assumes run: "get_all_trips_for_stop E sid c = Inr c'" and st: "map_of (stops c) sid = Some st"
  shows "board_queries (requests c') \<le> board_queries (requests c) + nat (end_date c - last_date st)"
proof (cases "trips_fetched st")
  case True
  with run st show ?thesis by (simp add: get_all_trips_for_stop_def)
next
  case False
  let ?st0 = "st\<lparr>trips_fetched := True\<rparr>"
  let ?c0 = "c\<lparr>stops := AList.update sid ?st0 (stops c)\<rparr>"
  have loop: "trips_loop E sid ?c0 = Inr c'" using run st False by (simp add: get_all_trips_for_stop_def)
  from trips_loop_result[OF loop, of ?st0] show ?thesis by simp
qed

text \<open>
  C17: \<^verbatim>\<open>get_all_trips_for_stop\<close> on a station not yet crawled returns (if no exception
  propagates) a state in which the station is marked crawled and its date has reached
  the end of the window, after at most as many departure-board queries as there were
  days left; no station is lost and no crawl flag, served flag or date goes back.
\<close>

theorem get_all_trips_for_stop_bounded:
  "get_all_trips_for_stop E sid c = Inr c' \<Longrightarrow> map_of (stops c) sid = Some st \<Longrightarrow>
   \<not> trips_fetched st \<Longrightarrow>
   (\<exists>st'. map_of (stops c') sid = Some st' \<and> trips_fetched st' \<and> end_date c \<le> last_date st') \<and>
   board_queries (requests c') \<le> board_queries (requests c) + nat (end_date c - last_date st) \<and>
   conv_le c c'"
proof -
  assume run: "get_all_trips_for_stop E sid c = Inr c'" and st: "map_of (stops c) sid = Some st"
    and nf: "\<not> trips_fetched st"
  let ?st0 = "st\<lparr>trips_fetched := True\<rparr>"
  let ?c0 = "c\<lparr>stops := AList.update sid ?st0 (stops c)\<rparr>"
  have loop: "trips_loop E sid ?c0 = Inr c'" using run st nf by (simp add: get_all_trips_for_stop_def)
  have st0: "map_of (stops ?c0) sid = Some ?st0" by simp
  have le0: "conv_le c ?c0" using st by (auto intro: conv_le_update simp: station_le_def)
  from trips_loop_result[OF loop st0] obtain st' where
      le: "conv_le ?c0 c'" and st': "map_of (stops c') sid = Some st'" "end_date ?c0 \<le> last_date st'" and
      bq: "board_queries (requests c') \<le> board_queries (requests ?c0) + nat (end_date ?c0 - last_date ?st0)"
    by blast
  have "station_le ?st0 st'"
    using le st0 st' unfolding conv_le_def by fastforce
  then have "trips_fetched st'" by (simp add: station_le_def)
  moreover have "conv_le c c'" using le0 le by (rule conv_le_trans)
  ultimately show ?thesis using st' bq by auto
qed

text \<open>
  C18: The specification's termination case: for a station whose departure board never
  reports a departure, each query still advances the date by one day, and the crawl
  of the station ends after exactly as many queries as there were days left, with its
  date at the end of the window and the station marked crawled.
\<close>

theorem get_all_trips_for_stop_empty_board:
  "\<forall>d t. departure_board E sid d t = Inr None \<Longrightarrow> map_of (stops c) sid = Some st \<Longrightarrow>
   stop_id st = sid \<Longrightarrow> \<not> trips_fetched st \<Longrightarrow>
   \<exists>c'. get_all_trips_for_stop E sid c = Inr c' \<and>
        board_queries (requests c') = board_queries (requests c) + nat (end_date c - last_date st) \<and>
        map_of (stops c') sid =
          Some (st\<lparr>trips_fetched := True, last_date := max (last_date st) (end_date c)\<rparr>)"
proof -
  assume empty: "\<forall>d t. departure_board E sid d t = Inr None" and st: "map_of (stops c) sid = Some st"
    and sid: "stop_id st = sid" and nf: "\<not> trips_fetched st"
  let ?st0 = "st\<lparr>trips_fetched := True\<rparr>"
  let ?c0 = "c\<lparr>stops := AList.update sid ?st0 (stops c)\<rparr>"
  have "map_of (stops ?c0) sid = Some ?st0" by simp
  from trips_loop_empty_board[OF empty this] sid obtain c' where
      "trips_loop E sid ?c0 = Inr c'"
      "board_queries (requests c') = board_queries (requests ?c0) + nat (end_date ?c0 - last_date ?st0)"
      "map_of (stops c') sid = Some (?st0\<lparr>last_date := max (last_date ?st0) (end_date ?c0)\<rparr>)"
    by auto
  with st nf show ?thesis by (auto simp: get_all_trips_for_stop_def)
qed

end
