(* ===== verification/Preserve.thy ===== *)
theory Preserve
  imports Frontier
begin

text \<open>
  One induction for the crawl. The crawl changes the converter in three ways only:
  \<open>process_dep\<close> (the body of the loop over one departure board), an update of a known
  station that \<open>station_le\<close> allows (the cursor, the date, \<open>trips_fetched\<close>), and the
  logging of a departure-board request. A predicate that is stable under these three is kept by
  \<open>board_step\<close>, \<open>trips_loop\<close>, \<open>get_all_trips_for_stop\<close> and \<open>crawl_loop\<close>; the
  invariants of the later theories are instances.
\<close>

section \<open>Definitions\<close>

definition crawl_stable :: "env \<Rightarrow> (converter \<Rightarrow> bool) \<Rightarrow> bool" where
  "crawl_stable E P \<longleftrightarrow>
     (\<forall>sid d a b. P a \<longrightarrow> process_dep E sid d a = Inr b \<longrightarrow> P b) \<and>
     (\<forall>sid a s s'. P a \<longrightarrow> map_of (stops a) sid = Some s \<longrightarrow> station_le s s' \<longrightarrow>
                   P (a\<lparr>stops := AList.update sid s' (stops a)\<rparr>)) \<and>
     (\<forall>i d t a. P a \<longrightarrow> P (log_request (ReqBoard i d t) a))"

section \<open>The crawl keeps a stable predicate\<close>

lemma crawl_stableI:
  assumes "\<And>sid d a b. P a \<Longrightarrow> process_dep E sid d a = Inr b \<Longrightarrow> P b"
    and "\<And>sid a s s'. P a \<Longrightarrow> map_of (stops a) sid = Some s \<Longrightarrow> station_le s s' \<Longrightarrow>
                       P (a\<lparr>stops := AList.update sid s' (stops a)\<rparr>)"
    and "\<And>i d t a. P a \<Longrightarrow> P (log_request (ReqBoard i d t) a)"
  shows "crawl_stable E P"
  using assms unfolding crawl_stable_def by blast

lemma crawl_stable_dep: "crawl_stable E P \<Longrightarrow> P a \<Longrightarrow> process_dep E sid d a = Inr b \<Longrightarrow> P b"
  unfolding crawl_stable_def by blast

lemma crawl_stable_update:
  "crawl_stable E P \<Longrightarrow> P a \<Longrightarrow> map_of (stops a) sid = Some s \<Longrightarrow> station_le s s' \<Longrightarrow>
   P (a\<lparr>stops := AList.update sid s' (stops a)\<rparr>)"
  unfolding crawl_stable_def by blast

lemma crawl_stable_log: "crawl_stable E P \<Longrightarrow> P a \<Longrightarrow> P (log_request (ReqBoard i d t) a)"
  unfolding crawl_stable_def by blast

lemma board_step_stable:
  assumes S: "crawl_stable E P" and P: "P c" and run: "board_step E sid c = Inr c'"
  shows "P c'"
proof -
  from run obtain st where st: "map_of (stops c) sid = Some st"
    by (auto simp: board_step_def split: option.splits)
  let ?c1 = "log_request (ReqBoard (stop_id st) (last_date st) (cursor_time st)) c"
  let ?c2 = "?c1\<lparr>stops := AList.update sid (st\<lparr>last_date := last_date st + 1\<rparr>) (stops ?c1)\<rparr>"
  have "P ?c1" using S P by (rule crawl_stable_log)
  moreover have "map_of (stops ?c1) sid = Some st" using st by (simp add: log_request_def)
  moreover have "station_le st (st\<lparr>last_date := last_date st + 1\<rparr>)" by (simp add: station_le_def)
  ultimately have P2: "P ?c2" by (rule crawl_stable_update[OF S])
  from run st P2 show ?thesis
    by (auto simp: board_step_def rbind_eq_Inr Let_def split: option.splits
             intro: rfold_invariant[where P = P, OF crawl_stable_dep[OF S]])
qed

lemma trips_loop_stable:
  "crawl_stable E P \<Longrightarrow> P c \<Longrightarrow> trips_loop E sid c = Inr c' \<Longrightarrow> P c'"
proof (induction E sid c rule: trips_loop.induct)
  case (1 E sid c)
  show ?case
  proof (cases "map_of (stops c) sid")
    case (Some st)
    show ?thesis
    proof (cases "last_date st < end_date c")
      case True
      with "1.prems"(3) Some obtain c1 where step: "board_step E sid c = Inr c1"
          and rest: "trips_loop E sid c1 = Inr c'"
        by (auto simp: trips_loop.simps[of E sid c] rbind_eq_Inr)
      have "P c1" using "1.prems"(1,2) step by (rule board_step_stable)
      with "1.IH"[OF Some True step "1.prems"(1)] rest show ?thesis by blast
    next
      case False
      with "1.prems" Some show ?thesis by (simp add: trips_loop.simps[of E sid c])
    qed
  qed (use "1.prems" in \<open>simp add: trips_loop.simps[of E sid c]\<close>)
qed

lemma get_all_trips_for_stop_stable:
  assumes S: "crawl_stable E P" and P: "P c" and run: "get_all_trips_for_stop E sid c = Inr c'"
  shows "P c'"
proof -
  from run obtain st where st: "map_of (stops c) sid = Some st"
    by (auto simp: get_all_trips_for_stop_def split: option.splits)
  have "P (c\<lparr>stops := AList.update sid (st\<lparr>trips_fetched := True\<rparr>) (stops c)\<rparr>)"
    using S P st by (rule crawl_stable_update) (simp add: station_le_def)
  with S P run st show ?thesis
    by (auto simp: get_all_trips_for_stop_def split: if_splits intro: trips_loop_stable)
qed

lemma crawl_loop_stable:
  assumes run: "crawl_loop E c = Some r"
  shows "crawl_stable E P \<Longrightarrow> P c \<Longrightarrow> r = Inr c' \<Longrightarrow> P c'"
proof (induction arbitrary: c' rule: crawl_loop.raw_induct[OF _ run])
  case (1 loop E c r)
  show ?case
    using 1 by (auto split: option.splits if_splits sum.splits
                     dest: get_all_trips_for_stop_stable[OF "1.prems"(1) "1.prems"(2)])
qed

end
