(* ===== verification/Invariant.thy ===== *)
theory Invariant
  imports Preserve
begin

text \<open>
  The invariant of the converter between any two steps of the crawl, and its
  preservation by every operation that changes state: the registry is well formed
  (each station under its own id, once), the route list is duplicate-free with its
  agencies listed, no two trips have the same shape, and every trip has at least two
  stops, a route whose identity is its name and agency, its service date among its
  operating days (a finite set), no service id yet, only served stations as stops, and the name of
  its last stop's station as headsign.
\<close>

section \<open>Definitions\<close>

definition served :: "converter \<Rightarrow> sid \<Rightarrow> bool" where
  "served c i = (case map_of (stops c) i of Some s \<Rightarrow> has_trip s | None \<Rightarrow> False)"

definition trip_ok :: "converter \<Rightarrow> trip \<Rightarrow> bool" where
  "trip_ok c t \<longleftrightarrow>
     1 < length (tr_stoptimes t) \<and>
     tr_route_id t < length (routes c) \<and> route_key (routes c ! tr_route_id t) = (tr_name t, tr_agency_id t) \<and>
     tr_service_date t \<in> tr_service_dates t \<and> finite (tr_service_dates t) \<and>
     list_all (\<lambda>st. served c (st_stop_id st)) (tr_stoptimes t) \<and>
     map_option stop_name (map_of (stops c) (st_stop_id (last (tr_stoptimes t)))) = Some (tr_headsign t)"

definition conv_inv :: "converter \<Rightarrow> bool" where
  "conv_inv c \<longleftrightarrow>
     stops_wf (stops c) \<and> routes_wf c \<and> distinct (map trip_shape (trips c)) \<and>
     list_all (trip_ok c) (trips c) \<and> list_all (\<lambda>t. tr_service_id t = None) (trips c) \<and>
     calendar_dates c = []"

text \<open>What holds of the trip \<^verbatim>\<open>process_trip\<close> is building, stop by stop.\<close>

definition building_ok :: "converter \<Rightarrow> trip \<Rightarrow> bool" where
  "building_ok c t \<longleftrightarrow>
     list_all (\<lambda>st. served c (st_stop_id st)) (tr_stoptimes t) \<and>
     tr_service_dates t = {} \<and> tr_service_id t = None"

section \<open>Preservation by every operation\<close>

lemma served_mono: "conv_le c c' \<Longrightarrow> served c i \<Longrightarrow> served c' i"
  by (fastforce simp: served_def conv_le_def station_le_def split: option.splits)

lemma name_mono:
  "conv_le c c' \<Longrightarrow> map_of (stops c) i = Some s \<Longrightarrow>
   map_option stop_name (map_of (stops c') i) = Some (stop_name s)"
  by (fastforce simp: conv_le_def station_le_def)

lemma name_mono':
  "conv_le c c' \<Longrightarrow> map_option stop_name (map_of (stops c) i) = Some n \<Longrightarrow>
   map_option stop_name (map_of (stops c') i) = Some n"
  by (auto dest: name_mono)

lemma trip_ok_mono:
  "trip_ok c t \<Longrightarrow> conv_le c c' \<Longrightarrow> routes c' = routes c @ rs \<Longrightarrow> trip_ok c' t"
proof -
  assume ok: "trip_ok c t" and le: "conv_le c c'" and r: "routes c' = routes c @ rs"
  have "map_option stop_name (map_of (stops c') (st_stop_id (last (tr_stoptimes t)))) = Some (tr_headsign t)"
    using ok le name_mono' unfolding trip_ok_def by blast
  then show ?thesis using ok le r unfolding trip_ok_def
    by (auto simp: nth_append list_all_iff intro: served_mono)
qed

lemma trip_ok_dates:
  "trip_ok c x \<Longrightarrow> trip_ok c (x\<lparr>tr_service_dates := insert d (tr_service_dates x)\<rparr>)"
  by (simp add: trip_ok_def)

lemma stops_wf_update_same:
  "stops_wf sts \<Longrightarrow> map_of sts k = Some s \<Longrightarrow> stop_id s' = stop_id s \<Longrightarrow> stops_wf (AList.update k s' sts)"
  by (metis stops_wf_lookup stops_wf_update)

lemma building_ok_mono: "building_ok c t \<Longrightarrow> conv_le c c' \<Longrightarrow> building_ok c' t"
  by (auto simp: building_ok_def list_all_iff intro: served_mono)

lemma pack_stoptime_id: "pack_stoptime sd st = Inr st' \<Longrightarrow> st_stop_id st' = st_stop_id st"
  by (auto simp: pack_stoptime_def Let_def rbind_eq_Inr split: if_splits)

lemma pack_trip_Inr:
  assumes "pack_trip sts tr = Inr tr'"
  shows "\<exists>ys s. tr' = tr\<lparr>tr_stoptimes := ys, tr_headsign := stop_name s, tr_service_date := service_day tr\<rparr> \<and>
           map st_stop_id ys = map st_stop_id (tr_stoptimes tr) \<and> ys \<noteq> [] \<and>
           map_of sts (st_stop_id (last ys)) = Some s"
proof -
  obtain ys s where ne: "tr_stoptimes tr \<noteq> []"
      and ys: "rmap (pack_stoptime (service_day tr)) (tr_stoptimes tr) = Inr ys"
      and yne: "ys \<noteq> []" and s: "map_of sts (st_stop_id (last ys)) = Some s"
      and tr': "tr' = tr\<lparr>tr_stoptimes := ys, tr_headsign := stop_name s, tr_service_date := service_day tr\<rparr>"
    using assms
    by (auto simp: pack_trip_def service_day_def py_index_def py_last_def hd_conv_nth rbind_eq_Inr Let_def
             split: if_splits option.splits)
  have "map st_stop_id ys = map st_stop_id (tr_stoptimes tr)"
    using ys by (auto simp: rmap_Inr_iff list_eq_iff_nth_eq intro: pack_stoptime_id)
  with tr' yne s show ?thesis by blast
qed

lemma served_update:
  "map_of (stops c) i = Some st \<Longrightarrow> served (c\<lparr>stops := AList.update i (st\<lparr>has_trip := True\<rparr>) (stops c)\<rparr>) i"
  by (simp add: served_def update_conv')

lemma trip_ok_frame:
  "stops c' = stops c \<Longrightarrow> routes c' = routes c \<Longrightarrow> trip_ok c' = trip_ok c"
  by (simp add: trip_ok_def served_def fun_eq_iff)

lemma process_stop_inv:
  assumes inv: "conv_inv c" and b: "building_ok c tr"
    and run: "process_stop E s (tr, c) = Inr (tr', c')"
  shows "conv_inv c' \<and> building_ok c' tr' \<and> (\<exists>x. tr' = tr\<lparr>tr_stoptimes := tr_stoptimes tr @ [x]\<rparr>)"
proof -
  obtain c1 i st x where c1: "process_station_by_ob E (Some (Single (stop_loc s))) c = Inr c1"
      and st: "map_of (stops c1) i = Some st"
      and c': "c' = c1\<lparr>stops := AList.update i (st\<lparr>has_trip := True\<rparr>) (stops c1)\<rparr>"
      and tr': "tr' = tr\<lparr>tr_stoptimes := tr_stoptimes tr @ [x]\<rparr>" and x: "st_stop_id x = i"
    using run by (auto simp: process_stop_def rbind_eq_Inr Let_def split: option.splits)
  have fr: "c1 = c\<lparr>stops := stops c1\<rparr>" using c1 by (rule process_station_by_ob_frame)
  have le: "conv_le c c'" using run by (rule conv_le_process_stop)
  have "stops_wf (stops c1)" using inv c1 process_station_by_ob_wf unfolding conv_inv_def by blast
  then have wf: "stops_wf (stops c')" using st c' by (simp add: stops_wf_update_same)
  have rs: "routes c' = routes c @ []" "trips c' = trips c" "agencies c' = agencies c"
      "calendar_dates c' = calendar_dates c"
    using fr c' by (metis append_Nil2 converter.select_convs converter.surjective converter.update_convs)+
  have "routes_wf c'" using inv rs by (simp add: conv_inv_def routes_wf_def)
  moreover have "list_all (trip_ok c') (trips c')"
    using inv rs le by (auto simp: conv_inv_def list_all_iff intro: trip_ok_mono)
  moreover have "served c' i" using served_update[of c1 i st] st c' by simp
  moreover have "building_ok c' tr"  using b le by (rule building_ok_mono)
  ultimately show ?thesis using wf inv rs tr' x
    by (auto simp: conv_inv_def building_ok_def)
qed

lemma stops_loop_inv:
  "rfold (process_stop E) sts (tr, c) = Inr (tr', c') \<Longrightarrow> conv_inv c \<Longrightarrow> building_ok c tr \<Longrightarrow>
   conv_inv c' \<and> building_ok c' tr' \<and> tr' = tr\<lparr>tr_stoptimes := tr_stoptimes tr'\<rparr> \<and>
   length (tr_stoptimes tr') = length (tr_stoptimes tr) + length sts"
proof (induction sts arbitrary: tr c)
  case Nil
  then show ?case by simp
next
  case (Cons s sts)
  from Cons.prems(1) obtain tr1 c1 where
      one: "process_stop E s (tr, c) = Inr (tr1, c1)" and rest: "rfold (process_stop E) sts (tr1, c1) = Inr (tr', c')"
    by (auto simp: rbind_eq_Inr)
  from process_stop_inv[OF Cons.prems(2,3) one] obtain x where
      "conv_inv c1" "building_ok c1 tr1" "tr1 = tr\<lparr>tr_stoptimes := tr_stoptimes tr @ [x]\<rparr>"
    by blast
  with Cons.IH[OF rest] show ?case by auto
qed

lemma trip_append_all:
  assumes "list_all P (trips c)"
    and "\<And>x. P x \<Longrightarrow> P (x\<lparr>tr_service_dates := insert (tr_service_date t) (tr_service_dates x)\<rparr>)"
    and "P (t\<lparr>tr_service_dates := insert (tr_service_date t) (tr_service_dates t)\<rparr>)"
  shows "list_all P (trips (trip_append t c))"
proof -
  have "list_all P ts \<Longrightarrow> merge_trip ts t = Some ts' \<Longrightarrow> list_all P ts'" for ts ts'
    by (induction ts arbitrary: ts') (auto simp: assms(2) split: if_splits)
  with assms show ?thesis by (auto simp: trip_append_def split: option.splits)
qed

lemma finish_trip_inv:
  assumes inv: "conv_inv c" and b: "building_ok c tr" and run: "finish_trip tr c = Inr c'"
  shows "conv_inv c'"
proof -
  obtain rid c2 where ra: "route_append tr c = (rid, c2)" by (cases "route_append tr c")
  obtain rs where c2: "stops c2 = stops c" "trips c2 = trips c" "calendar_dates c2 = calendar_dates c"
      "routes c2 = routes c @ rs" "start_date c2 = start_date c" "end_date c2 = end_date c"
    using route_append_frame[OF ra] by (metis converter.select_convs converter.surjective converter.update_convs)
  have le: "conv_le c c2" using c2 by (simp add: conv_le_stops_same)
  have inv2: "conv_inv c2"
    using inv c2 le route_append_wf[OF _ ra]
    by (auto simp: conv_inv_def list_all_iff intro: trip_ok_mono)
  have b2: "building_ok c2 tr" using b le by (rule building_ok_mono)
  have key: "rid < length (routes c2)" "route_key (routes c2 ! rid) = (tr_name tr, tr_agency_id tr)"
    using route_append_result[OF ra] by auto
  show ?thesis
  proof (cases "1 < length (tr_stoptimes tr)")
    case False
    with run ra inv2 show ?thesis by (simp add: finish_trip_def)
  next
    case True
    with run ra obtain tr3 where pk: "pack_trip (stops c2) (tr\<lparr>tr_route_id := rid\<rparr>) = Inr tr3"
        and c': "c' = trip_append tr3 c2"
      by (auto simp: finish_trip_def rbind_eq_Inr)
    from pack_trip_Inr[OF pk] obtain ys s where
        tr3: "tr3 = tr\<lparr>tr_route_id := rid, tr_stoptimes := ys, tr_headsign := stop_name s,
                       tr_service_date := service_day (tr\<lparr>tr_route_id := rid\<rparr>)\<rparr>"
        and ids: "map st_stop_id ys = map st_stop_id (tr_stoptimes tr)" and yne: "ys \<noteq> []"
        and s: "map_of (stops c2) (st_stop_id (last ys)) = Some s"
      by auto
    have len: "length ys = length (tr_stoptimes tr)" using ids map_eq_imp_length_eq by blast
    have "list_all (\<lambda>st. served c2 (st_stop_id st)) ys"
      using b2 ids unfolding building_ok_def list_all_iff
      by (metis (no_types, lifting) image_iff list.set_map)
    then have new: "trip_ok c2 (tr3\<lparr>tr_service_dates := insert (tr_service_date tr3) (tr_service_dates tr3)\<rparr>)"
      using True len key b2 s tr3 by (simp add: trip_ok_def building_ok_def)
    have fr: "stops c' = stops c2" "routes c' = routes c2" "agencies c' = agencies c2"
        "calendar_dates c' = calendar_dates c2"
      using c' trip_append_frame[of tr3 c2] by simp_all
    then have "trip_ok c' = trip_ok c2" by (intro trip_ok_frame)
    moreover have "list_all (trip_ok c2) (trips c')"
    proof -
      have "list_all (trip_ok c2) (trips c2)" using inv2 by (simp add: conv_inv_def)
      then show ?thesis unfolding c' using trip_ok_dates new by (rule trip_append_all)
    qed
    moreover have "list_all (\<lambda>t. tr_service_id t = None) (trips c')"
    proof -
      have "list_all (\<lambda>t. tr_service_id t = None) (trips c2)" using inv2 by (simp add: conv_inv_def)
      moreover have "tr_service_id tr3 = None" using b2 tr3 by (simp add: building_ok_def)
      ultimately show ?thesis unfolding c' by (intro trip_append_all) simp_all
    qed
    moreover have "distinct (map trip_shape (trips c'))"
      using inv2 c' trip_append_distinct by (simp add: conv_inv_def)
    ultimately show ?thesis using inv2 fr by (simp add: conv_inv_def routes_wf_def)
  qed
qed

lemma conv_inv_frame:
  assumes "stops c' = stops c" "routes c' = routes c" "agencies c' = agencies c"
    "trips c' = trips c" "calendar_dates c' = calendar_dates c"
  shows "conv_inv c' = conv_inv c"
proof -
  have "trip_ok c' = trip_ok c" using assms(1,2) by (rule trip_ok_frame)
  then show ?thesis using assms unfolding conv_inv_def routes_wf_def by simp
qed

lemma conv_inv_grow:
  assumes inv: "conv_inv c" and le: "conv_le c c'" and wf: "stops_wf (stops c')"
    and same: "routes c' = routes c" "agencies c' = agencies c" "trips c' = trips c"
      "calendar_dates c' = calendar_dates c"
  shows "conv_inv c'"
proof -
  have "list_all (trip_ok c') (trips c')"
    using inv le same trip_ok_mono[where c = c and c' = c' and rs = "[]"] unfolding conv_inv_def list_all_iff by simp
  then show ?thesis using inv wf same unfolding conv_inv_def routes_wf_def by simp
qed

lemma conv_inv_station_update:
  assumes inv: "conv_inv c" and s: "map_of (stops c) k = Some s" and le: "station_le s s'"
  shows "conv_inv (c\<lparr>stops := AList.update k s' (stops c)\<rparr>)"
proof (rule conv_inv_grow[OF inv])
  show "conv_le c (c\<lparr>stops := AList.update k s' (stops c)\<rparr>)" using s le by (rule conv_le_update)
  show "stops_wf (stops (c\<lparr>stops := AList.update k s' (stops c)\<rparr>))"
    using inv s le by (simp add: conv_inv_def station_le_def stops_wf_update_same)
qed simp_all

lemma process_station_by_ob_inv:
  assumes inv: "conv_inv c" and run: "process_station_by_ob E station c = Inr c'"
  shows "conv_inv c'"
proof (rule conv_inv_grow[OF inv])
  have fr: "c' = c\<lparr>stops := stops c'\<rparr>" using run by (rule process_station_by_ob_frame)
  show "conv_le c c'" using run by (rule conv_le_process_station_by_ob)
  show "stops_wf (stops c')" using inv run process_station_by_ob_wf by (auto simp: conv_inv_def)
  show "routes c' = routes c" "agencies c' = agencies c" "trips c' = trips c"
      "calendar_dates c' = calendar_dates c"
    by (subst fr; simp)+
qed

lemma process_journey_inv:
  assumes inv: "conv_inv c" and run: "process_journey E jd c = Inr c'"
  shows "conv_inv c'"
proof (cases "jd_stops jd")
  case (Single x)
  with run show ?thesis by (simp add: process_journey_Single)
next
  case (Many sts)
  with run obtain tr1 c1 nm ty ag where
      loop: "rfold (process_stop E) sts (new_trip nm ty ag, c) = Inr (tr1, c1)" and
      fin: "finish_trip tr1 c1 = Inr c'"
    by (auto simp: process_journey_def rbind_eq_Inr)
  have "building_ok c (new_trip nm ty ag)" by (simp add: building_ok_def new_trip_def)
  with stops_loop_inv[OF loop inv] have "conv_inv c1" "building_ok c1 tr1" by auto
  then show ?thesis using fin by (rule finish_trip_inv)
qed

lemma log_request_inv [simp]: "conv_inv (log_request r c) = conv_inv c"
  by (rule conv_inv_frame) (simp_all add: log_request_def)

lemma process_trip_inv:
  "conv_inv c \<Longrightarrow> process_trip E url c = Inr c' \<Longrightarrow> conv_inv c'"
  by (auto simp: process_trip_def rbind_eq_Inr Let_def split: option.splits
           dest: process_journey_inv[OF iffD2[OF log_request_inv]])

lemma process_dep_inv:
  assumes inv: "conv_inv c" and run: "process_dep E sid dep c = Inr c'"
  shows "conv_inv c'"
  using run
proof (cases rule: process_dep_cases)
  case (skip st st')
  then show ?thesis using inv update_cursor_le[OF skip(2)] by (blast intro: conv_inv_station_update)
next
  case (fetch st st' c2)
  have "conv_inv (c\<lparr>stops := AList.update sid st' (stops c)\<rparr>)"
    using inv fetch(1) update_cursor_le[OF fetch(2)] by (blast intro: conv_inv_station_update)
  then have "conv_inv c2" using fetch(4) by (rule process_trip_inv)
  moreover have "conv_inv c' = conv_inv c2" using fetch(5) by (intro conv_inv_frame) simp_all
  ultimately show ?thesis by simp
qed

lemma conv_inv_stable: "crawl_stable E conv_inv"
  by (rule crawl_stableI) (auto intro: process_dep_inv conv_inv_station_update)

lemma get_all_trips_for_stop_inv:
  "conv_inv c \<Longrightarrow> get_all_trips_for_stop E sid c = Inr c' \<Longrightarrow> conv_inv c'"
  by (rule get_all_trips_for_stop_stable[OF conv_inv_stable])

lemma process_station_by_id_inv:
  "conv_inv c \<Longrightarrow> process_station_by_id E i c = Inr c' \<Longrightarrow> conv_inv c'"
  by (auto simp: process_station_by_id_def get_station_detail_def rbind_eq_Inr Let_def split: if_splits
           dest: process_station_by_ob_inv[OF iffD2[OF log_request_inv]])

lemma crawl_loop_inv:
  "crawl_loop E c = Some r \<Longrightarrow> conv_inv c \<Longrightarrow> r = Inr c' \<Longrightarrow> conv_inv c'"
  by (rule crawl_loop_stable[OF _ conv_inv_stable])

end
