(* ===== verification/Liveness.thy ===== *)
theory Liveness
  imports Invariant
begin

text \<open>
  Termination of the crawl loop of \<^verbatim>\<open>main\<close>. Stations enter the registry only from
  the stops of journey details; when every journey the API can return has its stops
  among a finite set \<open>K\<close> of station ids and the registry starts inside \<open>K\<close>, each
  iteration marks one more station of \<open>K\<close> as crawled, so the loop returns after at
  most \<open>card K\<close> iterations.
\<close>

section \<open>Definitions\<close>

text \<open>Whether station \<open>k\<close> is registered and already crawled.\<close>

definition fetched :: "converter \<Rightarrow> sid \<Rightarrow> bool" where
  "fetched c k = (case map_of (stops c) k of Some s \<Rightarrow> trips_fetched s | None \<Rightarrow> False)"

text \<open>Every stop of every journey detail the API returns has its id in \<open>K\<close>.\<close>

definition journey_ids_in :: "sid set \<Rightarrow> env \<Rightarrow> bool" where
  "journey_ids_in K E \<longleftrightarrow>
     (\<forall>u jd. journey_detail_of E u = Inr (Some jd) \<longrightarrow>
        (\<forall>s \<in> set (as_list (jd_stops jd)). \<forall>i. py_int (js_id s) = Inr i \<longrightarrow> i \<in> K))"

text \<open>Every station registered since \<open>c\<close> is dated no earlier than the feed's start.\<close>

definition fresh_dated :: "converter \<Rightarrow> converter \<Rightarrow> bool" where
  "fresh_dated c c' \<longleftrightarrow>
     (\<forall>k s'. map_of (stops c') k = Some s' \<longrightarrow> map_of (stops c) k = None \<longrightarrow> start_date c \<le> last_date s')"

text \<open>The registry grew only by stations of \<open>K\<close>, dated from the start, and lost nothing.\<close>

definition grows_within :: "sid set \<Rightarrow> converter \<Rightarrow> converter \<Rightarrow> bool" where
  "grows_within K c c' \<longleftrightarrow>
     conv_le c c' \<and> dom (map_of (stops c')) \<subseteq> dom (map_of (stops c)) \<union> K \<and> fresh_dated c c'"

text \<open>Every registered station is dated no earlier than the feed's start.\<close>

definition dated_from_start :: "converter \<Rightarrow> bool" where
  "dated_from_start c \<longleftrightarrow> (\<forall>k s. map_of (stops c) k = Some s \<longrightarrow> start_date c \<le> last_date s)"

section \<open>The registry grows inside K\<close>

lemma dom_update_known:
  "map_of al k = Some v \<Longrightarrow> dom (map_of (AList.update k v' al)) = dom (map_of al)"
  by (auto simp: update_conv')

lemma grows_within_refl [simp]: "grows_within K c c"
  by (simp add: grows_within_def fresh_dated_def)

lemma fresh_dated_trans:
  assumes ab: "fresh_dated a b" and bc: "fresh_dated b c" and le_ab: "conv_le a b" and le_bc: "conv_le b c"
  shows "fresh_dated a c"
  unfolding fresh_dated_def
proof (intro allI impI)
  fix k s'
  assume c: "map_of (stops c) k = Some s'" and a: "map_of (stops a) k = None"
  have sd: "start_date b = start_date a" using le_ab by (simp add: conv_le_def)
  show "start_date a \<le> last_date s'"
  proof (cases "map_of (stops b) k")
    case None
    with bc c sd show ?thesis by (auto simp: fresh_dated_def)
  next
    case (Some sb)
    with le_bc c have "last_date sb \<le> last_date s'" by (fastforce simp: conv_le_def station_le_def)
    moreover have "start_date a \<le> last_date sb" using ab Some a by (auto simp: fresh_dated_def)
    ultimately show ?thesis by simp
  qed
qed

lemma grows_within_trans: "grows_within K a b \<Longrightarrow> grows_within K b c \<Longrightarrow> grows_within K a c"
  unfolding grows_within_def by (blast intro: conv_le_trans fresh_dated_trans)

lemma grows_within_same:
  "conv_le c c' \<Longrightarrow> dom (map_of (stops c')) = dom (map_of (stops c)) \<Longrightarrow> grows_within K c c'"
proof -
  assume le: "conv_le c c'" and d: "dom (map_of (stops c')) = dom (map_of (stops c))"
  have "fresh_dated c c'" unfolding fresh_dated_def using d by (metis domI domIff)
  with le d show ?thesis by (simp add: grows_within_def)
qed

lemma grows_within_update:
  "map_of (stops c) k = Some s \<Longrightarrow> station_le s s' \<Longrightarrow>
   grows_within K c (c\<lparr>stops := AList.update k s' (stops c)\<rparr>)"
  by (rule grows_within_same) (simp_all add: conv_le_update dom_update_known)

lemma grows_within_log [simp]: "grows_within K c (log_request r c)"
  by (rule grows_within_same) (simp_all add: log_request_def conv_le_stops_same)

lemma process_station_by_ob_fresh:
  "process_station_by_ob E station c = Inr c' \<Longrightarrow> fresh_dated c c'"
  by (drule process_station_by_ob_cases)
     (auto simp: fresh_dated_def get_station_ob_def rbind_eq_Inr update_conv' split: if_splits)

lemma process_stop_fresh:
  assumes run: "process_stop E s (tr, c) = Inr (tr', c')"
  shows "fresh_dated c c'"
proof -
  from run obtain c1 i st where c1: "process_station_by_ob E (Some (Single (stop_loc s))) c = Inr c1"
      and st: "map_of (stops c1) i = Some st"
      and c': "c' = c1\<lparr>stops := AList.update i (st\<lparr>has_trip := True\<rparr>) (stops c1)\<rparr>"
    by (auto simp: process_stop_def rbind_eq_Inr Let_def split: option.splits)
  have "grows_within {} c1 c'" using st unfolding c' by (rule grows_within_update) (simp add: station_le_def)
  then show ?thesis
    using process_station_by_ob_fresh[OF c1] conv_le_process_station_by_ob[OF c1]
    unfolding grows_within_def by (blast intro: fresh_dated_trans)
qed

lemma process_stop_keys:
  "process_stop E s (tr, c) = Inr (tr', c') \<Longrightarrow>
   dom (map_of (stops c')) \<subseteq> dom (map_of (stops c)) \<union> {i. py_int (js_id s) = Inr i}"
proof -
  assume run: "process_stop E s (tr, c) = Inr (tr', c')"
  then obtain c1 i st where c1: "process_station_by_ob E (Some (Single (stop_loc s))) c = Inr c1"
      and st: "map_of (stops c1) i = Some st"
      and c': "c' = c1\<lparr>stops := AList.update i (st\<lparr>has_trip := True\<rparr>) (stops c1)\<rparr>"
    by (auto simp: process_stop_def rbind_eq_Inr Let_def split: option.splits)
  have "dom (map_of (stops c')) = dom (map_of (stops c1))" using c' st by (simp add: dom_update_known)
  moreover have "dom (map_of (stops c1)) \<subseteq> dom (map_of (stops c)) \<union> {i. py_int (js_id s) = Inr i}"
    using process_station_by_ob_cases[OF c1] by (auto simp: stop_loc_def dom_update)
  ultimately show ?thesis by simp
qed

lemma stops_loop_grows:
  "rfold (process_stop E) sts (tr, c) = Inr (tr', c') \<Longrightarrow>
   \<forall>s \<in> set sts. \<forall>i. py_int (js_id s) = Inr i \<longrightarrow> i \<in> K \<Longrightarrow> grows_within K c c'"
proof -
  assume run: "rfold (process_stop E) sts (tr, c) = Inr (tr', c')"
    and ids: "\<forall>s \<in> set sts. \<forall>i. py_int (js_id s) = Inr i \<longrightarrow> i \<in> K"
  have step: "grows_within K (snd a) (snd b)" if "s \<in> set sts" "process_stop E s a = Inr b" for s a b
  proof -
    obtain tr1 c1 tr2 c2 where a: "a = (tr1, c1)" and b: "b = (tr2, c2)" by (cases a, cases b)
    have "dom (map_of (stops c2)) \<subseteq> dom (map_of (stops c1)) \<union> K"
      using process_stop_keys[of E s tr1 c1 tr2 c2] that ids a b by auto
    moreover have "conv_le c1 c2" using that a b by (simp add: conv_le_process_stop)
    moreover have "fresh_dated c1 c2" using that a b by (simp add: process_stop_fresh)
    ultimately show ?thesis using a b by (simp add: grows_within_def)
  qed
  have "grows_within K (snd (tr, c)) (snd (tr', c'))"
    by (rule rfold_rel[where f = "process_stop E" and xs = sts, OF step _ grows_within_trans run]) simp_all
  then show ?thesis by simp
qed

lemma finish_trip_keys: "finish_trip tr c = Inr c' \<Longrightarrow> stops c' = stops c"
proof -
  assume run: "finish_trip tr c = Inr c'"
  obtain rid c2 where ra: "route_append tr c = (rid, c2)" by (cases "route_append tr c")
  then have c2: "stops c2 = stops c"
    using route_append_frame[OF ra] by (metis converter.select_convs converter.surjective converter.update_convs)
  with run ra trip_append_frame show ?thesis
    by (auto simp: finish_trip_def rbind_eq_Inr split: if_splits)
qed

lemma process_trip_grows:
  assumes K: "journey_ids_in K E" and run: "process_trip E url c = Inr c'"
  shows "grows_within K c c'"
proof -
  have le: "conv_le c c'" using run by (rule conv_le_process_trip)
  from run have "c' = log_request (ReqTrip url) c \<or>
      (\<exists>jd sts tr1 c1 nm ty ag. journey_detail_of E url = Inr (Some jd) \<and> jd_stops jd = Many sts \<and>
         rfold (process_stop E) sts (new_trip nm ty ag, log_request (ReqTrip url) c) = Inr (tr1, c1) \<and>
         finish_trip tr1 c1 = Inr c')"
    by (fastforce simp: process_trip_def rbind_eq_Inr Let_def split: option.splits dest!: process_journey_cases)
  then show ?thesis
  proof
    assume "c' = log_request (ReqTrip url) c"
    with le show ?thesis by (simp add: grows_within_same log_request_def)
  next
    assume "\<exists>jd sts tr1 c1 nm ty ag. journey_detail_of E url = Inr (Some jd) \<and> jd_stops jd = Many sts \<and>
         rfold (process_stop E) sts (new_trip nm ty ag, log_request (ReqTrip url) c) = Inr (tr1, c1) \<and>
         finish_trip tr1 c1 = Inr c'"
    then obtain jd sts tr1 c1 nm ty ag where jd: "journey_detail_of E url = Inr (Some jd)"
        and sts: "jd_stops jd = Many sts"
        and loop: "rfold (process_stop E) sts (new_trip nm ty ag, log_request (ReqTrip url) c) = Inr (tr1, c1)"
        and fin: "finish_trip tr1 c1 = Inr c'"
      by blast
    have "\<forall>s \<in> set sts. \<forall>i. py_int (js_id s) = Inr i \<longrightarrow> i \<in> K"
      using K jd sts unfolding journey_ids_in_def by fastforce
    with loop have "grows_within K (log_request (ReqTrip url) c) c1" by (rule stops_loop_grows)
    then show ?thesis using finish_trip_keys[OF fin] le
      by (simp add: grows_within_def fresh_dated_def log_request_def)
  qed
qed

lemma process_dep_grows:
  assumes K: "journey_ids_in K E" and run: "process_dep E sid dep c = Inr c'"
  shows "grows_within K c c'"
  using run
proof (cases rule: process_dep_cases)
  case (skip st st')
  then show ?thesis using update_cursor_le[OF skip(2)] by (blast intro: grows_within_update)
next
  case (fetch st st' c2)
  let ?c1 = "c\<lparr>stops := AList.update sid st' (stops c)\<rparr>"
  have "grows_within K c ?c1" using fetch(1) update_cursor_le[OF fetch(2)] by (blast intro: grows_within_update)
  moreover have "grows_within K ?c1 c2" using K fetch(4) by (rule process_trip_grows)
  moreover have "grows_within K c2 c'" using fetch(5) by (simp add: grows_within_same conv_le_stops_same)
  ultimately show ?thesis by (blast intro: grows_within_trans)
qed

lemma grows_stable: "journey_ids_in K E \<Longrightarrow> crawl_stable E (grows_within K c0)"
  by (rule crawl_stableI)
     (blast intro: grows_within_trans process_dep_grows grows_within_update grows_within_log)+

lemma trips_loop_grows:
  "journey_ids_in K E \<Longrightarrow> trips_loop E sid c = Inr c' \<Longrightarrow> grows_within K c c'"
  by (rule trips_loop_stable[OF grows_stable grows_within_refl])

lemma get_all_trips_for_stop_grows:
  assumes K: "journey_ids_in K E" and run: "get_all_trips_for_stop E sid c = Inr c'"
    and st: "map_of (stops c) sid = Some st"
  shows "grows_within K c c' \<and> fetched c' sid"
proof (cases "trips_fetched st")
  case True
  with run st show ?thesis by (simp add: get_all_trips_for_stop_def fetched_def)
next
  case False
  let ?c0 = "c\<lparr>stops := AList.update sid (st\<lparr>trips_fetched := True\<rparr>) (stops c)\<rparr>"
  have loop: "trips_loop E sid ?c0 = Inr c'" using run st False by (simp add: get_all_trips_for_stop_def)
  have g0: "grows_within K c ?c0"
    using st by (rule grows_within_update) (simp add: station_le_def)
  have g: "grows_within K ?c0 c'" using K loop by (rule trips_loop_grows)
  have "map_of (stops ?c0) sid = Some (st\<lparr>trips_fetched := True\<rparr>)" by simp
  with g obtain s' where "map_of (stops c') sid = Some s'" "station_le (st\<lparr>trips_fetched := True\<rparr>) s'"
    unfolding grows_within_def conv_le_def by blast
  then have "fetched c' sid" by (simp add: fetched_def station_le_def)
  with g0 g show ?thesis by (blast intro: grows_within_trans)
qed

lemma fetched_mono: "conv_le c c' \<Longrightarrow> fetched c k \<Longrightarrow> fetched c' k"
  unfolding fetched_def conv_le_def station_le_def by (fastforce split: option.splits)

lemma crawl_step_decreases:
  assumes fin: "finite K" and K: "journey_ids_in K E" and dom: "dom (map_of (stops c)) \<subseteq> K"
    and st: "map_of (stops c) sid = Some st" and nf: "\<not> trips_fetched st"
    and run: "get_all_trips_for_stop E sid c = Inr c'"
  shows "card {k \<in> K. \<not> fetched c' k} < card {k \<in> K. \<not> fetched c k} \<and> dom (map_of (stops c')) \<subseteq> K"
proof -
  from get_all_trips_for_stop_grows[OF K run st]
  have g: "grows_within K c c'" and f: "fetched c' sid" by auto
  have "{k \<in> K. \<not> fetched c' k} \<subseteq> {k \<in> K. \<not> fetched c k} - {sid}"
    using g f fetched_mono unfolding grows_within_def by blast
  moreover have "sid \<in> {k \<in> K. \<not> fetched c k}" using dom st nf by (auto simp: fetched_def)
  ultimately have "{k \<in> K. \<not> fetched c' k} \<subset> {k \<in> K. \<not> fetched c k}" by blast
  then have "card {k \<in> K. \<not> fetched c' k} < card {k \<in> K. \<not> fetched c k}"
    using fin by (simp add: psubset_card_mono)
  moreover have "dom (map_of (stops c')) \<subseteq> K" using g dom unfolding grows_within_def by blast
  ultimately show ?thesis by blast
qed

text \<open>
  The crawl loop of \<^verbatim>\<open>main\<close> returns (with the crawled converter or with the
  exception that ended it) from every reachable state whose registry lies in \<open>K\<close>,
  when \<open>K\<close> is finite and every journey the API returns stops only at stations of \<open>K\<close>.
\<close>

lemma crawl_loop_returns:
  "finite K \<Longrightarrow> journey_ids_in K E \<Longrightarrow> conv_inv c \<Longrightarrow> dom (map_of (stops c)) \<subseteq> K \<Longrightarrow>
   \<exists>r. crawl_loop E c = Some r"
proof (induction "card {k \<in> K. \<not> fetched c k}" arbitrary: c rule: less_induct)
  case less
  note fin = less.prems(1) and K = less.prems(2) and inv = less.prems(3) and dom = less.prems(4)
  show ?case
  proof (cases "get_unfetched_station_id c")
    case None
    then show ?thesis by (simp add: crawl_loop.simps[of E c])
  next
    case (Some sid)
    show ?thesis
    proof (cases "sid = 0")
      case True
      with Some show ?thesis by (simp add: crawl_loop.simps[of E c])
    next
      case False
      obtain st where st: "map_of (stops c) sid = Some st" and nf: "\<not> trips_fetched st"
        using first_unfetched_Some Some inv by (fastforce simp: get_unfetched_station_id_def conv_inv_def)
      show ?thesis
      proof (cases "get_all_trips_for_stop E sid c")
        case (Inl e)
        with Some False show ?thesis by (simp add: crawl_loop.simps[of E c])
      next
        case (Inr c')
        from crawl_step_decreases[OF fin K dom st nf Inr]
        have lt: "card {k \<in> K. \<not> fetched c' k} < card {k \<in> K. \<not> fetched c k}"
          and dom': "dom (map_of (stops c')) \<subseteq> K" by auto
        have "conv_inv c'" using inv Inr by (rule get_all_trips_for_stop_inv)
        with less.hyps[OF lt fin K _ dom'] obtain r where "crawl_loop E c' = Some r" by blast
        with Some False Inr show ?thesis by (simp add: crawl_loop.simps[of E c])
      qed
    qed
  qed
qed

lemma dated_from_start_grows:
  assumes d: "dated_from_start c" and g: "grows_within K c c'"
  shows "dated_from_start c'"
  unfolding dated_from_start_def
proof (intro allI impI)
  fix k s'
  assume s': "map_of (stops c') k = Some s'"
  have sd: "start_date c' = start_date c" using g by (simp add: grows_within_def conv_le_def)
  show "start_date c' \<le> last_date s'"
  proof (cases "map_of (stops c) k")
    case None
    with g s' sd show ?thesis by (auto simp: grows_within_def fresh_dated_def)
  next
    case (Some s)
    with g s' have "last_date s \<le> last_date s'" by (fastforce simp: grows_within_def conv_le_def station_le_def)
    moreover have "start_date c \<le> last_date s" using d Some by (simp add: dated_from_start_def)
    ultimately show ?thesis using sd by simp
  qed
qed

text \<open>
  The departure-board queries of the crawl loop: at most one per day of the window for
  each station of \<open>K\<close> not yet crawled.
\<close>

lemma crawl_loop_queries:
  assumes run: "crawl_loop E c = Some r"
  shows "r = Inr c' \<Longrightarrow> finite K \<Longrightarrow> journey_ids_in K E \<Longrightarrow> conv_inv c \<Longrightarrow>
         dom (map_of (stops c)) \<subseteq> K \<Longrightarrow> dated_from_start c \<Longrightarrow>
         board_queries (requests c') \<le>
           board_queries (requests c) + card {k \<in> K. \<not> fetched c k} * nat (end_date c - start_date c)"
proof (induction arbitrary: c' rule: crawl_loop.raw_induct[OF _ run])
  case (1 loop E c r)
  note IH = "1.IH" and eq = "1.hyps"
  note r = "1.prems"(1) and fin = "1.prems"(2) and K = "1.prems"(3) and inv = "1.prems"(4)
    and dom = "1.prems"(5) and dated = "1.prems"(6)
  show ?case
  proof (cases "get_unfetched_station_id c")
    case None
    with eq r show ?thesis by simp
  next
    case (Some sid)
    show ?thesis
    proof (cases "sid = 0")
      case True
      with eq r Some show ?thesis by simp
    next
      case False
      obtain st where st: "map_of (stops c) sid = Some st" and nf: "\<not> trips_fetched st"
        using first_unfetched_Some Some inv by (fastforce simp: get_unfetched_station_id_def conv_inv_def)
      show ?thesis
      proof (cases "get_all_trips_for_stop E sid c")
        case (Inl e)
        with eq r Some False show ?thesis by simp
      next
        case (Inr c1)
        with eq Some False have rest: "loop E c1 = Some r" by simp
        from crawl_step_decreases[OF fin K dom st nf Inr]
        have lt: "card {k \<in> K. \<not> fetched c1 k} < card {k \<in> K. \<not> fetched c k}"
          and dom1: "dom (map_of (stops c1)) \<subseteq> K" by auto
        have g: "grows_within K c c1"
          using get_all_trips_for_stop_grows[OF K Inr st] by simp
        then have same: "start_date c1 = start_date c" "end_date c1 = end_date c"
          by (simp_all add: grows_within_def conv_le_def)
        have inv1: "conv_inv c1" using inv Inr by (rule get_all_trips_for_stop_inv)
        have dated1: "dated_from_start c1" using dated g by (rule dated_from_start_grows)
        let ?W = "nat (end_date c - start_date c)"
        have q1: "board_queries (requests c1) \<le> board_queries (requests c) + ?W"
          using get_all_trips_for_stop_queries[OF Inr st] dated st
          by (fastforce simp: dated_from_start_def)
        have "board_queries (requests c') \<le> board_queries (requests c1) + card {k \<in> K. \<not> fetched c1 k} * ?W"
          using IH[OF rest r fin K inv1 dom1 dated1] same by simp
        moreover have "?W + card {k \<in> K. \<not> fetched c1 k} * ?W \<le> card {k \<in> K. \<not> fetched c k} * ?W"
          using lt mult_le_mono1[of "Suc (card {k \<in> K. \<not> fetched c1 k})" "card {k \<in> K. \<not> fetched c k}" ?W]
          by simp
        ultimately show ?thesis using q1 by linarith
      qed
    qed
  qed
qed

lemma crawl_loop_exit:
  assumes run: "crawl_loop E c = Some r"
  shows "r = Inr c' \<Longrightarrow> get_unfetched_station_id c' \<in> {None, Some 0}"
proof (induction arbitrary: c' rule: crawl_loop.raw_induct[OF _ run])
  case (1 loop E c r)
  then show ?case by (auto split: option.splits if_splits sum.splits)
qed

end
