(* ===== verification/Dates.thy ===== *)
theory Dates
  imports PyBase
begin

text \<open>
  Calendar dates as the program's \<^verbatim>\<open>datetime\<close> values hold them. A date is its proleptic
  Gregorian ordinal (\<^verbatim>\<open>date.toordinal()\<close>: 0001-01-01 is 1), the \<open>date\<close> of
  \<open>Prelude\<close>. The conversions between ordinals and (year, month, day) follow Python's
  \<^verbatim>\<open>datetime\<close> module (\<^verbatim>\<open>_ymd2ord\<close>, \<^verbatim>\<open>_ord2ymd\<close> with its 400/100/4/1-year
  cycles and its month estimate \<^verbatim>\<open>(n + 50) >> 5\<close>); \<open>strftime_ymd\<close> is
  \<^verbatim>\<open>strftime('%Y-%m-%d')\<close> as Python 2 has it (\<^verbatim>\<open>ValueError\<close> before 1900), and
  \<open>dateparse_iso\<close> is \<^verbatim>\<open>dateutil.parser.parse\<close> on year-first dashed dates, the only
  strings the program itself hands it. The two conversions are inverse to each other
  and parsing what \<open>strftime\<close> printed gives the date back.
\<close>

section \<open>Definitions\<close>

text \<open>Python's \<^verbatim>\<open>datetime._is_leap\<close>, \<^verbatim>\<open>_days_before_year\<close> and the month tables.\<close>

definition is_leap :: "int \<Rightarrow> bool" where
  "is_leap y \<longleftrightarrow> y mod 4 = 0 \<and> (y mod 100 \<noteq> 0 \<or> y mod 400 = 0)"

definition days_before_year :: "int \<Rightarrow> int" where
  "days_before_year year = (let y = year - 1 in y * 365 + y div 4 - y div 100 + y div 400)"

definition dim_table :: "int list" where
  "dim_table = [31, 28, 31, 30, 31, 30, 31, 31, 30, 31, 30, 31]"

definition dbm_table :: "int list" where
  "dbm_table = [0, 31, 59, 90, 120, 151, 181, 212, 243, 273, 304, 334]"

definition month_len :: "bool \<Rightarrow> int \<Rightarrow> int" where
  "month_len leap m = dim_table ! nat (m - 1) + (if m = 2 \<and> leap then 1 else 0)"

definition month_start :: "bool \<Rightarrow> int \<Rightarrow> int" where
  "month_start leap m = dbm_table ! nat (m - 1) + (if m > 2 \<and> leap then 1 else 0)"

definition days_in_month :: "int \<Rightarrow> int \<Rightarrow> int" where
  "days_in_month y m = month_len (is_leap y) m"

definition days_before_month :: "int \<Rightarrow> int \<Rightarrow> int" where
  "days_before_month y m = month_start (is_leap y) m"

definition ymd2ord :: "int \<Rightarrow> int \<Rightarrow> int \<Rightarrow> int" where
  "ymd2ord y m d = days_before_year y + days_before_month y m + d"

definition month_day :: "bool \<Rightarrow> int \<Rightarrow> int \<times> int" where
  "month_day leap n =
     (let month = (n + 50) div 32; preceding = month_start leap month in
      if preceding > n then
        (let month' = month - 1; preceding' = preceding - month_len leap month' in (month', n - preceding' + 1))
      else (month, n - preceding + 1))"

definition ord2ymd :: "int \<Rightarrow> int \<times> int \<times> int" where
  "ord2ymd n0 =
     (let n = n0 - 1;
          n400 = n div 146097; n = n mod 146097;
          n100 = n div 36524; n = n mod 36524;
          n4 = n div 1461; n = n mod 1461;
          n1 = n div 365; n = n mod 365;
          year = n400 * 400 + 1 + n100 * 100 + n4 * 4 + n1
      in if n1 = 4 \<or> n100 = 4 then (year - 1, 12, 31)
         else (let leap = (n1 = 3 \<and> (n4 \<noteq> 24 \<or> n100 = 3)); (m, d) = month_day leap n in (year, m, d)))"

definition valid_ymd :: "int \<Rightarrow> int \<Rightarrow> int \<Rightarrow> bool" where
  "valid_ymd y m d \<longleftrightarrow> 1 \<le> y \<and> 1 \<le> m \<and> m \<le> 12 \<and> 1 \<le> d \<and> d \<le> days_in_month y m"

text \<open>\<^verbatim>\<open>date.max.toordinal()\<close>: 9999-12-31.\<close>

definition max_ordinal :: int where
  "max_ordinal = 3652059"

text \<open>\<^verbatim>\<open>date + timedelta(days=k)\<close>: \<^verbatim>\<open>OverflowError\<close> outside the years 1 to 9999.\<close>

definition date_add :: "date \<Rightarrow> int \<Rightarrow> date result" where
  "date_add n k = (if 1 \<le> n + k \<and> n + k \<le> max_ordinal then Inr (n + k) else Inl OverflowError)"

text \<open>\<^verbatim>\<open>'%m'\<close> and \<^verbatim>\<open>'%d'\<close>: two digits, zero-padded.\<close>

definition pad2 :: "int \<Rightarrow> string" where
  "pad2 i = (if i < 10 then CHR ''0'' # py_str_int i else py_str_int i)"

text \<open>\<^verbatim>\<open>d.strftime('%Y' + sep + '%m' + sep + '%d')\<close> in Python 2, which refuses years before 1900.\<close>

definition strftime_ymd :: "string \<Rightarrow> date \<Rightarrow> string result" where
  "strftime_ymd sep n =
     (case ord2ymd n of (y, m, d) \<Rightarrow>
        if y < 1900 then Inl ValueError else Inr (py_str_int y @ sep @ pad2 m @ sep @ pad2 d))"

text \<open>\<^verbatim>\<open>dateparse\<close> on a year-first date \<^verbatim>\<open>Y-M-D\<close> of decimal fields.\<close>

definition dateparse_iso :: "string \<Rightarrow> date result" where
  "dateparse_iso s =
     (case py_split CHR ''-'' s of
        [ys, ms, ds] \<Rightarrow>
          rbind (py_int_digits ys) (\<lambda>y. rbind (py_int_digits ms) (\<lambda>m. rbind (py_int_digits ds) (\<lambda>d.
            if valid_ymd y m d then Inr (ymd2ord y m d) else Inl ValueError)))
      | _ \<Rightarrow> Inl ValueError)"

section \<open>Arithmetic of the 400-year cycle\<close>

lemma divmod_step:
  fixes q r k :: int
  assumes "0 \<le> r" "r < k"
  shows "(q * k + r) div k = q" "(q * k + r) mod k = r"
  using assms by (simp_all add: add.commute)

lemma mod_small_zero:
  fixes x k :: int
  assumes "0 < x" "x \<le> k"
  shows "x mod k = 0 \<longleftrightarrow> x = k"
proof (cases "x = k")
  case False
  with assms have "x mod k = x" by (simp add: mod_pos_pos_trivial)
  with assms False show ?thesis by simp
qed simp

lemma days_before_year_decomp:
  fixes a b c e :: int
  assumes "0 \<le> b" "b < 4" "0 \<le> c" "c < 25" "0 \<le> e" "e < 4"
  shows "days_before_year (400 * a + 100 * b + 4 * c + e + 1) = 146097 * a + 36524 * b + 1461 * c + 365 * e"
proof -
  have "(400 * a + 100 * b + 4 * c + e) div 4 = 100 * a + 25 * b + c"
    using divmod_step(1)[of e 4 "100 * a + 25 * b + c"] assms by (simp add: algebra_simps)
  moreover have "(400 * a + 100 * b + 4 * c + e) div 100 = 4 * a + b"
    using divmod_step(1)[of "4 * c + e" 100 "4 * a + b"] assms by (simp add: algebra_simps)
  moreover have "(400 * a + 100 * b + 4 * c + e) div 400 = a"
    using divmod_step(1)[of "100 * b + 4 * c + e" 400 a] assms by (simp add: algebra_simps)
  ultimately show ?thesis by (simp add: days_before_year_def algebra_simps)
qed

lemma is_leap_decomp:
  fixes a b c e :: int
  assumes "0 \<le> b" "b < 4" "0 \<le> c" "c < 25" "0 \<le> e" "e < 4"
  shows "is_leap (400 * a + 100 * b + 4 * c + e + 1) \<longleftrightarrow> e = 3 \<and> (c \<noteq> 24 \<or> b = 3)"
proof -
  have m4: "(400 * a + 100 * b + 4 * c + e + 1) mod 4 = (e + 1) mod 4"
    using mod_mult_self1[of "e + 1" "100 * a + 25 * b + c" 4] by (simp add: algebra_simps)
  have m100: "(400 * a + 100 * b + 4 * c + e + 1) mod 100 = (4 * c + e + 1) mod 100"
    using mod_mult_self1[of "4 * c + e + 1" "4 * a + b" 100] by (simp add: algebra_simps)
  have m400: "(400 * a + 100 * b + 4 * c + e + 1) mod 400 = (100 * b + 4 * c + e + 1) mod 400"
    using mod_mult_self1[of "100 * b + 4 * c + e + 1" a 400] by (simp add: algebra_simps)
  have "(e + 1) mod 4 = 0 \<longleftrightarrow> e = 3" using assms mod_small_zero[of "e + 1" 4] by simp
  moreover have "(4 * c + e + 1) mod 100 = 0 \<longleftrightarrow> 4 * c + e + 1 = 100"
    using assms by (intro mod_small_zero) simp_all
  moreover have "4 * c + e + 1 = 100 \<longleftrightarrow> c = 24 \<and> e = 3" using assms by presburger
  moreover have "(100 * b + 4 * c + e + 1) mod 400 = 0 \<longleftrightarrow> 100 * b + 4 * c + e + 1 = 400"
    using assms by (intro mod_small_zero) simp_all
  moreover have "100 * b + 4 * c + e + 1 = 400 \<longleftrightarrow> b = 3 \<and> c = 24 \<and> e = 3" using assms by presburger
  ultimately show ?thesis using m4 m100 m400 unfolding is_leap_def by auto
qed

section \<open>The month tables\<close>

text \<open>
  \<open>month_day\<close> guesses the month from the day of the year and corrects the guess
  once. The tables are small, so its correctness on every day of a common and of a
  leap year is checked by evaluation.
\<close>

lemma month_table_onto:
  "list_all (\<lambda>k. let (m, d) = month_day False (int k) in 1 \<le> m \<and> m \<le> 12 \<and> 1 \<le> d \<and>
     d \<le> month_len False m \<and> month_start False m + d - 1 = int k) [0..<365]"
  "list_all (\<lambda>k. let (m, d) = month_day True (int k) in 1 \<le> m \<and> m \<le> 12 \<and> 1 \<le> d \<and>
     d \<le> month_len True m \<and> month_start True m + d - 1 = int k) [0..<366]"
  by code_simp+

lemma month_table_into:
  "list_all (\<lambda>m. list_all (\<lambda>d. d \<le> month_len False m \<longrightarrow> month_day False (month_start False m + d - 1) = (m, d))
     [1..31]) [1..12]"
  "list_all (\<lambda>m. list_all (\<lambda>d. d \<le> month_len True m \<longrightarrow> month_day True (month_start True m + d - 1) = (m, d))
     [1..31]) [1..12]"
  by code_simp+

lemma month_day_onto:
  assumes "0 \<le> r" "r < 365 + (if leap then 1 else 0)" "month_day leap r = (m, d)"
  shows "1 \<le> m \<and> m \<le> 12 \<and> 1 \<le> d \<and> d \<le> month_len leap m \<and> month_start leap m + d - 1 = r"
proof -
  obtain k where k: "r = int k" "k < (if leap then 366 else 365)"
    using assms(1,2) by (intro that[of "nat r"]) (auto split: if_splits)
  show ?thesis
  proof (cases leap)
    case True
    with k have "k \<in> set [0..<366]" by simp
    from bspec[OF month_table_onto(2)[unfolded list_all_iff] this] show ?thesis using k assms(3) True by simp
  next
    case False
    with k have "k \<in> set [0..<365]" by simp
    from bspec[OF month_table_onto(1)[unfolded list_all_iff] this] show ?thesis using k assms(3) False by simp
  qed
qed

lemma month_day_into:
  assumes "1 \<le> m" "m \<le> 12" "1 \<le> d" "d \<le> month_len leap m"
  shows "month_day leap (month_start leap m + d - 1) = (m, d)"
proof -
  have "d \<le> 31" using assms(2,4) by (cases leap) (auto simp: month_len_def dim_table_def nth_Cons' split: if_splits)
  then show ?thesis using month_table_into assms by (cases leap) (auto simp: list_all_iff)
qed


lemma month_table_bounds:
  "list_all (\<lambda>m. 0 \<le> month_start False m \<and> month_start False m + month_len False m \<le> 365) [1..12]"
  "list_all (\<lambda>m. 0 \<le> month_start True m \<and> month_start True m + month_len True m \<le> 366) [1..12]"
  by code_simp+

lemma month_bounds:
  assumes "1 \<le> m" "m \<le> 12"
  shows "0 \<le> month_start leap m \<and> month_start leap m + month_len leap m \<le> 365 + (if leap then 1 else 0)"
proof -
  have "m \<in> set [1..12]" using assms by simp
  then show ?thesis using month_table_bounds by (cases leap) (auto simp: list_all_iff)
qed

section \<open>Ordinals and calendar dates\<close>

lemma ord2ymd_unfold:
  assumes "(n0 - 1) div 146097 = a" "(n0 - 1) mod 146097 = x1" "x1 div 36524 = b" "x1 mod 36524 = x2"
    "x2 div 1461 = c" "x2 mod 1461 = x3" "x3 div 365 = e" "x3 mod 365 = r"
  shows "ord2ymd n0 =
    (if e = 4 \<or> b = 4 then (a * 400 + 1 + b * 100 + c * 4 + e - 1, 12, 31)
     else (case month_day (e = 3 \<and> (c \<noteq> 24 \<or> b = 3)) r of (m, d) \<Rightarrow> (a * 400 + 1 + b * 100 + c * 4 + e, m, d)))"
  unfolding ord2ymd_def Let_def assms by (rule refl)

lemma ord2ymd_digits:
  fixes a b c e r :: int
  assumes "0 \<le> r" "r < 365" "0 \<le> e" "e * 365 + r < 1461" "0 \<le> c" "c * 1461 + (e * 365 + r) < 36524"
    "0 \<le> b" "b * 36524 + (c * 1461 + (e * 365 + r)) < 146097"
  shows "ord2ymd (a * 146097 + (b * 36524 + (c * 1461 + (e * 365 + r))) + 1) =
    (if e = 4 \<or> b = 4 then (a * 400 + 1 + b * 100 + c * 4 + e - 1, 12, 31)
     else (case month_day (e = 3 \<and> (c \<noteq> 24 \<or> b = 3)) r of (m, d) \<Rightarrow> (a * 400 + 1 + b * 100 + c * 4 + e, m, d)))"
proof (rule ord2ymd_unfold)
  have x3: "0 \<le> e * 365 + r" using assms by simp
  have x2: "0 \<le> c * 1461 + (e * 365 + r)" using assms by simp
  have x1: "0 \<le> b * 36524 + (c * 1461 + (e * 365 + r))" using assms by simp
  show "(a * 146097 + (b * 36524 + (c * 1461 + (e * 365 + r))) + 1 - 1) div 146097 = a"
       "(a * 146097 + (b * 36524 + (c * 1461 + (e * 365 + r))) + 1 - 1) mod 146097 = b * 36524 + (c * 1461 + (e * 365 + r))"
    using divmod_step[OF x1 assms(8), of a] by simp_all
  show "(b * 36524 + (c * 1461 + (e * 365 + r))) div 36524 = b"
       "(b * 36524 + (c * 1461 + (e * 365 + r))) mod 36524 = c * 1461 + (e * 365 + r)"
    using divmod_step[OF x2 assms(6), of b] by simp_all
  show "(c * 1461 + (e * 365 + r)) div 1461 = c" "(c * 1461 + (e * 365 + r)) mod 1461 = e * 365 + r"
    using divmod_step[OF x3 assms(4), of c] by simp_all
  show "(e * 365 + r) div 365 = e" "(e * 365 + r) mod 365 = r"
    using divmod_step[OF assms(1,2), of e] by simp_all
qed

lemma ord2ymd_cases:
  fixes n :: int
  obtains a b c e r where "0 \<le> b" "b \<le> 4" "0 \<le> c" "c \<le> 24" "0 \<le> e" "e \<le> 4" "0 \<le> r" "r < 365"
    "n - 1 = a * 146097 + (b * 36524 + (c * 1461 + (e * 365 + r)))"
    "b * 36524 + (c * 1461 + (e * 365 + r)) \<le> 146096" "c * 1461 + (e * 365 + r) \<le> 36523" "e * 365 + r \<le> 1460"
    "ord2ymd n =
      (if e = 4 \<or> b = 4 then (a * 400 + 1 + b * 100 + c * 4 + e - 1, 12, 31)
       else (case month_day (e = 3 \<and> (c \<noteq> 24 \<or> b = 3)) r of (m, d) \<Rightarrow> (a * 400 + 1 + b * 100 + c * 4 + e, m, d)))"
proof -
  define a where "a = (n - 1) div 146097"
  define x1 where "x1 = (n - 1) mod 146097"
  define b where "b = x1 div 36524"
  define x2 where "x2 = x1 mod 36524"
  define c where "c = x2 div 1461"
  define x3 where "x3 = x2 mod 1461"
  define e where "e = x3 div 365"
  define r where "r = x3 mod 365"
  have eqs: "n - 1 = a * 146097 + x1" "x1 = b * 36524 + x2" "x2 = c * 1461 + x3" "x3 = e * 365 + r"
    by (simp_all add: a_def x1_def b_def x2_def c_def x3_def e_def r_def)
  have x1b: "0 \<le> x1" "x1 \<le> 146096" by (simp_all add: x1_def)
  have x2b: "0 \<le> x2" "x2 \<le> 36523" by (simp_all add: x2_def)
  have x3b: "0 \<le> x3" "x3 \<le> 1460" by (simp_all add: x3_def)
  have "b \<le> 146096 div 36524" unfolding b_def using x1b by (intro zdiv_mono1) simp_all
  then have b4: "b \<le> 4" by simp
  have "c \<le> 36523 div 1461" unfolding c_def using x2b by (intro zdiv_mono1) simp_all
  then have c24: "c \<le> 24" by simp
  have "e \<le> 1460 div 365" unfolding e_def using x3b by (intro zdiv_mono1) simp_all
  then have e4: "e \<le> 4" by simp
  have pos: "0 \<le> b" "0 \<le> c" "0 \<le> e" using x1b x2b x3b
    by (simp_all add: b_def c_def e_def pos_imp_zdiv_nonneg_iff)
  have rb: "0 \<le> r" "r < 365" by (simp_all add: r_def)
  have o: "ord2ymd n =
      (if e = 4 \<or> b = 4 then (a * 400 + 1 + b * 100 + c * 4 + e - 1, 12, 31)
       else (case month_day (e = 3 \<and> (c \<noteq> 24 \<or> b = 3)) r of (m, d) \<Rightarrow> (a * 400 + 1 + b * 100 + c * 4 + e, m, d)))"
    by (rule ord2ymd_unfold) (simp_all add: a_def x1_def b_def x2_def c_def x3_def e_def r_def)
  show ?thesis
    by (rule that[of b c e r a]) (use pos b4 c24 e4 rb eqs x1b x2b x3b o in simp_all)
qed

lemma ord2ymd_year_le: "fst (ord2ymd n) \<le> (n - 1) div 146097 * 400 + 501"
proof -
  obtain a b c e r where d: "0 \<le> b" "b \<le> 4" "0 \<le> c" "c \<le> 24" "0 \<le> e" "e \<le> 4" "0 \<le> r" "r < 365"
      and n: "n - 1 = a * 146097 + (b * 36524 + (c * 1461 + (e * 365 + r)))"
      and x: "b * 36524 + (c * 1461 + (e * 365 + r)) \<le> 146096"
      and o: "ord2ymd n =
      (if e = 4 \<or> b = 4 then (a * 400 + 1 + b * 100 + c * 4 + e - 1, 12, 31)
       else (case month_day (e = 3 \<and> (c \<noteq> 24 \<or> b = 3)) r of (m, d) \<Rightarrow> (a * 400 + 1 + b * 100 + c * 4 + e, m, d)))"
    by (rule ord2ymd_cases)
  have "(n - 1) div 146097 = a"
    using n divmod_step(1)[of "b * 36524 + (c * 1461 + (e * 365 + r))" 146097 a] d x by simp
  moreover have "fst (ord2ymd n) \<le> a * 400 + 1 + b * 100 + c * 4 + e" using o by (auto split: prod.splits)
  ultimately show ?thesis using d by linarith
qed

lemma year_digits:
  fixes y :: int
  obtains a b c e where "0 \<le> b" "b < 4" "0 \<le> c" "c < 25" "0 \<le> e" "e < 4"
    "y = 400 * a + 100 * b + 4 * c + e + 1"
proof
  let ?x = "y - 1"
  have x400: "?x = 400 * (?x div 400) + ?x mod 400" by simp
  have x100: "?x mod 400 = 100 * (?x mod 400 div 100) + ?x mod 100"
    using mult_div_mod_eq[of 100 "?x mod 400"] mod_mod_cancel[of 100 400 ?x] by simp
  have x4: "?x mod 100 = 4 * (?x mod 100 div 4) + ?x mod 4"
    using mult_div_mod_eq[of 4 "?x mod 100"] mod_mod_cancel[of 4 100 ?x] by simp
  show "y = 400 * (?x div 400) + 100 * (?x mod 400 div 100) + 4 * (?x mod 100 div 4) + ?x mod 4 + 1"
    using x400 x100 x4 by linarith
  show "0 \<le> ?x mod 400 div 100" "0 \<le> ?x mod 100 div 4" by (simp_all add: pos_imp_zdiv_nonneg_iff)
  have "?x mod 400 div 100 \<le> 399 div 100" by (rule zdiv_mono1) simp_all
  then show "?x mod 400 div 100 < 4" by simp
  have "?x mod 100 div 4 \<le> 99 div 4" by (rule zdiv_mono1) simp_all
  then show "?x mod 100 div 4 < 25" by simp
  show "0 \<le> ?x mod 4" "?x mod 4 < 4" by simp_all
qed

lemma month_day_365: "month_day True 365 = (12, 31)"
  by code_simp

text \<open>
  \<^verbatim>\<open>_ord2ymd\<close> inverts \<^verbatim>\<open>_ymd2ord\<close> on every valid date, the last day of a
  400-year and of a 4-year cycle (the two early returns) included.
\<close>

theorem ord2ymd_ymd2ord:
  assumes v: "valid_ymd y m d"
  shows "ord2ymd (ymd2ord y m d) = (y, m, d)"
proof -
  obtain a b c e where b: "0 \<le> b" "b < 4" and c: "0 \<le> c" "c < 25" and e: "0 \<le> e" "e < 4"
      and y: "y = 400 * a + 100 * b + 4 * c + e + 1"
    by (rule year_digits)
  let ?L = "is_leap y"
  have leap: "?L \<longleftrightarrow> e = 3 \<and> (c \<noteq> 24 \<or> b = 3)" using is_leap_decomp[OF b c e] y by simp
  from v have m: "1 \<le> m" "m \<le> 12" "1 \<le> d" "d \<le> month_len ?L m"
    by (simp_all add: valid_ymd_def days_in_month_def)
  define r where "r = month_start ?L m + d - 1"
  have r: "0 \<le> r" "r \<le> 364 + (if ?L then 1 else 0)" using month_bounds[OF m(1,2), of ?L] m r_def by auto
  have md: "month_day ?L r = (m, d)" unfolding r_def by (rule month_day_into[OF m])
  have dby: "days_before_year y = 146097 * a + 36524 * b + 1461 * c + 365 * e"
    using days_before_year_decomp[OF b c e] y by simp
  have n: "ymd2ord y m d = a * 146097 + (b * 36524 + (c * 1461 + (e * 365 + r))) + 1"
    by (simp add: ymd2ord_def days_before_month_def dby r_def algebra_simps)
  show ?thesis
  proof (cases "r \<le> 364")
    case True
    have "ord2ymd (ymd2ord y m d) =
        (case month_day (e = 3 \<and> (c \<noteq> 24 \<or> b = 3)) r of (m, d) \<Rightarrow> (a * 400 + 1 + b * 100 + c * 4 + e, m, d))"
      unfolding n using ord2ymd_digits[of r e c b a] True b c e r(1) by simp
    then show ?thesis using md leap y by (simp add: algebra_simps)
  next
    case False
    then have r365: "r = 365" and L: ?L using r by (auto split: if_splits)
    with md month_day_365 have md': "m = 12" "d = 31" by simp_all
    from L leap have e3: "e = 3" and cb: "c \<noteq> 24 \<or> b = 3" by auto
    show ?thesis
    proof (cases "c = 24")
      case True
      with cb have b3: "b = 3" by simp
      have "ymd2ord y m d = a * 146097 + (4 * 36524 + (0 * 1461 + (0 * 365 + 0))) + 1"
        using n True b3 e3 r365 by simp
      then show ?thesis using ord2ymd_digits[of 0 0 0 4 a] y True b3 e3 md' by simp
    next
      case False
      have "ymd2ord y m d = a * 146097 + (b * 36524 + (c * 1461 + (4 * 365 + 0))) + 1"
        using n e3 r365 by simp
      moreover have "c * 1461 + (4 * 365 + 0) < 36524" using False c by linarith
      ultimately show ?thesis using ord2ymd_digits[of 0 4 c b a] y b c e3 md' by (simp add: algebra_simps)
    qed
  qed
qed

lemma dec31_len [simp]: "month_len leap 12 = 31" "month_start leap 12 = 334 + (if leap then 1 else 0)"
  by (simp_all add: month_len_def month_start_def dim_table_def dbm_table_def)

text \<open>Every positive ordinal is the ordinal of the valid date \<^verbatim>\<open>_ord2ymd\<close> gives for it.\<close>

lemma ymd2ord_ord2ymd:
  assumes n: "1 \<le> n" and res: "ord2ymd n = (y, m, d)"
  shows "valid_ymd y m d \<and> ymd2ord y m d = n"
proof -
  obtain a b c e r where bb: "0 \<le> b" "b \<le> 4" and cb: "0 \<le> c" "c \<le> 24" and eb: "0 \<le> e" "e \<le> 4"
      and rb: "0 \<le> r" "r < 365"
      and eq: "n - 1 = a * 146097 + (b * 36524 + (c * 1461 + (e * 365 + r)))"
      and x: "b * 36524 + (c * 1461 + (e * 365 + r)) \<le> 146096" "c * 1461 + (e * 365 + r) \<le> 36523"
        "e * 365 + r \<le> 1460"
      and o: "ord2ymd n =
      (if e = 4 \<or> b = 4 then (a * 400 + 1 + b * 100 + c * 4 + e - 1, 12, 31)
       else (case month_day (e = 3 \<and> (c \<noteq> 24 \<or> b = 3)) r of (m, d) \<Rightarrow> (a * 400 + 1 + b * 100 + c * 4 + e, m, d)))"
    by (rule ord2ymd_cases)
  have a0: "0 \<le> a"
  proof (rule ccontr)
    assume "\<not> 0 \<le> a"
    then have "a * 146097 \<le> - 146097" by simp
    with eq x n bb cb eb rb show False by linarith
  qed
  show ?thesis
  proof (cases "b = 4")
    case True
    then have z: "c = 0" "e = 0" "r = 0" using x(1) cb eb rb by linarith+
    have y: "y = 400 * a + 100 * 3 + 4 * 24 + 3 + 1" and md: "m = 12" "d = 31"
      using res o True z by (simp_all add: algebra_simps)
    have "is_leap y" using is_leap_decomp[of 3 24 3 a] y by simp
    moreover have "days_before_year y = 146097 * a + 36524 * 3 + 1461 * 24 + 365 * 3"
      using days_before_year_decomp[of 3 24 3 a] y by simp
    ultimately show ?thesis using md y a0 eq True z
      by (simp add: valid_ymd_def days_in_month_def ymd2ord_def days_before_month_def)
  next
    case b4: False
    show ?thesis
    proof (cases "e = 4")
      case True
      then have r0: "r = 0" using x(3) rb by linarith
      have c24: "c \<noteq> 24" using True r0 x(2) by auto
      have y: "y = 400 * a + 100 * b + 4 * c + 3 + 1" and md: "m = 12" "d = 31"
        using res o True by (simp_all add: algebra_simps)
      have bc: "0 \<le> b" "b < 4" "0 \<le> c" "c < 25" using bb b4 cb by simp_all
      have "is_leap y" using is_leap_decomp[of b c 3 a] bc c24 y by simp
      moreover have "days_before_year y = 146097 * a + 36524 * b + 1461 * c + 365 * 3"
        using days_before_year_decomp[of b c 3 a] bc y by simp
      ultimately show ?thesis using md y a0 eq True r0 bc
        by (simp add: valid_ymd_def days_in_month_def ymd2ord_def days_before_month_def)
    next
      case e4: False
      have bce: "0 \<le> b" "b < 4" "0 \<le> c" "c < 25" "0 \<le> e" "e < 4" using bb b4 cb eb e4 by simp_all
      let ?L = "e = 3 \<and> (c \<noteq> 24 \<or> b = 3)"
      have y: "y = 400 * a + 100 * b + 4 * c + e + 1" and md: "month_day ?L r = (m, d)"
        using res o b4 e4 by (simp_all add: algebra_simps split: prod.splits)
      have L: "is_leap y \<longleftrightarrow> ?L" using is_leap_decomp[OF bce] y by simp
      have mdv: "1 \<le> m \<and> m \<le> 12 \<and> 1 \<le> d \<and> d \<le> month_len ?L m \<and> month_start ?L m + d - 1 = r"
        using rb md by (intro month_day_onto) auto
      have "days_before_year y = 146097 * a + 36524 * b + 1461 * c + 365 * e"
        using days_before_year_decomp[OF bce] y by simp
      then show ?thesis using mdv L a0 y eq bce
        by (simp add: valid_ymd_def days_in_month_def ymd2ord_def days_before_month_def)
    qed
  qed
qed

section \<open>Printing and parsing\<close>

lemma dash_not_in_nat_str: "CHR ''-'' \<notin> set (nat_str n)"
  using nat_str_digits[of n] by (auto simp: list_all_iff py_isdigit_def)

lemma py_int_digits_nat_str: "py_int_digits (nat_str n) = Inr (int n)"
  using nat_str_digits digits_val_nat_str by (simp add: py_int_digits_def)

lemma pad2_digits:
  assumes "0 \<le> i"
  shows "CHR ''-'' \<notin> set (pad2 i) \<and> py_int_digits (pad2 i) = Inr i"
proof -
  have "py_int_digits (CHR ''0'' # nat_str (nat i)) = Inr i"
    using nat_str_digits[of "nat i"] digits_val_nat_str[of "nat i"] assms
    by (simp add: py_int_digits_def py_isdigit_def digit_val_def)
  then show ?thesis using assms dash_not_in_nat_str[of "nat i"] py_int_digits_nat_str[of "nat i"]
    by (simp add: pad2_def py_str_int_nat)
qed

text \<open>Parsing what \<^verbatim>\<open>strftime('%Y-%m-%d')\<close> printed gives the date back, from 1900 on.\<close>

lemma dateparse_strftime:
  assumes n: "1 \<le> n" and y: "1900 \<le> fst (ord2ymd n)"
  shows "rbind (strftime_ymd ''-'' n) dateparse_iso = Inr n"
proof -
  obtain y m d where ymd: "ord2ymd n = (y, m, d)" by (cases "ord2ymd n") auto
  with y have y: "1900 \<le> y" by simp
  have v: "valid_ymd y m d" and o: "ymd2ord y m d = n" using ymd2ord_ord2ymd[OF n ymd] by simp_all
  then have pos: "0 \<le> m" "0 \<le> d" by (simp_all add: valid_ymd_def)
  have ys: "py_str_int y = nat_str (nat y)" using y by (simp add: py_str_int_nat)
  have split: "py_split CHR ''-'' (py_str_int y @ ''-'' @ pad2 m @ ''-'' @ pad2 d) = [py_str_int y, pad2 m, pad2 d]"
    using pad2_digits[OF pos(1)] pad2_digits[OF pos(2)] dash_not_in_nat_str[of "nat y"] ys
    by (simp add: py_split_sep py_split_no_sep)
  have "py_int_digits (py_str_int y) = Inr y" using ys y py_int_digits_nat_str[of "nat y"] by simp
  then show ?thesis
    using split ymd y v o pad2_digits[OF pos(1)] pad2_digits[OF pos(2)]
    by (simp add: strftime_ymd_def dateparse_iso_def)
qed

lemma strftime_ymd_before_1900: "fst (ord2ymd n) < 1900 \<Longrightarrow> strftime_ymd sep n = Inl ValueError"
  by (cases "ord2ymd n") (simp add: strftime_ymd_def)

lemma strftime_ymd_pos: "strftime_ymd sep n = Inr s \<Longrightarrow> 1 \<le> n"
proof (rule ccontr)
  assume ok: "strftime_ymd sep n = Inr s" and "\<not> 1 \<le> n"
  then have "(n - 1) div 146097 \<le> (-1) div 146097" by (intro zdiv_mono1) simp_all
  then have "fst (ord2ymd n) < 1900" using ord2ymd_year_le[of n] by simp
  with ok show False by (simp add: strftime_ymd_before_1900)
qed

lemma strftime_ymd_inj:
  assumes "strftime_ymd ''-'' n1 = Inr s" "strftime_ymd ''-'' n2 = Inr s"
  shows "n1 = n2"
proof -
  have "1900 \<le> fst (ord2ymd n1)" "1900 \<le> fst (ord2ymd n2)"
    using assms strftime_ymd_before_1900 by (metis Inl_Inr_False not_le)+
  then have "rbind (strftime_ymd ''-'' n1) dateparse_iso = Inr n1" "rbind (strftime_ymd ''-'' n2) dateparse_iso = Inr n2"
    using assms strftime_ymd_pos by (blast intro: dateparse_strftime)+
  with assms show ?thesis by simp
qed

end
