(* ===== verification/Driver.thy ===== *)
theory Driver
  imports Liveness Dates
begin

text \<open>
  The driver \<^verbatim>\<open>main\<close> (lines 423--448): the default end date, the seeding of the
  registry from the comma-separated seed list, the crawl loop, and the calendar
  minimization, composed in the source's order; the state they leave for the writers
  satisfies \<open>feed_ok\<close>. Argument parsing (docopt) and the current-date default
  (\<^verbatim>\<open>time.strftime\<close>) are outside the model: the start date is a parameter.
\<close>

section \<open>Definitions\<close>

text \<open>\<^verbatim>\<open>--end-date\<close> defaults to the start date plus three days (lines 426--428).\<close>

definition default_end :: "date \<Rightarrow> date option \<Rightarrow> date" where
  "default_end s e = (case e of Some d \<Rightarrow> d | None \<Rightarrow> s + 3)"

text \<open>
  Lines 424--433: the end date. \<^verbatim>\<open>--start-date\<close> is parsed into the date \<open>s\<close>
  (today's date when absent: \<^verbatim>\<open>time.strftime\<close>, a parameter here); a given
  \<^verbatim>\<open>--end-date\<close> is the parsed date \<open>e\<close>; an absent one is computed as
  \<^verbatim>\<open>(dateparse(start) + timedelta(days=3)).strftime("%Y-%m-%d")\<close> and parsed again.
\<close>

definition main_end_date :: "date \<Rightarrow> date option \<Rightarrow> date result" where
  "main_end_date s e =
     (case e of
        Some d \<Rightarrow> Inr d
      | None \<Rightarrow> rbind (date_add s 3) (\<lambda>d. rbind (strftime_ymd ''-'' d) dateparse_iso))"

text \<open>\<^verbatim>\<open>converter.process_station_by_id(int(seed))\<close> (line 441).\<close>

definition seed_step :: "env \<Rightarrow> string \<Rightarrow> converter \<Rightarrow> converter result" where
  "seed_step E seed c = rbind (py_int seed) (\<lambda>i. process_station_by_id E i c)"

text \<open>
  Lines 424--448: the end date (\<open>main_end_date\<close>, whose errors end the run before the
  converter exists), seeding, crawling, calendars. \<open>None\<close> is a crawl that never ends;
  \<open>Some (Inl e)\<close> an exception that ended the run.
\<close>

definition main_run :: "env \<Rightarrow> date \<Rightarrow> date option \<Rightarrow> string \<Rightarrow> converter result option" where
  "main_run E s e seeds =
     (case main_end_date s e of
        Inl err \<Rightarrow> Some (Inl err)
      | Inr ed \<Rightarrow>
          (case rfold (seed_step E) (py_split CHR '','' seeds) (init_converter s ed) of
             Inl err \<Rightarrow> Some (Inl err)
           | Inr c1 \<Rightarrow> map_option (\<lambda>r. rbind r (\<lambda>c2. Inr (generate_calendar_dates c2))) (crawl_loop E c1)))"

text \<open>Every station search the API answers with one station names a station of \<open>K\<close>.\<close>

definition location_ids_in :: "sid set \<Rightarrow> env \<Rightarrow> bool" where
  "location_ids_in K E \<longleftrightarrow>
     (\<forall>q loc. location_name E q = Inr (Some (Single loc)) \<longrightarrow> (\<forall>i. py_int (loc_id loc) = Inr i \<longrightarrow> i \<in> K))"

text \<open>
  What the writers rely on: the crawl invariant without its "no calendar yet" part, the
  calendars pairwise different, and every trip's service id indexing its own day set.
\<close>

definition feed_ok :: "converter \<Rightarrow> bool" where
  "feed_ok c \<longleftrightarrow>
     stops_wf (stops c) \<and> routes_wf c \<and> distinct (map trip_shape (trips c)) \<and>
     list_all (trip_ok c) (trips c) \<and> distinct (calendar_dates c) \<and>
     list_all (\<lambda>t. case tr_service_id t of
                     None \<Rightarrow> False
                   | Some k \<Rightarrow> k < length (calendar_dates c) \<and> calendar_dates c ! k = tr_service_dates t)
       (trips c)"

section \<open>Lemmas\<close>

lemma init_converter_inv: "conv_inv (init_converter s e)"
  by (simp add: init_converter_def conv_inv_def stops_wf_def routes_wf_def)

lemma seeds_inv:
  "rfold (seed_step E) seeds c = Inr c' \<Longrightarrow> conv_inv c \<Longrightarrow> conv_inv c'"
  by (rule rfold_invariant[where P = conv_inv])
     (auto simp: seed_step_def rbind_eq_Inr intro: process_station_by_id_inv)

lemma trip_ok_service_id [simp]: "trip_ok c (t\<lparr>tr_service_id := k\<rparr>) = trip_ok c t"
  by (simp add: trip_ok_def)

lemma generate_calendar_dates_feed_ok:
  assumes inv: "conv_inv c"
  shows "feed_ok (generate_calendar_dates c)"
proof -
  let ?R = "dedup_first (map tr_service_dates (trips c))"
  let ?sid = "\<lambda>t. first_index ?R (tr_service_dates t)"
  have none: "\<forall>t \<in> set (trips c). tr_service_id t = None" and cal: "calendar_dates c = []"
    using inv by (simp_all add: conv_inv_def list_all_iff)
  have gen: "generate_calendar_dates c =
               c\<lparr>trips := map (\<lambda>t. t\<lparr>tr_service_id := Some (?sid t)\<rparr>) (trips c), calendar_dates := ?R\<rparr>"
    using calendar_loop_reference[of "[]" "trips c"] none cal
    by (simp add: generate_calendar_dates_def Let_def)
  have ok: "trip_ok (generate_calendar_dates c) = trip_ok c"
    using gen by (intro trip_ok_frame) simp_all
  have idx: "?sid t < length ?R \<and> ?R ! ?sid t = tr_service_dates t" if "t \<in> set (trips c)" for t
    using that by (intro first_index_nth) simp
  show ?thesis
    using inv idx unfolding feed_ok_def ok
    by (simp add: gen conv_inv_def routes_wf_def list_all_iff comp_def)
qed

lemma process_station_by_id_grows:
  assumes L: "location_ids_in K E" and run: "process_station_by_id E i c = Inr c'"
  shows "grows_within K c c'"
proof (cases "map_of (stops c) i = None")
  case False
  with run show ?thesis by (simp add: process_station_by_id_def)
next
  case True
  let ?q = "py_str_int i"
  from run True obtain det where det: "location_name E ?q = Inr det"
      and ob: "process_station_by_ob E det (log_request (ReqStation ?q) c) = Inr c'"
    by (auto simp: process_station_by_id_def get_station_detail_def rbind_eq_Inr Let_def)
  have le: "conv_le (log_request (ReqStation ?q) c) c'" using ob by (rule conv_le_process_station_by_ob)
  have "dom (map_of (stops c')) \<subseteq> dom (map_of (stops c)) \<union> K"
    using process_station_by_ob_cases[OF ob] L det unfolding location_ids_in_def
    by (auto simp: log_request_def update_conv' split: if_splits)
  with le process_station_by_ob_fresh[OF ob] have "grows_within K (log_request (ReqStation ?q) c) c'"
    by (simp add: grows_within_def log_request_def)
  then show ?thesis by (rule grows_within_trans[OF grows_within_log])
qed

lemma seeds_grow:
  "location_ids_in K E \<Longrightarrow> rfold (seed_step E) seeds c = Inr c' \<Longrightarrow> grows_within K c c'"
  by (rule rfold_rel[where R = "grows_within K"])
     (auto simp: seed_step_def rbind_eq_Inr intro: process_station_by_id_grows grows_within_trans)

text \<open>A computed end date is the start date plus three days, the given one itself.\<close>

lemma main_end_date_default:
  assumes ok: "main_end_date s e = Inr ed"
  shows "ed = default_end s e"
proof (cases e)
  case None
  with ok obtain d where add: "date_add s 3 = Inr d" and sd: "rbind (strftime_ymd ''-'' d) dateparse_iso = Inr ed"
    by (auto simp: main_end_date_def rbind_eq_Inr)
  then have d: "d = s + 3" "1 \<le> d" by (simp_all add: date_add_def split: if_splits)
  have "1900 \<le> fst (ord2ymd d)"
  proof (rule ccontr)
    assume "\<not> 1900 \<le> fst (ord2ymd d)"
    then have "strftime_ymd ''-'' d = Inl ValueError" by (simp add: strftime_ymd_before_1900)
    with sd show False by simp
  qed
  with d sd dateparse_strftime[of d] None show ?thesis by (simp add: default_end_def)
qed (use ok in \<open>simp add: main_end_date_def default_end_def\<close>)

text \<open>A normal return of \<open>main_run\<close> unfolds into seeding, crawl and calendars.\<close>

lemma main_run_Inr:
  assumes run: "main_run E s e seeds = Some (Inr c)"
  obtains c1 c2 where "rfold (seed_step E) (py_split CHR '','' seeds) (init_converter s (default_end s e)) = Inr c1"
    and "crawl_loop E c1 = Some (Inr c2)" and "c = generate_calendar_dates c2"
proof -
  from run obtain ed where ed: "main_end_date s e = Inr ed"
    and r: "(case rfold (seed_step E) (py_split CHR '','' seeds) (init_converter s ed) of
               Inl err \<Rightarrow> Some (Inl err)
             | Inr c1 \<Rightarrow> map_option (\<lambda>r. rbind r (\<lambda>c2. Inr (generate_calendar_dates c2))) (crawl_loop E c1))
            = Some (Inr c)"
    by (auto simp: main_run_def split: sum.splits)
  from r main_end_date_default[OF ed] show ?thesis
    by (auto simp: rbind_eq_Inr split: sum.splits intro: that)
qed

text \<open>
  C1: The run of \<^verbatim>\<open>main\<close> up to the writers, when it returns normally, leaves a state
  fit for output: a well-formed registry, duplicate-free routes and agencies, trips of
  pairwise different shapes, each with two or more stops at served stations, a route of
  its own name and operator, its headsign the last stop's name, and a service id indexing
  its own operating days among pairwise different calendars.
\<close>

theorem main_run_feed_ok:
  "main_run E s e seeds = Some (Inr c) \<Longrightarrow> feed_ok c"
proof -
  assume run: "main_run E s e seeds = Some (Inr c)"
  then obtain c1 c2 where seed: "rfold (seed_step E) (py_split CHR '','' seeds) (init_converter s (default_end s e)) = Inr c1"
      and crawl: "crawl_loop E c1 = Some (Inr c2)" and c: "c = generate_calendar_dates c2"
    by (rule main_run_Inr)
  have "conv_inv c1" using seed init_converter_inv by (rule seeds_inv)
  then have "conv_inv c2" using crawl_loop_inv[OF crawl] by blast
  then show ?thesis unfolding c by (rule generate_calendar_dates_feed_ok)
qed

text \<open>
  C10: \<^verbatim>\<open>main\<close> returns, normally or with an exception, whenever the stations the API can
  name lie in a finite set: every journey detail stops, and every single-station search
  answer is, at stations of \<open>K\<close>.
\<close>

theorem main_run_terminates:
  "finite K \<Longrightarrow> journey_ids_in K E \<Longrightarrow> location_ids_in K E \<Longrightarrow> \<exists>r. main_run E s e seeds = Some r"
proof -
  assume fin: "finite K" and J: "journey_ids_in K E" and L: "location_ids_in K E"
  show ?thesis
  proof (cases "main_end_date s e")
    case (Inl err)
    then show ?thesis by (simp add: main_run_def)
  next
    case (Inr ed)
    show ?thesis
    proof (cases "rfold (seed_step E) (py_split CHR '','' seeds) (init_converter s ed)")
      case (Inl err)
      with \<open>main_end_date s e = Inr ed\<close> show ?thesis by (simp add: main_run_def)
    next
      case (Inr c1)
      have "conv_inv c1" using Inr init_converter_inv by (rule seeds_inv)
      moreover have "dom (map_of (stops c1)) \<subseteq> K"
        using seeds_grow[OF L Inr] by (simp add: grows_within_def init_converter_def)
      ultimately obtain r where "crawl_loop E c1 = Some r" using crawl_loop_returns[OF fin J] by blast
      with Inr \<open>main_end_date s e = Inr ed\<close> show ?thesis by (simp add: main_run_def)
    qed
  qed
qed

lemma seeds_board_queries:
  "rfold (seed_step E) seeds c = Inr c' \<Longrightarrow> board_queries (requests c') = board_queries (requests c)"
  by (rule rfold_rel[where R = "\<lambda>a b. board_queries (requests b) = board_queries (requests a)"])
     (auto simp: seed_step_def process_station_by_id_def get_station_detail_def rbind_eq_Inr Let_def
                 log_request_def split: if_splits dest!: requests_process_station_by_ob)

lemma generate_calendar_dates_requests [simp]: "requests (generate_calendar_dates c) = requests c"
  by (simp add: generate_calendar_dates_def split: prod.splits)

text \<open>
  C11: A run of \<^verbatim>\<open>main\<close> over an API naming stations of a finite set \<open>K\<close> makes at most one
  departure-board query per station of \<open>K\<close> and day of the window.
\<close>

theorem main_run_queries_bounded:
  "main_run E s e seeds = Some (Inr c) \<Longrightarrow> finite K \<Longrightarrow> journey_ids_in K E \<Longrightarrow>
   location_ids_in K E \<Longrightarrow> board_queries (requests c) \<le> card K * nat (default_end s e - s)"
proof -
  assume run: "main_run E s e seeds = Some (Inr c)" and fin: "finite K" and J: "journey_ids_in K E"
    and L: "location_ids_in K E"
  let ?c0 = "init_converter s (default_end s e)"
  from run obtain c1 c2 where seed: "rfold (seed_step E) (py_split CHR '','' seeds) ?c0 = Inr c1"
      and crawl: "crawl_loop E c1 = Some (Inr c2)" and c: "c = generate_calendar_dates c2"
    by (rule main_run_Inr)
  have g: "grows_within K ?c0 c1" using L seed by (rule seeds_grow)
  have inv: "conv_inv c1" using seed init_converter_inv by (rule seeds_inv)
  have dom: "dom (map_of (stops c1)) \<subseteq> K" using g by (simp add: grows_within_def init_converter_def)
  have dated: "dated_from_start c1"
    using g by (rule dated_from_start_grows[rotated]) (simp add: dated_from_start_def init_converter_def)
  have dates: "start_date c1 = s" "end_date c1 = default_end s e"
    using g by (simp_all add: grows_within_def conv_le_def init_converter_def)
  have q0: "board_queries (requests c1) = 0"
    using seeds_board_queries[OF seed] by (simp add: init_converter_def board_queries_def)
  have "card {k \<in> K. \<not> fetched c1 k} \<le> card K" using fin by (intro card_mono) auto
  then have "card {k \<in> K. \<not> fetched c1 k} * nat (default_end s e - s) \<le> card K * nat (default_end s e - s)"
    by (rule mult_le_mono1)
  moreover have "board_queries (requests c2) \<le> card {k \<in> K. \<not> fetched c1 k} * nat (default_end s e - s)"
    using crawl_loop_queries[OF crawl refl fin J inv dom dated] q0 dates by simp
  ultimately show ?thesis using c by (metis generate_calendar_dates_requests le_trans)
qed

lemma generate_calendar_dates_stops [simp]: "stops (generate_calendar_dates c) = stops c"
  by (simp add: generate_calendar_dates_def split: prod.splits)

text \<open>
  C12: When \<^verbatim>\<open>main\<close> returns normally and no station has id 0, every station it registered
  has been crawled: the frontier is exhausted.
\<close>

theorem main_run_crawls_all:
  "main_run E s e seeds = Some (Inr c) \<Longrightarrow> map_of (stops c) 0 = None \<Longrightarrow>
   list_all (\<lambda>(k, st). trips_fetched st) (stops c)"
proof -
  assume run: "main_run E s e seeds = Some (Inr c)" and no0: "map_of (stops c) 0 = None"
  from run obtain c1 c2 where seed: "rfold (seed_step E) (py_split CHR '','' seeds) (init_converter s (default_end s e)) = Inr c1"
      and crawl: "crawl_loop E c1 = Some (Inr c2)" and c: "c = generate_calendar_dates c2"
    by (rule main_run_Inr)
  have "conv_inv c1" using seed init_converter_inv by (rule seeds_inv)
  then have wf: "stops_wf (stops c2)" using crawl_loop_inv[OF crawl] by (simp add: conv_inv_def)
  have "get_unfetched_station_id c2 \<in> {None, Some 0}" using crawl_loop_exit[OF crawl] by blast
  moreover have "get_unfetched_station_id c2 \<noteq> Some 0"
    using first_unfetched_Some[OF wf] no0 c by (auto simp: get_unfetched_station_id_def)
  ultimately have "first_unfetched (stops c2) = None" by (simp add: get_unfetched_station_id_def)
  then show ?thesis using c by (simp add: first_unfetched_None list_all_iff)
qed

text \<open>
  C8: The end date \<^verbatim>\<open>main\<close> computes when \<^verbatim>\<open>--end-date\<close> is absent: three days
  after the start, through \<^verbatim>\<open>strftime\<close> and \<^verbatim>\<open>dateparse\<close> and back, so that
  \<open>default_end\<close> of \<open>main_run\<close> is exact; \<^verbatim>\<open>OverflowError\<close> past 9999-12-31 and
  \<^verbatim>\<open>ValueError\<close> before 1900 (Python 2's \<^verbatim>\<open>strftime\<close>).
\<close>

theorem main_end_date_spec:
  "main_end_date s None =
     (if 1 \<le> s + 3 \<and> s + 3 \<le> max_ordinal
      then (if fst (ord2ymd (s + 3)) < 1900 then Inl ValueError else Inr (default_end s None))
      else Inl OverflowError)"
proof (cases "1 \<le> s + 3 \<and> s + 3 \<le> max_ordinal")
  case True
  then have add: "date_add s 3 = Inr (s + 3)" by (simp add: date_add_def)
  show ?thesis
  proof (cases "fst (ord2ymd (s + 3)) < 1900")
    case early: True
    with add True show ?thesis by (simp add: main_end_date_def strftime_ymd_before_1900)
  next
    case False
    then have "rbind (strftime_ymd ''-'' (s + 3)) dateparse_iso = Inr (s + 3)"
      using True by (intro dateparse_strftime) simp_all
    with add True False show ?thesis by (simp add: main_end_date_def default_end_def)
  qed
next
  case False
  then have "date_add s 3 = Inl OverflowError" by (simp add: date_add_def)
  with False show ?thesis by (simp add: main_end_date_def)
qed

end
