(* ===== verification/Output.thy ===== *)
theory Output
  imports Driver
begin

text \<open>
  The GTFS writers (lines 295--413): \<^verbatim>\<open>write_trips\<close>, \<^verbatim>\<open>write_stops\<close>,
  \<^verbatim>\<open>write_calendar_dates\<close>, \<^verbatim>\<open>write_routes\<close>, \<^verbatim>\<open>write_agencies\<close> and
  \<^verbatim>\<open>write_feed_info\<close>, each as the list of dicts it passes to \<^verbatim>\<open>writerow\<close>, one
  record per row with the file's header as fields. The CSV encoding, the file handles
  and the \<^verbatim>\<open>strftime\<close> rendering of dates are not modelled: a date field holds the
  date. A Python set has no order; the rows of one calendar are listed by ascending
  date, and the lemmas only use the set of rows.
\<close>

section \<open>Definitions\<close>

record trip_row =
  trw_route_id :: nat
  trw_service_id :: nat
  trw_trip_id :: nat
  trw_trip_headsign :: string

record stop_time_row =
  sr_trip_id :: nat
  sr_arrival_time :: string
  sr_departure_time :: string
  sr_stop_id :: sid
  sr_stop_sequence :: int

record stop_row =
  sw_stop_id :: sid
  sw_stop_name :: string
  sw_stop_lat :: coord
  sw_stop_lon :: coord

record calendar_row =
  cr_service_id :: nat
  cr_date :: date
  cr_exception_type :: int

record route_row =
  rr_route_id :: nat
  rr_route_short_name :: "string option"
  rr_route_long_name :: "string option"
  rr_route_type :: int
  rr_agency_id :: "string option"

record agency_row =
  ar_agency_id :: "string option"
  ar_agency_name :: "string option"
  ar_agency_url :: string
  ar_agency_timezone :: string
  ar_agency_lang :: string

record feed_info_row =
  fr_feed_publisher_name :: string
  fr_feed_publisher_url :: string
  fr_feed_lang :: string
  fr_feed_start_date :: date
  fr_feed_end_date :: date

text \<open>One row of \<^verbatim>\<open>stop_times.txt\<close> (lines 318--324): seconds appended to both times.\<close>

definition stop_time_row :: "nat \<Rightarrow> stoptime \<Rightarrow> stop_time_row" where
  "stop_time_row tid st =
     \<lparr>sr_trip_id = tid, sr_arrival_time = arrival_time st @ '':00'',
      sr_departure_time = departure_time st @ '':00'', sr_stop_id = st_stop_id st,
      sr_stop_sequence = st_stop_sequence st\<rparr>"

text \<open>The trip row the writer produces for trip number \<open>tid\<close> with service id \<open>k\<close>.\<close>

definition trip_row_of :: "nat \<Rightarrow> nat \<Rightarrow> trip \<Rightarrow> trip_row" where
  "trip_row_of tid k t = \<lparr>trw_route_id = tid, trw_service_id = k, trw_trip_id = tid, trw_trip_headsign = tr_headsign t\<rparr>"

text \<open>
  \<^verbatim>\<open>write_trips\<close> (lines 295--325) from trip number \<open>tid\<close> on: the trip row, then its
  stop-time rows. \<^verbatim>\<open>trip['service_id']\<close> raises \<^verbatim>\<open>KeyError\<close> on a trip without one.
  The \<^verbatim>\<open>route_id\<close> written is the trip's own number \<open>tid\<close>.
\<close>

fun write_trips_from :: "nat \<Rightarrow> trip list \<Rightarrow> (trip_row list \<times> stop_time_row list) result" where
  "write_trips_from tid [] = Inr ([], [])"
| "write_trips_from tid (t # ts) =
     (case tr_service_id t of
        None \<Rightarrow> Inl KeyError
      | Some k \<Rightarrow>
          rbind (write_trips_from (Suc tid) ts) (\<lambda>(trs, srs).
            Inr (trip_row_of tid k t # trs,
                 map (stop_time_row tid) (tr_stoptimes t) @ srs)))"

definition write_trips :: "converter \<Rightarrow> (trip_row list \<times> stop_time_row list) result" where
  "write_trips c = write_trips_from 0 (trips c)"

text \<open>\<^verbatim>\<open>write_stops\<close> (lines 345--362): only stations that some trip serves.\<close>

definition write_stops :: "converter \<Rightarrow> stop_row list" where
  "write_stops c =
     map (\<lambda>s. \<lparr>sw_stop_id = stop_id s, sw_stop_name = stop_name s, sw_stop_lat = stop_lat s,
               sw_stop_lon = stop_lon s\<rparr>)
       (filter has_trip (map snd (stops c)))"

text \<open>\<^verbatim>\<open>write_calendar_dates\<close> (lines 364--378): one row per calendar and date.\<close>

definition write_calendar_dates :: "converter \<Rightarrow> calendar_row list" where
  "write_calendar_dates c =
     concat (map (\<lambda>(sid, ds). map (\<lambda>d. \<lparr>cr_service_id = sid, cr_date = d, cr_exception_type = 1\<rparr>)
                                  (sorted_list_of_set ds))
               (enumerate 0 (calendar_dates c)))"

text \<open>\<^verbatim>\<open>write_routes\<close> (lines 327--343): the route id is the route's position.\<close>

definition write_routes :: "converter \<Rightarrow> route_row list" where
  "write_routes c =
     map (\<lambda>(rid, r). \<lparr>rr_route_id = rid, rr_route_short_name = route_short_name r,
                      rr_route_long_name = route_long_name r, rr_route_type = route_type r,
                      rr_agency_id = route_agency_id r\<rparr>)
       (enumerate 0 (routes c))"

text \<open>\<^verbatim>\<open>write_agencies\<close> (lines 380--396).\<close>

definition write_agencies :: "converter \<Rightarrow> agency_row list" where
  "write_agencies c =
     map (\<lambda>a. \<lparr>ar_agency_id = a, ar_agency_name = a, ar_agency_url = ''http://www.bahn.de'',
               ar_agency_timezone = ''Europe/Berlin'', ar_agency_lang = ''de''\<rparr>)
       (agencies c)"

text \<open>\<^verbatim>\<open>write_feed_info\<close> (lines 398--413).\<close>

definition write_feed_info :: "converter \<Rightarrow> feed_info_row" where
  "write_feed_info c =
     \<lparr>fr_feed_publisher_name = ''DB-to-GTFS converter, based on DB-API data'',
      fr_feed_publisher_url = ''http://www.patrickbrosi.de/de/dbgtfs'', fr_feed_lang = ''de'',
      fr_feed_start_date = start_date c, fr_feed_end_date = end_date c\<rparr>"

text \<open>The feed: the six files \<^verbatim>\<open>main\<close> writes (lines 450--455).\<close>

record gtfs_feed =
  trips_txt :: "trip_row list"
  stop_times_txt :: "stop_time_row list"
  stops_txt :: "stop_row list"
  calendar_dates_txt :: "calendar_row list"
  routes_txt :: "route_row list"
  agency_txt :: "agency_row list"
  feed_info_txt :: feed_info_row

definition write_feed :: "converter \<Rightarrow> gtfs_feed result" where
  "write_feed c =
     rbind (write_trips c) (\<lambda>(trs, srs).
       Inr \<lparr>trips_txt = trs, stop_times_txt = srs, stops_txt = write_stops c,
            calendar_dates_txt = write_calendar_dates c, routes_txt = write_routes c,
            agency_txt = write_agencies c, feed_info_txt = write_feed_info c\<rparr>)"

text \<open>The whole program: \<^verbatim>\<open>main\<close> up to and including the writers.\<close>

definition main_feed :: "env \<Rightarrow> date \<Rightarrow> date option \<Rightarrow> string \<Rightarrow> gtfs_feed result option" where
  "main_feed E s e seeds = map_option (\<lambda>r. rbind r write_feed) (main_run E s e seeds)"

section \<open>Lemmas\<close>

lemma write_trips_from_Inr:
  "list_all (\<lambda>t. tr_service_id t \<noteq> None) ts \<Longrightarrow>
   write_trips_from tid ts =
     Inr (map (\<lambda>(i, t). trip_row_of i (the (tr_service_id t)) t) (enumerate tid ts),
          concat (map (\<lambda>(i, t). map (stop_time_row i) (tr_stoptimes t)) (enumerate tid ts)))"
  by (induction ts arbitrary: tid) (auto simp: enumerate_simps)

lemma write_trips_from_KeyError:
  "\<not> list_all (\<lambda>t. tr_service_id t \<noteq> None) ts \<Longrightarrow> write_trips_from tid ts = Inl KeyError"
  by (induction ts arbitrary: tid) (auto split: option.splits)

lemma set_sorted_list_of_set_if: "set (sorted_list_of_set A) = (if finite A then A else {})"
  by (cases "finite A") simp_all

lemma set_write_calendar_dates:
  "set (write_calendar_dates c) =
     {\<lparr>cr_service_id = k, cr_date = d, cr_exception_type = 1\<rparr> | k d.
        k < length (calendar_dates c) \<and> finite (calendar_dates c ! k) \<and> d \<in> calendar_dates c ! k}"
proof -
  have "set (write_calendar_dates c) =
          (\<Union>k \<in> {..<length (calendar_dates c)}.
             (\<lambda>d. \<lparr>cr_service_id = k, cr_date = d, cr_exception_type = 1\<rparr>) `
               set (sorted_list_of_set (calendar_dates c ! k)))"
    by (auto simp: write_calendar_dates_def in_set_enumerate_eq) (force simp: in_set_enumerate_eq)
  then show ?thesis by (auto simp: set_sorted_list_of_set_if split: if_splits)
qed

lemma served_stop_row:
  "stops_wf (stops c) \<Longrightarrow> served c i \<Longrightarrow> i \<in> sw_stop_id ` set (write_stops c)"
proof -
  assume wf: "stops_wf (stops c)" and sv: "served c i"
  then obtain s where s: "map_of (stops c) i = Some s" and h: "has_trip s"
    by (auto simp: served_def split: option.splits)
  have "s \<in> set (filter has_trip (map snd (stops c)))"
    using map_of_SomeD[OF s] h by force
  moreover have "stop_id s = i" using wf s by (rule stops_wf_lookup)
  ultimately show ?thesis by (force simp: write_stops_def)
qed

lemma write_stops_distinct:
  "stops_wf (stops c) \<Longrightarrow> distinct (map sw_stop_id (write_stops c))"
proof -
  assume wf: "stops_wf (stops c)"
  then have "map stop_id (map snd (stops c)) = map fst (stops c)"
    unfolding map_map by (intro map_cong) (auto simp: stops_wf_def list_all_iff)
  with wf have "distinct (map stop_id (map snd (stops c)))" by (metis stops_wf_def)
  then have "distinct (map stop_id (filter has_trip (map snd (stops c))))" by (rule distinct_map_filter)
  then show ?thesis by (simp add: write_stops_def comp_def)
qed

lemma feed_ok_write_feed:
  assumes "feed_ok c"
  shows "write_feed c =
           Inr \<lparr>trips_txt = map (\<lambda>(i, t). trip_row_of i (the (tr_service_id t)) t) (enumerate 0 (trips c)),
                stop_times_txt = concat (map (\<lambda>(i, t). map (stop_time_row i) (tr_stoptimes t)) (enumerate 0 (trips c))),
                stops_txt = write_stops c, calendar_dates_txt = write_calendar_dates c,
                routes_txt = write_routes c, agency_txt = write_agencies c, feed_info_txt = write_feed_info c\<rparr>"
proof -
  have "list_all (\<lambda>t. tr_service_id t \<noteq> None) (trips c)"
    using assms by (auto simp: feed_ok_def list_all_iff split: option.splits)
  then show ?thesis by (simp add: write_feed_def write_trips_def write_trips_from_Inr)
qed

lemma calendar_dates_of_service:
  assumes "k < length (calendar_dates c)" "finite (calendar_dates c ! k)"
  shows "{cr_date x | x. x \<in> set (write_calendar_dates c) \<and> cr_service_id x = k} = calendar_dates c ! k"
proof (intro equalityI subsetI)
  fix d
  assume "d \<in> calendar_dates c ! k"
  then have "\<lparr>cr_service_id = k, cr_date = d, cr_exception_type = 1\<rparr> \<in> set (write_calendar_dates c)"
    using assms by (simp add: set_write_calendar_dates)
  then show "d \<in> {cr_date x | x. x \<in> set (write_calendar_dates c) \<and> cr_service_id x = k}" by force
qed (auto simp: set_write_calendar_dates)

lemma feed_ok_trip:
  assumes "feed_ok c" "i < length (trips c)"
  obtains k where "tr_service_id (trips c ! i) = Some k" "k < length (calendar_dates c)"
    "calendar_dates c ! k = tr_service_dates (trips c ! i)" "trip_ok c (trips c ! i)"
  using assms by (force simp: feed_ok_def list_all_iff split: option.splits)

text \<open>
  C2: The feed the writers produce from a state fit for output is written without error and
  is referentially sound where the writers index by position: every stop time names a
  station listed in \<^verbatim>\<open>stops.txt\<close> and a trip listed in \<^verbatim>\<open>trips.txt\<close>; the dates
  \<^verbatim>\<open>calendar_dates.txt\<close> lists for a trip's service id are exactly that trip's
  operating days; every route's agency is in \<^verbatim>\<open>agency.txt\<close>; stop ids and trip ids
  are unique.
\<close>

theorem write_feed_sound:
  assumes ok: "feed_ok c"
  shows "\<exists>f. write_feed c = Inr f \<and>
           (\<forall>r \<in> set (stop_times_txt f). sr_stop_id r \<in> sw_stop_id ` set (stops_txt f) \<and>
                                         sr_trip_id r \<in> trw_trip_id ` set (trips_txt f)) \<and>
           (\<forall>r \<in> set (trips_txt f). trw_trip_id r < length (trips c) \<and>
              {cr_date x | x. x \<in> set (calendar_dates_txt f) \<and> cr_service_id x = trw_service_id r} =
                tr_service_dates (trips c ! trw_trip_id r)) \<and>
           (\<forall>r \<in> set (routes_txt f). rr_agency_id r \<in> ar_agency_id ` set (agency_txt f)) \<and>
           distinct (map sw_stop_id (stops_txt f)) \<and> distinct (map trw_trip_id (trips_txt f))"
proof -
  let ?TR = "map (\<lambda>(i, t). trip_row_of i (the (tr_service_id t)) t) (enumerate 0 (trips c))"
  let ?SR = "concat (map (\<lambda>(i, t). map (stop_time_row i) (tr_stoptimes t)) (enumerate 0 (trips c)))"
  have wf: "stops_wf (stops c)" and rwf: "routes_wf c" using ok by (simp_all add: feed_ok_def)
  have tr_ids: "trw_trip_id ` set ?TR = {..<length (trips c)}"
    by (force simp: in_set_enumerate_eq trip_row_of_def image_iff)
  have st: "sr_stop_id r \<in> sw_stop_id ` set (write_stops c) \<and> sr_trip_id r \<in> trw_trip_id ` set ?TR"
    if "r \<in> set ?SR" for r
  proof -
    from that obtain i st where i: "i < length (trips c)" and st: "st \<in> set (tr_stoptimes (trips c ! i))"
        and r: "r = stop_time_row i st"
      by (auto simp: in_set_enumerate_eq)
    obtain k where "trip_ok c (trips c ! i)" using feed_ok_trip[OF ok i] by blast
    then have "served c (st_stop_id st)" using st by (simp add: trip_ok_def list_all_iff)
    with wf have "st_stop_id st \<in> sw_stop_id ` set (write_stops c)" by (rule served_stop_row)
    with i r tr_ids show ?thesis by (simp add: stop_time_row_def)
  qed
  have cal: "trw_trip_id r < length (trips c) \<and>
             {cr_date x | x. x \<in> set (write_calendar_dates c) \<and> cr_service_id x = trw_service_id r} =
               tr_service_dates (trips c ! trw_trip_id r)"
    if "r \<in> set ?TR" for r
  proof -
    from that obtain i where i: "i < length (trips c)"
        and r: "r = trip_row_of i (the (tr_service_id (trips c ! i))) (trips c ! i)"
      by (auto simp: in_set_enumerate_eq)
    obtain k where k: "tr_service_id (trips c ! i) = Some k" "k < length (calendar_dates c)"
        "calendar_dates c ! k = tr_service_dates (trips c ! i)" and tok: "trip_ok c (trips c ! i)"
      using feed_ok_trip[OF ok i] by blast
    have "finite (calendar_dates c ! k)" using k(3) tok by (simp add: trip_ok_def)
    with k i r show ?thesis by (simp add: calendar_dates_of_service trip_row_of_def)
  qed
  have ag: "rr_agency_id r \<in> ar_agency_id ` set (write_agencies c)" if "r \<in> set (write_routes c)" for r
    using that rwf by (force simp: write_routes_def write_agencies_def routes_wf_def in_set_enumerate_eq)
  have "map trw_trip_id ?TR = map fst (enumerate 0 (trips c))"
    by (simp add: trip_row_of_def case_prod_beta comp_def)
  then have "distinct (map trw_trip_id ?TR)" by (simp add: map_fst_enumerate)
  then show ?thesis
    using feed_ok_write_feed[OF ok] st cal ag write_stops_distinct[OF wf] by simp
qed

text \<open>
  C19: \<^verbatim>\<open>write_trips\<close> writes as a trip's \<^verbatim>\<open>route_id\<close> the trip's own number
  \<^verbatim>\<open>tid\<close> (line 312), not the route index \<^verbatim>\<open>route_append\<close> stored in the trip: the
  route column of \<^verbatim>\<open>trips.txt\<close> is \<open>0, 1, 2, \<dots>\<close> whatever the trips' routes are.
\<close>

theorem write_feed_route_id_column:
  "write_feed c = Inr f \<Longrightarrow>
   map trw_route_id (trips_txt f) = [0..<length (trips c)] \<and> map trw_trip_id (trips_txt f) = [0..<length (trips c)]"
proof -
  assume wf: "write_feed c = Inr f"
  then have ids: "list_all (\<lambda>t. tr_service_id t \<noteq> None) (trips c)"
    by (rule contrapos_pp) (simp add: write_feed_def write_trips_def write_trips_from_KeyError)
  then have "trips_txt f = map (\<lambda>(i, t). trip_row_of i (the (tr_service_id t)) t) (enumerate 0 (trips c))"
    using wf by (auto simp: write_feed_def write_trips_def write_trips_from_Inr)
  moreover have "map fst (enumerate 0 (trips c)) = [0..<length (trips c)]"
    by (simp add: map_fst_enumerate)
  ultimately show ?thesis by (simp add: trip_row_of_def case_prod_beta comp_def)
qed

text \<open>
  Within what the writers model (rows, not files: \<^verbatim>\<open>open()\<close>'s \<^verbatim>\<open>IOError\<close> and
  the \<^verbatim>\<open>strftime\<close> of lines 373 and 411--412 are outside it), the row computation fails
  only by \<^verbatim>\<open>KeyError\<close>, exactly when some trip has no service id.
\<close>

theorem write_feed_error:
  "write_feed c \<in> range Inr \<union> {Inl KeyError} \<and>
   (isl (write_feed c) \<longleftrightarrow> list_ex (\<lambda>t. tr_service_id t = None) (trips c))"
proof (cases "list_all (\<lambda>t. tr_service_id t \<noteq> None) (trips c)")
  case True
  then show ?thesis
    by (auto simp: write_feed_def write_trips_def write_trips_from_Inr list_all_iff list_ex_iff)
next
  case False
  then show ?thesis
    by (auto simp: write_feed_def write_trips_def write_trips_from_KeyError list_all_iff list_ex_iff)
qed

end
