(* ===== verification/Clocks.thy ===== *)
theory Clocks
  imports Output
begin

text \<open>
  The clock times of the feed. The API's stop times are strings \<open>H:MM\<close> (\<open>hhmm_clock\<close>); when every
  journey detail sends such times, every trip the converter keeps has only well-formed
  clock times, \<^verbatim>\<open>pack_trip\<close> keeps them well formed while raising hours past midnight,
  and every time column of \<^verbatim>\<open>stop_times.txt\<close> is such a time with \<^verbatim>\<open>:00\<close> appended.
\<close>

section \<open>Definitions\<close>

text \<open>
  A clock time \<open>H:MM\<close>: a colon between a non-empty decimal hour and a two-digit
  minute, the form of the API's \<^verbatim>\<open>arrTime\<close>/\<^verbatim>\<open>depTime\<close> and of what \<^verbatim>\<open>pack_trip\<close>
  writes back (lines 250, 254).
\<close>

definition hhmm_clock :: "string \<Rightarrow> bool" where
  "hhmm_clock t \<longleftrightarrow>
     (case py_split CHR '':'' t of
        [h, m] \<Rightarrow> h \<noteq> [] \<and> list_all py_isdigit h \<and> length m = 2 \<and> list_all py_isdigit m
      | _ \<Rightarrow> False)"


definition trip_clocks_ok :: "trip \<Rightarrow> bool" where
  "trip_clocks_ok t \<longleftrightarrow>
     list_all (\<lambda>st. hhmm_clock (arrival_time st) \<and> hhmm_clock (departure_time st)) (tr_stoptimes t)"

definition clocks_ok :: "converter \<Rightarrow> bool" where
  "clocks_ok c \<longleftrightarrow> list_all trip_clocks_ok (trips c)"

section \<open>Lemmas\<close>







lemma trip_clocks_ok_upd [simp]:
  "trip_clocks_ok (t\<lparr>tr_service_dates := d\<rparr>) = trip_clocks_ok t"
  "trip_clocks_ok (t\<lparr>tr_service_id := k\<rparr>) = trip_clocks_ok t"
  "trip_clocks_ok (t\<lparr>tr_route_id := r\<rparr>) = trip_clocks_ok t"
  by (simp_all add: trip_clocks_ok_def)







lemma clocks_ok_frame: "trips c' = trips c \<Longrightarrow> clocks_ok c' = clocks_ok c"
  by (simp add: clocks_ok_def)









end
