(* ===== verification/Dedup.thy ===== *)
theory Dedup
  imports Driver
begin

text \<open>
  Journeys are fetched once. A departure board lists the same journey at every
  station it calls at, and the departure loop of \<^verbatim>\<open>get_all_trips_for_stop\<close> (lines 105--111) fetches its journey
  detail only when \<^verbatim>\<open>dep_processed\<close> (lines 119--124) finds no processed departure with
  the same date, direction and name, then records the departure. The invariant
  \<open>dedup_ok\<close>: the processed departures have pairwise different keys, and the request
  trace holds one journey-detail request per processed departure. It is a
  \<open>crawl_stable\<close> predicate (by the two cases of \<open>process_dep_cases\<close>), so the whole
  run keeps it.
\<close>

section \<open>Definitions\<close>

definition dep_key :: "departure \<Rightarrow> date \<times> string \<times> string" where
  "dep_key d = (dep_date d, dep_direction d, dep_name d)"

definition trip_queries :: "request list \<Rightarrow> nat" where
  "trip_queries rs = length (filter (\<lambda>r. case r of ReqTrip _ \<Rightarrow> True | _ \<Rightarrow> False) rs)"

definition dedup_ok :: "converter \<Rightarrow> bool" where
  "dedup_ok c \<longleftrightarrow> distinct (map dep_key (processed c)) \<and> trip_queries (requests c) = length (processed c)"

section \<open>Lemmas\<close>

lemma trip_queries_simps [simp]:
  "trip_queries [] = 0"
  "trip_queries (xs @ ys) = trip_queries xs + trip_queries ys"
  "trip_queries [ReqTrip u] = 1"
  "trip_queries [ReqBoard i d t] = 0"
  "trip_queries [ReqStation q] = 0"
  by (simp_all add: trip_queries_def)

lemma dep_processed_key: "dep_processed c dep \<longleftrightarrow> dep_key dep \<in> set (map dep_key (processed c))"
  unfolding dep_processed_def list_ex_iff dep_key_def set_map image_iff by (simp add: eq_commute)

lemma seeds_dedup:
  "rfold (seed_step E) seeds c = Inr c' \<Longrightarrow> dedup_ok c \<Longrightarrow> dedup_ok c'"
  by (rule rfold_invariant[where P = dedup_ok])
     (auto simp: seed_step_def process_station_by_id_def get_station_detail_def rbind_eq_Inr Let_def
                 log_request_def dedup_ok_def split: if_splits dest!: requests_process_station_by_ob)

lemma generate_calendar_dates_processed [simp]: "processed (generate_calendar_dates c) = processed c"
  by (simp add: generate_calendar_dates_def split: prod.splits)

text \<open>
  C7: A run of \<^verbatim>\<open>main\<close> that returns fetches the journey detail of each journey (date,
  direction, name) at most once: the processed departures have pairwise different
  keys, and there is exactly one journey-detail request per processed departure.
\<close>

theorem main_run_fetches_once:
  "main_run E s e seeds = Some (Inr c) \<Longrightarrow>
   distinct (map dep_key (processed c)) \<and> trip_queries (requests c) = length (processed c)"
proof -
  assume run: "main_run E s e seeds = Some (Inr c)"
  let ?c0 = "init_converter s (default_end s e)"
  from run obtain c1 c2 where seed: "rfold (seed_step E) (py_split CHR '','' seeds) ?c0 = Inr c1"
      and crawl: "crawl_loop E c1 = Some (Inr c2)" and c: "c = generate_calendar_dates c2"
    by (rule main_run_Inr)
  have stable: "crawl_stable E dedup_ok"
  proof (rule crawl_stableI)
    fix sid d a b
    assume ok: "dedup_ok a" and step: "process_dep E sid d a = Inr b"
    from step show "dedup_ok b"
    proof (cases rule: process_dep_cases)
      case (fetch st st' c2)
      from requests_process_trip[OF fetch(4)] ok fetch(3,5) show ?thesis
        by (simp add: dedup_ok_def dep_processed_key)
    qed (use ok in \<open>simp add: dedup_ok_def\<close>)
  qed (simp_all add: dedup_ok_def log_request_def)
  have "dedup_ok ?c0" by (simp add: dedup_ok_def init_converter_def)
  with seed have "dedup_ok c1" by (rule seeds_dedup)
  then have "dedup_ok c2" using crawl_loop_stable[OF crawl stable] by blast
  with c show ?thesis by (simp add: dedup_ok_def)
qed

end
