(* ===== verification/Urls.thy ===== *)
theory Urls
  imports Dates
begin

text \<open>
  The request URLs: \<^verbatim>\<open>DEP_URL\<close> and \<^verbatim>\<open>STATION_URL\<close> (lines 33--34) filled in by
  \<^verbatim>\<open>string.Template(...).substitute\<close> (lines 79--83 and 263). \<open>tpl_subst\<close> is
  \<^verbatim>\<open>Template.substitute\<close> for \<^verbatim>\<open>$$\<close> and \<^verbatim>\<open>$identifier\<close> placeholders
  (\<^verbatim>\<open>KeyError\<close> for a name missing from the mapping, \<^verbatim>\<open>ValueError\<close> for any other
  \<^verbatim>\<open>$\<close>; the braced form does not occur in the templates and is not modelled). The
  board URL determines the station id, date and time it was built from, so the
  environment \<open>env\<close>, which answers board queries by that triple, loses nothing
  against an API answering by URL.
\<close>

section \<open>Definitions\<close>

text \<open>The identifier pattern of \<^verbatim>\<open>string.Template\<close>: \<^verbatim>\<open>[_a-z][_a-z0-9]*\<close>, ignoring case.\<close>

definition ident_start :: "char \<Rightarrow> bool" where
  "ident_start c \<longleftrightarrow> c = CHR ''_'' \<or> c \<in> set ''abcdefghijklmnopqrstuvwxyzABCDEFGHIJKLMNOPQRSTUVWXYZ''"

definition ident_char :: "char \<Rightarrow> bool" where
  "ident_char c \<longleftrightarrow> ident_start c \<or> c \<in> set ''0123456789''"

fun tpl_ident :: "string \<Rightarrow> string \<times> string" where
  "tpl_ident [] = ([], [])"
| "tpl_ident (c # cs) = (if ident_char c then (case tpl_ident cs of (a, r) \<Rightarrow> (c # a, r)) else ([], c # cs))"

function tpl_subst :: "(string \<times> string) list \<Rightarrow> string \<Rightarrow> string result" where
  "tpl_subst m [] = Inr []"
| "tpl_subst m (c # cs) =
     (if c \<noteq> CHR ''$'' then rbind (tpl_subst m cs) (\<lambda>r. Inr (c # r))
      else (case cs of
              [] \<Rightarrow> Inl ValueError
            | d # ds \<Rightarrow>
                if d = CHR ''$'' then rbind (tpl_subst m ds) (\<lambda>r. Inr (CHR ''$'' # r))
                else if ident_start d then
                  (case tpl_ident cs of (nm, rest) \<Rightarrow>
                     (case map_of m nm of
                        None \<Rightarrow> Inl KeyError
                      | Some v \<Rightarrow> rbind (tpl_subst m rest) (\<lambda>r. Inr (v @ r))))
                else Inl ValueError))"
  by pat_completeness auto
termination
proof -
  have len: "length r \<le> length cs" if "tpl_ident cs = (a, r)" for cs a r
    using that by (induction cs arbitrary: a) (auto split: prod.splits if_splits)
  show ?thesis
    by (relation "measure (\<lambda>(m, s). length s)") (auto simp del: tpl_ident.simps dest!: sym[THEN len])
qed

text \<open>Lines 33--34.\<close>

definition DEP_URL :: string where
  "DEP_URL = ''http://open-api.bahn.de/bin/rest.exe/departureBoard?authKey=<insert api key here>&lang=de&id=00$id&date=$date&time=$time&format=json''"

definition STATION_URL :: string where
  "STATION_URL = ''http://open-api.bahn.de/bin/rest.exe/location.name?authKey=<insert api key here>&lang=de&input=$search&format=json''"

text \<open>Lines 79--83: the board query of a station, its date printed by \<^verbatim>\<open>strftime('%Y-%m-%d')\<close>.\<close>

definition dep_url :: "sid \<Rightarrow> date \<Rightarrow> string \<Rightarrow> string result" where
  "dep_url i d t =
     rbind (strftime_ymd ''-'' d) (\<lambda>ds. tpl_subst [(''id'', py_str_int i), (''date'', ds), (''time'', t)] DEP_URL)"

text \<open>Line 263: the station search for an id.\<close>

definition station_url :: "sid \<Rightarrow> string result" where
  "station_url i = tpl_subst [(''search'', py_str_int i)] STATION_URL"

section \<open>Lemmas\<close>

lemma dep_url_template:
  "tpl_subst [(''id'', a), (''date'', b), (''time'', c)] DEP_URL =
     Inr (''http://open-api.bahn.de/bin/rest.exe/departureBoard?authKey=<insert api key here>&lang=de&id=00'' @
          a @ ''&date='' @ b @ ''&time='' @ c @ ''&format=json'')"
  by (simp add: DEP_URL_def ident_start_def ident_char_def)

lemma station_url_template:
  "station_url i = Inr (''http://open-api.bahn.de/bin/rest.exe/location.name?authKey=<insert api key here>&lang=de&input='' @
                        py_str_int i @ ''&format=json'')"
  by (simp add: station_url_def STATION_URL_def ident_start_def ident_char_def)

lemma append_sep_eq:
  assumes "c \<notin> set a" "c \<notin> set b" "a @ c # x = b @ c # y"
  shows "a = b \<and> x = y"
  using assms
proof (induction a arbitrary: b)
  case Nil
  then show ?case by (cases b) auto
next
  case (Cons a as)
  then show ?case by (cases b) auto
qed

lemma amp_not_in_py_str_int: "CHR ''&'' \<notin> set (py_str_int i)"
  using nat_str_digits[of "nat (- i)"] nat_str_digits[of "nat i"]
  by (auto simp: py_str_int_def list_all_iff py_isdigit_def)

lemma amp_not_in_strftime: "strftime_ymd sep n = Inr s \<Longrightarrow> CHR ''&'' \<notin> set sep \<Longrightarrow> CHR ''&'' \<notin> set s"
  by (cases "ord2ymd n") (auto simp: strftime_ymd_def pad2_def amp_not_in_py_str_int split: if_splits)

text \<open>
  C9: A board URL determines its query: two \<^verbatim>\<open>DEP_URL\<close> substitutions that give the
  same URL were made for the same station id, date and time string.
\<close>

theorem dep_url_inj:
  assumes u1: "dep_url i1 d1 t1 = Inr u" and u2: "dep_url i2 d2 t2 = Inr u"
  shows "i1 = i2 \<and> d1 = d2 \<and> t1 = t2"
proof -
  from u1 obtain s1 where s1: "strftime_ymd ''-'' d1 = Inr s1"
    and e1: "u = ''http://open-api.bahn.de/bin/rest.exe/departureBoard?authKey=<insert api key here>&lang=de&id=00'' @
          py_str_int i1 @ ''&date='' @ s1 @ ''&time='' @ t1 @ ''&format=json''"
    by (auto simp: dep_url_def dep_url_template rbind_eq_Inr)
  from u2 obtain s2 where s2: "strftime_ymd ''-'' d2 = Inr s2"
    and e2: "u = ''http://open-api.bahn.de/bin/rest.exe/departureBoard?authKey=<insert api key here>&lang=de&id=00'' @
          py_str_int i2 @ ''&date='' @ s2 @ ''&time='' @ t2 @ ''&format=json''"
    by (auto simp: dep_url_def dep_url_template rbind_eq_Inr)
  have "py_str_int i1 @ CHR ''&'' # (''date='' @ s1 @ ''&time='' @ t1 @ ''&format=json'') =
        py_str_int i2 @ CHR ''&'' # (''date='' @ s2 @ ''&time='' @ t2 @ ''&format=json'')"
    using e1 e2 by simp
  from append_sep_eq[OF amp_not_in_py_str_int amp_not_in_py_str_int this]
  have i: "py_str_int i1 = py_str_int i2"
    and "''date='' @ s1 @ ''&time='' @ t1 @ ''&format=json'' = ''date='' @ s2 @ ''&time='' @ t2 @ ''&format=json''"
    by simp_all
  then have "s1 @ CHR ''&'' # (''time='' @ t1 @ ''&format=json'') = s2 @ CHR ''&'' # (''time='' @ t2 @ ''&format=json'')"
    by simp
  from append_sep_eq[OF amp_not_in_strftime[OF s1] amp_not_in_strftime[OF s2] this]
  have s: "s1 = s2" and t: "t1 = t2" by simp_all
  have "i1 = i2" using arg_cong[OF i, of py_int] by (simp add: py_int_py_str_int)
  moreover have "d1 = d2" using s1 s2 s by (blast intro: strftime_ymd_inj)
  ultimately show ?thesis using t by simp
qed

end
