(* ===== verification/Spec2Isabelle.thy ===== *)
theory Spec2Isabelle
  imports Clocks Dedup Urls
begin

text \<open>
  \<^bold>\<open>A verification development of \<^verbatim>\<open>src/db_to_gtfs.py\<close>\<close> (DB API to GTFS
  converter). The program crawls the Deutsche Bahn timetable API outward from seed
  stations, collects every trip it can reach within a date window, merges repeated
  runs of the same trip into one trip with a set of operating days, normalizes times
  past midnight, minimizes the calendars and writes a GTFS feed. Everything is a method
  of one object \<^verbatim>\<open>DBApiToGTFS\<close>; its fields are the record \<open>converter\<close>.

  \<^bold>\<open>Theories and what they model.\<close>
  \<^item> \<open>Prelude\<close>: Python exceptions (\<open>py_error\<close>), the result type
    \<open>'a result\<close> (\<open>Inl\<close> is an exception propagating to the top, as none is caught),
    its bind \<open>rbind\<close>, fallible loops \<open>rfold\<close>/\<open>rmap\<close>, dates as day numbers, dicts
    as association lists.
  \<^item> \<open>PyBase\<close>: the builtins the code relies on: \<^verbatim>\<open>str.split\<close>, indexing with
    \<^verbatim>\<open>IndexError\<close>, \<^verbatim>\<open>int()\<close> with \<^verbatim>\<open>ValueError\<close>, \<^verbatim>\<open>str()\<close>, Python 2's
    ordering of mixed int/str values, and \<^verbatim>\<open>get_first_in_list\<close> (lines 113--117).
  \<^item> \<open>Data\<close>: the dict shapes as records (\<open>station\<close>, \<open>stoptime\<close>, \<open>trip\<close>,
    \<open>route\<close>, the API payloads), the object as \<open>converter\<close> with
    \<open>init_converter\<close> (\<^verbatim>\<open>__init__\<close>), and the remote API as the environment
    \<open>env\<close>, one function per request kind, failing with \<open>FetchError\<close>, together
    with the library functions \<^verbatim>\<open>HTMLParser.unescape\<close> and \<^verbatim>\<open>float()\<close>.
  \<^item> \<open>Dates\<close>: dates as \<^verbatim>\<open>datetime\<close> ordinals; the conversions of Python's
    \<^verbatim>\<open>datetime\<close> between ordinals and (year, month, day) (\<open>ymd2ord\<close>,
    \<open>ord2ymd\<close>), \<^verbatim>\<open>strftime('%Y-%m-%d')\<close> with Python 2's 1900 limit
    (\<open>strftime_ymd\<close>), \<^verbatim>\<open>dateparse\<close> on year-first dashed dates
    (\<open>dateparse_iso\<close>) and \<^verbatim>\<open>date + timedelta\<close> (\<open>date_add\<close>).
  \<^item> \<open>Urls\<close>: \<^verbatim>\<open>DEP_URL\<close> and \<^verbatim>\<open>STATION_URL\<close> (lines 33--34) filled in by
    \<^verbatim>\<open>string.Template.substitute\<close> (\<open>tpl_subst\<close>, a model of the library method) as the crawl (lines 79--83) and the
    station search (line 263) do; a board URL determines the station id, date and time
    it was built from, which is why \<open>env\<close> may answer board queries by that triple.
  \<^item> \<open>Normalizer\<close>: \<^verbatim>\<open>pack_trip\<close> (237--259) as \<open>pack_trip\<close>,
    \<open>pack_stoptime\<close>, \<open>roll_time\<close>; its contract \<open>packed_stop\<close>.
  \<^item> \<open>Stations\<close>: the Station Registry: \<^verbatim>\<open>get_station_ob\<close>,
    \<^verbatim>\<open>process_station_by_ob\<close>, \<^verbatim>\<open>get_station_detail\<close>, \<^verbatim>\<open>process_station_by_id\<close>,
    \<^verbatim>\<open>get_unfetched_station_id\<close>; well-formedness \<open>stops_wf\<close>.
  \<^item> \<open>Routes\<close>: \<^verbatim>\<open>route_append\<close> (214--234) and its map contract
    \<open>route_resolve_abs\<close> over the abstraction \<open>route_index\<close>.
  \<^item> \<open>Trips\<close>: \<^verbatim>\<open>trip_compare\<close> and \<^verbatim>\<open>trip_append\<close> (183--211); the shape
    \<open>trip_shape\<close> they compare and the abstraction \<open>trip_map\<close> from shapes to days.
  \<^item> \<open>Calendar\<close>: \<^verbatim>\<open>generate_calendar_dates\<close> (283--293) and its reference
    \<open>dedup_first\<close>/\<open>first_index\<close>.
  \<^item> \<open>TripBuilder\<close>: \<^verbatim>\<open>process_trip\<close> (135--181), composing the registry, the route
    deduplicator, the normalizer and the trip deduplicator in the source's order; a
    \<^verbatim>\<open>Stop\<close> that arrives as one dict is iterated over its keys (\<open>jd_stop_keys\<close>) and the
    first \<^verbatim>\<open>stoptime['name']\<close> on a key string raises \<^verbatim>\<open>TypeError\<close> (\<open>process_stop_key\<close>).
  \<^item> \<open>Crawl\<close>: one query of the departure board of \<^verbatim>\<open>get_all_trips_for_stop\<close>
    (lines 78--111) as \<open>board_step\<close>, with the cursor update \<open>update_cursor\<close>, the
    departure loop body \<open>process_dep\<close> and \<^verbatim>\<open>dep_processed\<close>; the growth relation
    \<open>conv_le\<close> every step respects, and the count \<open>board_queries\<close> of queries in the
    request trace.
  \<^item> \<open>Frontier\<close>: the \<^verbatim>\<open>while\<close> loop of one station as the \<^theory_text>\<open>function\<close>
    \<open>trips_loop\<close> (terminating by the measure "days left in the window"),
    \<^verbatim>\<open>get_all_trips_for_stop\<close>, and the crawl loop of \<^verbatim>\<open>main\<close> (443--446) as the
    \<^theory_text>\<open>partial_function (option)\<close> \<open>crawl_loop\<close>, \<open>None\<close> meaning it never returns.
  \<^item> \<open>Preserve\<close>: the one induction the crawl invariants share: a predicate kept by
    \<open>process_dep\<close>, by the station updates \<open>station_le\<close> allows and by logging a board
    query (\<open>crawl_stable\<close>) is kept by \<open>board_step\<close>, \<open>trips_loop\<close>,
    \<open>get_all_trips_for_stop\<close> and \<open>crawl_loop\<close>.
  \<^item> \<open>Invariant\<close>: the converter invariant \<open>conv_inv\<close> (\<open>stops_wf\<close>,
    \<open>routes_wf\<close>, distinct trip shapes, \<open>trip_ok\<close> for every trip) and one preservation
    lemma per operation of the trip pipeline; the crawl keeps it as an instance of
    \<open>Preserve\<close> (\<open>conv_inv_stable\<close>).
  \<^item> \<open>Liveness\<close>: the registry grows only by stations of the journeys the API returns
    (\<open>grows_within\<close>); with finitely many such stations the crawl returns
    (\<open>crawl_loop_returns\<close>, by induction on the number of uncrawled stations).
  \<^item> \<open>Driver\<close>: \<^verbatim>\<open>main\<close> up to the writers (423--448) as \<open>main_run\<close>: the end
    date first (\<open>main_end_date\<close>, computed as the source does through \<^verbatim>\<open>strftime\<close> and
    \<^verbatim>\<open>dateparse\<close>, its \<^verbatim>\<open>OverflowError\<close> and \<^verbatim>\<open>ValueError\<close> ending the run before
    the converter exists; \<open>default_end\<close> is its value when it succeeds, lemma
    \<open>main_end_date_default\<close>), then seeding from the comma-separated list with
    \<^verbatim>\<open>int(seed)\<close>, crawl, calendars; \<open>feed_ok\<close> is what the writers need.
  \<^item> \<open>Dedup\<close>: the \<^verbatim>\<open>dep_processed\<close> guard (lines 105--124): the processed
    departures have distinct (date, direction, name) keys and match the journey-detail
    requests one to one (\<open>dedup_ok\<close>).
  \<^item> \<open>Output\<close>: the six writers (295--413) as row lists, one record per file, the whole
    feed \<open>write_feed\<close>, and the whole program \<open>main_feed\<close>.
  \<^item> \<open>Clocks\<close>: the time columns of \<^verbatim>\<open>stop_times.txt\<close> are clock times \<open>H:MM\<close>
    (\<open>hhmm_clock\<close>: a decimal hour and a two-digit minute) when the API's are
    (\<open>clocks_ok\<close>, kept by \<open>roll_time\<close>, through the pipeline and the crawl).
  \<^item> \<open>Spec2Isabelle\<close> (this theory): example inputs and APIs, example runs of the
    whole program and of the defects (\<open>main_feed_end_to_end\<close>, \<open>process_trip_end_to_end\<close>,
    \<open>main_feed_route_id_defect\<close>, \<open>main_run_request_trace\<close>, \<open>update_cursor_mixes\<close>,
    \<open>main_run_seed_zero\<close>, \<open>process_journey_single_stop_raises\<close>), and the witnesses.

  \<^bold>\<open>What the lemmas show.\<close> A normal run of \<^verbatim>\<open>main\<close> leaves a state fit for output
  (C1) and the writers then produce a referentially sound feed (C2),
  whose \<^verbatim>\<open>route_id\<close> column is the trip's own number rather than its route (C19);
  \<^verbatim>\<open>main\<close> returns whenever the stations the API can name are finitely many (C10),
  with at most one departure-board query per station and day (C11) and at most one
  journey-detail request per journey (C7), and when it returns every
  station it registered has been crawled, unless one has id 0 (C12); the time columns
  it writes are clock times \<open>H:MM\<close> when the API's are (C13). Its default end date
  is three days after the start, read back through \<^verbatim>\<open>strftime\<close> and \<^verbatim>\<open>dateparse\<close>,
  with its two error cases (C8), and a board URL determines the query it was built for
  (C9). One station is crawled with at most one query per day left
  (C17), exactly that many when its board is empty
  (C18). Normalization is correct on every stop (C3);
  the trip and route deduplicators refine maps keyed by identity (C4,
  C5), trip comparison is shape equality (C15), merging is
  idempotent (C21) and does not depend on the order fresh trips arrive in
  (C22); the calendars are minimal and equal to their reference
  (C6, C16); station registration is
  get-or-create, never replacing a registered station (C14), the frontier
  pick is correct (C23), and a journey of fewer than two stops adds no trip but
  registers its route (C20).

  \<^bold>\<open>Termination and bounds.\<close> \<open>trips_loop\<close> terminates for every input (each query
  moves the station's date forward by at least a day, line 88), so one station costs
  at most \<open>end - last_date\<close> queries. The crawl loop of \<^verbatim>\<open>main\<close> need not end in
  general (the API could name new stations forever), hence \<^theory_text>\<open>partial_function\<close>; C10 gives
  the sufficient condition: every station of a journey detail and of a single-station
  search answer lies in a finite set \<open>K\<close>, and then at most \<open>card K\<close> iterations run,
  each costing at most one query per day of the window since every station is dated
  from the feed's start (C11; the bound is reached by the two-station run \<open>main_feed_route_id_defect\<close>).

  \<^bold>\<open>Modelling choices.\<close> Dates are \<^verbatim>\<open>datetime\<close> ordinals (\<^verbatim>\<open>dateparse\<close> is
  injective on the API's date strings, and the crawl only adds days and compares); clock times stay
  strings and are cut with the modelled \<^verbatim>\<open>split\<close>/\<^verbatim>\<open>int\<close>; coordinates arrive as
  strings and become reals by the environment's \<^verbatim>\<open>float()\<close> (\<open>to_float\<close>), whose
  \<^verbatim>\<open>ValueError\<close> is a branch of \<open>get_station_ob\<close>; the dict \<^verbatim>\<open>self.stops\<close> iterates in insertion order (Python 2's hash
  order differs, and the registry's contract, C23, does not depend on it); the dates of
  one calendar are written in ascending order (a Python set has no order; C2 speaks of
  the set of rows). \<open>requests\<close> records the remote requests made, the program's only
  observable effect besides the output files. A station is passed to
  \<^verbatim>\<open>get_all_trips_for_stop\<close> by its id and read from the registry at each step; in
  the source it is the registry's own dict, mutated in place, which is the same.

  \<^bold>\<open>Not modelled.\<close> HTTP and JSON decoding (the environment \<open>env\<close> returns decoded
  payloads, failure as \<open>FetchError\<close>): the source reads the decoded dicts lazily,
  key by key inside its loops, so an eager decoder would raise a missing key's
  \<^verbatim>\<open>KeyError\<close> before effects the source performs first; the model keeps the
  source's own key tests instead (\<open>None\<close> answers, optional time keys, the one-or-list
  shapes). HTML unescaping and \<^verbatim>\<open>float()\<close> are library functions, fields of
  \<open>env\<close>. Also not modelled: docopt
  argument parsing and the current-date default (\<^verbatim>\<open>time.strftime\<close>; the start date is a
  parameter), the progress \<^verbatim>\<open>print\<close>s, CSV quoting, file handles, and the
  \<^verbatim>\<open>strftime\<close> calls inside the crawl and the writers: the crawl queries \<open>env\<close> by
  (station id, date, time) rather than by the URL \<open>dep_url\<close> builds (line 81), and the
  writers keep dates as values (lines 373, 411--412); both raise \<^verbatim>\<open>ValueError\<close> for
  dates before 1900 in the program, so the crawl and the writers are modelled on dates
  they can print. The example runs below use small
  ordinals (day 100) and an explicit end date (day 103) for readability, as the
  default end date of a start before 1900 is \<^verbatim>\<open>ValueError\<close>
  (\<open>main_end_date_example\<close> computes it for 2016-05-20); shifting every date of an example by the same
  number of days changes none of its results, as the crawl only adds days and compares. \<^verbatim>\<open>dateparse\<close> is modelled on
  year-first dashed dates only, the form \<open>main_end_date\<close> gives it. \<^verbatim>\<open>int()\<close> is modelled on signed
  decimal strings with surrounding white space, which it strips; the writers' \<^verbatim>\<open>open()\<close>
  and its \<^verbatim>\<open>IOError\<close> are outside the model. The end-to-end runs and the runs exhibiting
  defects are examples, not properties: the defects they show are stated generally where
  a general statement exists (C19, C20).
\<close>

section \<open>Example inputs\<close>

text \<open>
  The end-to-end scenario of the specification: a journey ICE 100 of DB Fernverkehr
  from station 11 (A, departing 10:00) to station 22 (B, arriving 10:30) on day 100,
  with the feed running from day 100 to day 103. A second trip crosses midnight.
\<close>

text \<open>\<^verbatim>\<open>float()\<close> on the coordinates of the examples, all \<^verbatim>\<open>"0"\<close>.\<close>

definition ex_float :: "string \<Rightarrow> real result" where
  "ex_float s = (if s = ''0'' then Inr 0 else Inl ValueError)"

definition ex_stop_A :: jd_stop where
  "ex_stop_A = \<lparr>js_name = ''A'', js_id = ''11'', js_lat = ''0'', js_lon = ''0'', js_routeIdx = ''0'',
     js_arrTime = None, js_depTime = Some ''10:00'', js_arrDate = None, js_depDate = Some 100\<rparr>"

definition ex_stop_B :: jd_stop where
  "ex_stop_B = \<lparr>js_name = ''B'', js_id = ''22'', js_lat = ''0'', js_lon = ''0'', js_routeIdx = ''1'',
     js_arrTime = Some ''10:30'', js_depTime = None, js_arrDate = Some 100, js_depDate = None\<rparr>"

definition ex_journey :: journey_detail where
  "ex_journey = \<lparr>jd_names = Many [Some ''ICE 100''], jd_types = Single (Some ''ICE''),
     jd_operators = Single (Some ''DB Fernverkehr''), jd_stops = Many [ex_stop_A, ex_stop_B]\<rparr>"

definition ex_env :: env where
  "ex_env = \<lparr>departure_board = (\<lambda>_ _ _. Inr None), journey_detail_of = (\<lambda>_. Inr (Some ex_journey)),
     location_name = (\<lambda>_. Inr None), unescape = (\<lambda>s. s), to_float = ex_float\<rparr>"

definition ex_station :: "sid \<Rightarrow> string \<Rightarrow> station" where
  "ex_station i n = \<lparr>stop_id = i, stop_name = n, stop_lat = 0, stop_lon = 0,
     last_check_h = PInt 0, last_check_m = PInt 0, last_date = 100, has_trip = False,
     trips_fetched = False\<rparr>"

definition ex_stoptime :: "sid \<Rightarrow> string \<Rightarrow> date \<Rightarrow> stoptime" where
  "ex_stoptime i t d = \<lparr>st_stop_id = i, st_stop_sequence = 0, arrival_time = t, departure_time = t,
     arrival_date = d, departure_date = d\<rparr>"

definition ex_trip :: "string \<Rightarrow> stoptime list \<Rightarrow> trip" where
  "ex_trip n sts = \<lparr>tr_stoptimes = sts, tr_name = Some n, tr_type = Some ''ICE'',
     tr_agency_id = Some ''DB Fernverkehr'', tr_route_id = 0, tr_headsign = [], tr_service_date = 0,
     tr_service_dates = {}, tr_service_id = None\<rparr>"

text \<open>A night trip: from station 11 at 23:55 on day 100 to station 22 at 00:15 on day 101.\<close>

definition ex_night :: trip where
  "ex_night = ex_trip ''ICE 200'' [ex_stoptime 11 ''23:55'' 100, ex_stoptime 22 ''00:15'' 101]"

definition ex_conv :: converter where
  "ex_conv = init_converter 100 103"

definition ex_route :: route where
  "ex_route = \<lparr>route_short_name = Some ''ICE'', route_long_name = Some ''ICE 100'', route_type = 2,
     route_agency_id = Some ''DB Fernverkehr''\<rparr>"

text \<open>The calendar example of the specification: trips running on \<open>{1}\<close>, \<open>{1}\<close>, \<open>{2}\<close>.\<close>

definition ex_cal_conv :: converter where
  "ex_cal_conv = ex_conv\<lparr>trips :=
     [(ex_trip ''ICE 1'' [])\<lparr>tr_service_dates := {1}\<rparr>, (ex_trip ''ICE 2'' [])\<lparr>tr_service_dates := {1}\<rparr>,
      (ex_trip ''ICE 3'' [])\<lparr>tr_service_dates := {2}\<rparr>]\<rparr>"

definition ex_loc_A :: stop_location where
  "ex_loc_A = stop_loc ex_stop_A"

text \<open>A departure of ICE 100 at station 11 on day 100, and its run on day 101 five minutes later.\<close>

definition ex_dep :: departure where
  "ex_dep = \<lparr>dep_time = ''10:00'', dep_date = 100, dep_stopid = ''11'', dep_direction = ''B'',
     dep_name = ''ICE 100'', dep_ref = ''r100''\<rparr>"

definition ex_dep2 :: departure where
  "ex_dep2 = ex_dep\<lparr>dep_time := ''10:05'', dep_date := 101, dep_ref := ''r101''\<rparr>"

definition ex_journey2 :: journey_detail where
  "ex_journey2 = ex_journey\<lparr>jd_stops := Many [ex_stop_A\<lparr>js_depTime := Some ''10:05'', js_depDate := Some 101\<rparr>,
                                               ex_stop_B\<lparr>js_arrTime := Some ''10:35'', js_arrDate := Some 101\<rparr>]\<rparr>"

text \<open>
  An API whose station search finds station A, whose board at A lists ICE 100 on day 100
  only, and whose journey details are the scenario's journey.
\<close>

definition ex_env2 :: env where
  "ex_env2 = \<lparr>departure_board = (\<lambda>i d t. if i = 11 \<and> d = 100 then Inr (Some (Single ex_dep)) else Inr None),
     journey_detail_of = (\<lambda>_. Inr (Some ex_journey)), location_name = (\<lambda>_. Inr (Some (Single ex_loc_A))),
     unescape = (\<lambda>s. s), to_float = ex_float\<rparr>"

text \<open>The same API with the run of day 101 added (a list of one departure).\<close>

definition ex_env3 :: env where
  "ex_env3 = \<lparr>departure_board = (\<lambda>i d t. if i = 11 \<and> d = 100 then Inr (Some (Single ex_dep))
                                         else if i = 11 \<and> d = 101 then Inr (Some (Many [ex_dep2]))
                                         else Inr None),
     journey_detail_of = (\<lambda>u. if u = ''r101'' then Inr (Some ex_journey2) else Inr (Some ex_journey)),
     location_name = (\<lambda>_. Inr (Some (Single ex_loc_A))), unescape = (\<lambda>s. s), to_float = ex_float\<rparr>"

text \<open>A station search that finds, for any id, a station of that id; no departures.\<close>

definition ex_env_echo :: env where
  "ex_env_echo = \<lparr>departure_board = (\<lambda>_ _ _. Inr None), journey_detail_of = (\<lambda>_. Inr None),
     location_name = (\<lambda>q. Inr (Some (Single \<lparr>loc_name = q, loc_id = q, loc_lat = ''0'', loc_lon = ''0''\<rparr>))),
     unescape = (\<lambda>s. s), to_float = ex_float\<rparr>"

text \<open>
  ICE 100 as listed on the board of station B (id 22), which it reaches at 10:30: the
  same journey (date, direction, name) as \<open>ex_dep\<close>.
\<close>

definition ex_dep_B :: departure where
  "ex_dep_B = ex_dep\<lparr>dep_time := ''10:30'', dep_stopid := ''22''\<rparr>"

text \<open>The scenario's API where the boards of both A and B list ICE 100 on day 100.\<close>

definition ex_env_dup :: env where
  "ex_env_dup = ex_env2\<lparr>departure_board := (\<lambda>i d t. if d = 100 \<and> i = 11 then Inr (Some (Single ex_dep))
                                                   else if d = 100 \<and> i = 22 then Inr (Some (Single ex_dep_B))
                                                   else Inr None)\<rparr>"

text \<open>The scenario's API with a journey of one stop only.\<close>

definition ex_env1 :: env where
  "ex_env1 = ex_env\<lparr>journey_detail_of := (\<lambda>_. Inr (Some (ex_journey\<lparr>jd_stops := Many [ex_stop_A]\<rparr>)))\<rparr>"

section \<open>Evaluation\<close>

text \<open>The definitions unfolded to run the model on the example inputs with \<open>simp\<close>.\<close>

lemmas eval_model =
  process_trip_def process_journey_def finish_trip_def process_stop_def new_trip_def stop_loc_def
  key_or_def process_station_by_ob_def get_station_ob_def route_append_def trip_append_def
  pack_trip_def pack_stoptime_def roll_time_def time_hour_def time_minute_def py_index_def
  py_last_def log_request_def init_converter_def py_int_def py_strip_def py_isspace_def py_int_digits_def
  py_isdigit_def ex_float_def
  digit_val_def py_split_def py_str_int_def nat_str.simps valid_clock_def hhmm_clock_def service_day_def
  packed_stop_def shift_hour_def
  ex_stop_A_def ex_stop_B_def ex_journey_def ex_env_def ex_station_def ex_stoptime_def ex_trip_def
  ex_night_def ex_conv_def ex_route_def ex_cal_conv_def ex_loc_A_def
  generate_calendar_dates_def calendar_step_def dedup_first_def
  get_unfetched_station_id_def stops_wf_def route_index_def route_key_def route_resolve_abs_def Let_def

lemmas crawl_eval =
  main_feed_def main_run_def main_end_date_def default_end_def seed_step_def process_station_by_id_def get_station_detail_def
  crawl_loop.simps get_all_trips_for_stop_def trips_loop.simps board_step_def process_dep_def update_cursor_def
  dep_processed_def cursor_time_def trip_compare_shape trip_shape_def
  write_feed_def write_trips_def trip_row_of_def stop_time_row_def write_stops_def write_calendar_dates_def
  write_routes_def write_agencies_def write_feed_info_def
  ex_dep_def ex_dep2_def ex_journey2_def ex_env2_def ex_env3_def ex_env_echo_def ex_dep_B_def ex_env_dup_def

lemmas feed_eval =
  feed_ok_def trip_ok_def served_def routes_wf_def route_key_def stops_wf_def

section \<open>Properties spanning components\<close>

text \<open>
  the specification's end-to-end scenario. Processing the one journey from an
  empty converter registers stations A and B, both marked as served, creates one route
  (short name ICE, long name ICE 100) of one agency, and one trip with headsign B,
  service day 100 and the two stop times 10:00 and 10:30.
\<close>

theorem process_trip_end_to_end:
  "process_trip ex_env ''ref'' ex_conv =
     Inr (ex_conv\<lparr>
       stops := [(11, (ex_station 11 ''A'')\<lparr>has_trip := True\<rparr>), (22, (ex_station 22 ''B'')\<lparr>has_trip := True\<rparr>)],
       trips := [\<lparr>tr_stoptimes = [\<lparr>st_stop_id = 11, st_stop_sequence = 0, arrival_time = ''10:00'',
                                   departure_time = ''10:00'', arrival_date = 100, departure_date = 100\<rparr>,
                                 \<lparr>st_stop_id = 22, st_stop_sequence = 1, arrival_time = ''10:30'',
                                   departure_time = ''10:30'', arrival_date = 100, departure_date = 100\<rparr>],
                 tr_name = Some ''ICE 100'', tr_type = Some ''ICE'', tr_agency_id = Some ''DB Fernverkehr'',
                 tr_route_id = 0, tr_headsign = ''B'', tr_service_date = 100, tr_service_dates = {100},
                 tr_service_id = None\<rparr>],
       routes := [\<lparr>route_short_name = Some ''ICE'', route_long_name = Some ''ICE 100'', route_type = 2,
                   route_agency_id = Some ''DB Fernverkehr''\<rparr>],
       agencies := [Some ''DB Fernverkehr''],
       requests := [ReqTrip ''ref'']\<rparr>)"
  by (simp add: eval_model)

text \<open>
  the whole program on a small API: seeded with station 11, the run crawls A and B,
  builds the one trip of ICE 100, and writes exactly these rows to the six files.
\<close>

theorem main_feed_end_to_end:
  "main_feed ex_env2 100 (Some 103) ''11'' =
     Some (Inr \<lparr>trips_txt = [\<lparr>trw_route_id = 0, trw_service_id = 0, trw_trip_id = 0, trw_trip_headsign = ''B''\<rparr>],
                stop_times_txt =
                  [\<lparr>sr_trip_id = 0, sr_arrival_time = ''10:00:00'', sr_departure_time = ''10:00:00'',
                     sr_stop_id = 11, sr_stop_sequence = 0\<rparr>,
                   \<lparr>sr_trip_id = 0, sr_arrival_time = ''10:30:00'', sr_departure_time = ''10:30:00'',
                     sr_stop_id = 22, sr_stop_sequence = 1\<rparr>],
                stops_txt = [\<lparr>sw_stop_id = 11, sw_stop_name = ''A'', sw_stop_lat = 0, sw_stop_lon = 0\<rparr>,
                             \<lparr>sw_stop_id = 22, sw_stop_name = ''B'', sw_stop_lat = 0, sw_stop_lon = 0\<rparr>],
                calendar_dates_txt = [\<lparr>cr_service_id = 0, cr_date = 100, cr_exception_type = 1\<rparr>],
                routes_txt = [\<lparr>rr_route_id = 0, rr_route_short_name = Some ''ICE'', rr_route_long_name = Some ''ICE 100'',
                               rr_route_type = 2, rr_agency_id = Some ''DB Fernverkehr''\<rparr>],
                agency_txt = [\<lparr>ar_agency_id = Some ''DB Fernverkehr'', ar_agency_name = Some ''DB Fernverkehr'',
                               ar_agency_url = ''http://www.bahn.de'', ar_agency_timezone = ''Europe/Berlin'',
                               ar_agency_lang = ''de''\<rparr>],
                feed_info_txt = write_feed_info (init_converter 100 103)\<rparr>)"
  by (simp add: crawl_eval eval_model cong: option.case_cong_weak sum.case_cong_weak)

text \<open>
  the requests of that run, in order. After the departure at 10:00 on day 100, the
  boards of days 101 and 102 are asked from 10:00 on: the cursor is never reset when
  the date advances, so departures before 10:00 on later days are never requested.
\<close>

theorem main_run_request_trace:
  "\<exists>c. main_run ex_env2 100 (Some 103) ''11'' = Some (Inr c) \<and>
       requests c = [ReqStation (py_str_int 11), ReqBoard 11 100 (py_str_int 0 @ '':'' @ py_str_int 0),
                     ReqTrip ''r100'', ReqBoard 11 101 ''10:00'', ReqBoard 11 102 ''10:00'',
                     ReqBoard 22 100 (py_str_int 0 @ '':'' @ py_str_int 0),
                     ReqBoard 22 101 (py_str_int 0 @ '':'' @ py_str_int 0),
                     ReqBoard 22 102 (py_str_int 0 @ '':'' @ py_str_int 0)]"
  by (simp add: crawl_eval eval_model cong: option.case_cong_weak sum.case_cong_weak)

text \<open>
  when two trips share a route (ICE 100 on day 100 and, five minutes later, on day
  101), \<^verbatim>\<open>trips.txt\<close> gives the second trip the route id 1 while
  \<^verbatim>\<open>routes.txt\<close> lists route 0 only: the writer uses the trip's number as its
  \<^verbatim>\<open>route_id\<close>.
\<close>

theorem main_feed_route_id_defect:
  "\<exists>f. main_feed ex_env3 100 (Some 103) ''11'' = Some (Inr f) \<and>
       map trw_route_id (trips_txt f) = [0, 1] \<and> map rr_route_id (routes_txt f) = [0]"
  by (simp add: crawl_eval eval_model cong: option.case_cong_weak sum.case_cong_weak)

text \<open>
  \<^verbatim>\<open>while sid:\<close> treats station id 0 as "no station left": seeded with stations
  0 and 22, the run registers both and returns without a single board query, station 22
  never crawled.
\<close>

theorem main_run_seed_zero:
  "\<exists>c. main_run ex_env_echo 100 (Some 103) ''0,22'' = Some (Inr c) \<and> map fst (stops c) = [0, 22] \<and>
       board_queries (requests c) = 0 \<and> \<not> trips_fetched (the (map_of (stops c) 22))"
  by (simp add: crawl_eval eval_model board_queries_def char_of_def bit_iff_odd cong: option.case_cong_weak sum.case_cong_weak)

text \<open>
  the cursor takes the largest hour and the largest minute separately: after
  departures at 09:50 and 10:05 the next query starts at 10:50, skipping departures
  between 10:05 and 10:50.
\<close>

theorem update_cursor_mixes:
  "\<exists>st'. rbind (update_cursor (ex_dep\<lparr>dep_time := ''09:50''\<rparr>) (ex_station 11 ''A''))
                 (update_cursor (ex_dep\<lparr>dep_time := ''10:05''\<rparr>)) = Inr st' \<and>
         cursor_time st' = ''10:50''"
  by (simp add: crawl_eval eval_model)

text \<open>
  A journey with a single stop is discarded as a trip, but only after its route and
  agency were registered and its station marked as served: the feed then lists a route
  without trips and a stop no trip serves.
\<close>

theorem process_trip_one_stop_route:
  "\<exists>c. process_trip ex_env1 ''ref'' ex_conv = Inr c \<and> trips c = [] \<and>
       map route_long_name (routes c) = [Some ''ICE 100''] \<and> agencies c = [Some ''DB Fernverkehr''] \<and>
       map (\<lambda>(k, s). (k, has_trip s)) (stops c) = [(11, True)]"
  by (simp add: ex_env1_def eval_model)

text \<open>
  A journey whose \<^verbatim>\<open>Stops.Stop\<close> is a single dict: the loop runs over the dict's keys and
  \<^verbatim>\<open>stoptime['name']\<close> raises \<^verbatim>\<open>TypeError\<close>, which ends the run.
\<close>

theorem process_journey_single_stop_raises:
  "process_journey ex_env (ex_journey\<lparr>jd_stops := Single ex_stop_A\<rparr>) ex_conv = Inl TypeError"
  by (simp add: eval_model process_journey_def jd_stop_keys_def process_stop_key_def)

section \<open>Witnesses\<close>

theorem pack_trip_correct_witness:
  "tr_stoptimes ex_night \<noteq> [] \<and>
   list_all (\<lambda>st. valid_clock (arrival_time st) \<and> valid_clock (departure_time st)) (tr_stoptimes ex_night) \<and>
   map_of [(22::sid, ex_station 22 ''B'')] (st_stop_id (last (tr_stoptimes ex_night))) = Some (ex_station 22 ''B'') \<and>
   (\<exists>ys. pack_trip [(22, ex_station 22 ''B'')] ex_night =
          Inr (ex_night\<lparr>tr_stoptimes := ys, tr_headsign := ''B'', tr_service_date := 100\<rparr>) \<and>
        list_all2 (packed_stop 100) (tr_stoptimes ex_night) ys)"
proof -
  have h1: "tr_stoptimes ex_night \<noteq> []" by (simp add: eval_model)
  have h2: "\<forall>st\<in>set (tr_stoptimes ex_night). valid_clock (arrival_time st) \<and> valid_clock (departure_time st)"
    by (simp add: eval_model)
  have h3: "map_of [(22::sid, ex_station 22 ''B'')] (st_stop_id (last (tr_stoptimes ex_night))) =
            Some (ex_station 22 ''B'')"
    by (simp add: eval_model)
  have sd: "service_day ex_night = 100" by (simp add: eval_model)
  show ?thesis
    using h1 h2 h3 Normalizer.pack_trip_correct[OF h1 h2 h3] sd by (simp add: ex_station_def list_all_iff)
qed

theorem route_append_refines_witness:
  "route_append (ex_trip ''ICE 100'' []) ex_conv =
     (0, ex_conv\<lparr>routes := [ex_route], agencies := [Some ''DB Fernverkehr'']\<rparr>) \<and>
   (0, route_index [ex_route]) =
     route_resolve_abs (route_index []) 0 (Some ''ICE 100'', Some ''DB Fernverkehr'') \<and>
   (\<exists>rs. [ex_route] = [] @ rs) \<and> (\<exists>as. [Some ''DB Fernverkehr''] = [] @ as)"
proof -
  have h: "route_append (ex_trip ''ICE 100'' []) ex_conv =
             (0, ex_conv\<lparr>routes := [ex_route], agencies := [Some ''DB Fernverkehr'']\<rparr>)"
    by (simp add: eval_model)
  show ?thesis using h Routes.route_append_refines[OF h] by (simp add: eval_model)
qed

theorem generate_calendar_dates_minimal_witness:
  "calendar_dates ex_cal_conv = [] \<and> list_all (\<lambda>t. tr_service_id t = None) (trips ex_cal_conv) \<and>
   card (tr_service_dates ` set (trips ex_cal_conv)) = 2 \<and>
   distinct (calendar_dates (generate_calendar_dates ex_cal_conv)) \<and>
   length (calendar_dates (generate_calendar_dates ex_cal_conv)) = 2 \<and>
   length (trips (generate_calendar_dates ex_cal_conv)) = 3"
proof -
  have h1: "calendar_dates ex_cal_conv = []" by (simp add: eval_model)
  have h2: "\<forall>t \<in> set (trips ex_cal_conv). tr_service_id t = None" by (simp add: eval_model)
  have n: "card (tr_service_dates ` set (trips ex_cal_conv)) = 2" "length (trips ex_cal_conv) = 3"
    by (simp_all add: eval_model)
  from Calendar.generate_calendar_dates_minimal[OF h1 h2] h1 h2 n show ?thesis
    by (simp add: list_all_iff)
qed

theorem generate_calendar_dates_reference_witness:
  "calendar_dates ex_cal_conv = [] \<and> list_all (\<lambda>t. tr_service_id t = None) (trips ex_cal_conv) \<and>
   calendar_dates (generate_calendar_dates ex_cal_conv) = [{1}, {2}] \<and>
   map tr_service_id (trips (generate_calendar_dates ex_cal_conv)) = [Some 0, Some 0, Some 1]"
proof -
  have h1: "calendar_dates ex_cal_conv = []" by (simp add: eval_model)
  have h2: "\<forall>t \<in> set (trips ex_cal_conv). tr_service_id t = None" by (simp add: eval_model)
  show ?thesis using h1 h2 Calendar.generate_calendar_dates_reference[OF h1 h2]
    by (simp add: eval_model list_all_iff)
qed

theorem process_station_by_ob_get_or_create_witness:
  "(\<exists>c'. process_station_by_ob ex_env (Some (Single ex_loc_A)) ex_conv = Inr c' \<and>
        map_of (stops c') 11 = Some (ex_station 11 ''A'')) \<and>
   (\<exists>c'. process_station_by_ob ex_env (Some (Single ex_loc_A))
          (ex_conv\<lparr>stops := [(11, (ex_station 11 ''A'')\<lparr>trips_fetched := True\<rparr>)]\<rparr>) = Inr c' \<and>
        c' = ex_conv\<lparr>stops := [(11, (ex_station 11 ''A'')\<lparr>trips_fetched := True\<rparr>)]\<rparr>)"
proof -
  let ?known = "ex_conv\<lparr>stops := [(11, (ex_station 11 ''A'')\<lparr>trips_fetched := True\<rparr>)]\<rparr>"
  have k: "py_int (loc_id ex_loc_A) = Inr 11" by (simp add: eval_model)
  obtain c1 where h1: "process_station_by_ob ex_env (Some (Single ex_loc_A)) ex_conv = Inr c1"
    by (atomize_elim, simp add: eval_model)
  have "map_of (stops ex_conv) 11 = None"
    and "get_station_ob ex_env ex_conv ex_loc_A = Inr (ex_station 11 ''A'')" by (simp_all add: eval_model)
  with Stations.process_station_by_ob_get_or_create[OF h1 k]
  have "map_of (stops c1) 11 = Some (ex_station 11 ''A'')" by auto
  moreover obtain c2 where h2: "process_station_by_ob ex_env (Some (Single ex_loc_A)) ?known = Inr c2"
    by (atomize_elim, simp add: eval_model)
  moreover have "c2 = ?known"
    using Stations.process_station_by_ob_get_or_create[OF h2 k] by simp
  ultimately show ?thesis using h1 by blast
qed

theorem get_unfetched_station_id_witness:
  "stops_wf [(11, (ex_station 11 ''A'')\<lparr>trips_fetched := True\<rparr>), (22, ex_station 22 ''B'')] \<and>
   get_unfetched_station_id (ex_conv\<lparr>stops := [(11, (ex_station 11 ''A'')\<lparr>trips_fetched := True\<rparr>),
                                               (22, ex_station 22 ''B'')]\<rparr>) = Some 22 \<and>
   \<not> trips_fetched (ex_station 22 ''B'')"
proof -
  let ?c = "ex_conv\<lparr>stops := [(11, (ex_station 11 ''A'')\<lparr>trips_fetched := True\<rparr>), (22, ex_station 22 ''B'')]\<rparr>"
  have h: "stops_wf (stops ?c)" by (simp add: eval_model)
  have g: "get_unfetched_station_id ?c = Some 22" by (simp add: eval_model)
  show ?thesis using h g Stations.get_unfetched_station_id_spec[OF h] by (simp add: eval_model)
qed

theorem get_all_trips_for_stop_empty_board_witness:
  "map_of (stops (ex_conv\<lparr>stops := [(11, ex_station 11 ''A'')]\<rparr>)) 11 = Some (ex_station 11 ''A'') \<and>
   \<not> trips_fetched (ex_station 11 ''A'') \<and>
   (\<exists>c'. get_all_trips_for_stop ex_env 11 (ex_conv\<lparr>stops := [(11, ex_station 11 ''A'')]\<rparr>) = Inr c' \<and>
        board_queries (requests c') = 3 \<and>
        map_of (stops c') 11 = Some ((ex_station 11 ''A'')\<lparr>trips_fetched := True, last_date := 103\<rparr>))"
  using Frontier.get_all_trips_for_stop_empty_board[of ex_env 11 "ex_conv\<lparr>stops := [(11, ex_station 11 ''A'')]\<rparr>"
          "ex_station 11 ''A''"]
  by (simp add: eval_model)

theorem get_all_trips_for_stop_bounded_witness:
  "\<exists>c'. get_all_trips_for_stop ex_env 11 (ex_conv\<lparr>stops := [(11, ex_station 11 ''A'')]\<rparr>) = Inr c' \<and>
        (\<exists>st'. map_of (stops c') 11 = Some st' \<and> trips_fetched st' \<and> 103 \<le> last_date st') \<and>
        board_queries (requests c') \<le> 3"
proof -
  let ?c = "ex_conv\<lparr>stops := [(11, ex_station 11 ''A'')]\<rparr>"
  let ?st0 = "(ex_station 11 ''A'')\<lparr>trips_fetched := True\<rparr>"
  have "\<forall>d t. departure_board ex_env 11 d t = Inr None" by (simp add: ex_env_def)
  from Frontier.trips_loop_empty_board[OF this, of "?c\<lparr>stops := [(11, ?st0)]\<rparr>" ?st0]
  obtain c' where "trips_loop ex_env 11 (?c\<lparr>stops := [(11, ?st0)]\<rparr>) = Inr c'"
    by (auto simp: eval_model)
  then have run: "get_all_trips_for_stop ex_env 11 ?c = Inr c'"
    by (simp add: get_all_trips_for_stop_def eval_model)
  show ?thesis
    using run Frontier.get_all_trips_for_stop_bounded[OF run, of "ex_station 11 ''A''"]
    by (simp add: eval_model)
qed

theorem main_run_feed_ok_witness:
  "\<exists>c. main_run ex_env3 100 (Some 103) ''11'' = Some (Inr c) \<and> feed_ok c \<and> length (trips c) = 2"
proof -
  obtain c where run: "main_run ex_env3 100 (Some 103) ''11'' = Some (Inr c)" and n: "length (trips c) = 2"
    by (atomize_elim, simp add: crawl_eval eval_model cong: option.case_cong_weak sum.case_cong_weak)
  show ?thesis using run n Driver.main_run_feed_ok[OF run] by blast
qed

theorem main_run_terminates_witness:
  "finite {11, 22 :: sid} \<and> journey_ids_in {11, 22} ex_env3 \<and> location_ids_in {11, 22} ex_env3 \<and>
   (\<exists>r. main_run ex_env3 100 (Some 103) ''11'' = Some r)"
proof -
  have j: "journey_ids_in {11, 22} ex_env3"
    by (simp add: journey_ids_in_def crawl_eval eval_model)
  have l: "location_ids_in {11, 22} ex_env3"
    by (simp add: location_ids_in_def crawl_eval eval_model)
  show ?thesis using j l Driver.main_run_terminates[OF _ j l, of 100 "Some 103" "''11''"] by simp
qed

theorem write_feed_sound_witness:
  "\<exists>c. main_run ex_env3 100 (Some 103) ''11'' = Some (Inr c) \<and> feed_ok c \<and>
       (\<exists>f. write_feed c = Inr f \<and> length (stop_times_txt f) = 4 \<and> length (calendar_dates_txt f) = 2)"
proof -
  obtain c where run: "main_run ex_env3 100 (Some 103) ''11'' = Some (Inr c)" and ok: "feed_ok c"
      and len: "\<forall>f. write_feed c = Inr f \<longrightarrow> length (stop_times_txt f) = 4 \<and> length (calendar_dates_txt f) = 2"
    by (atomize_elim, simp add: crawl_eval eval_model feed_eval trip_shape_def
          cong: option.case_cong_weak sum.case_cong_weak)
  from Output.write_feed_sound[OF ok] obtain f where f: "write_feed c = Inr f" by blast
  with run ok len show ?thesis by blast
qed

theorem process_journey_short_registers_route_witness:
  "\<exists>c'. process_journey ex_env (ex_journey\<lparr>jd_stops := Many [ex_stop_A]\<rparr>) ex_conv = Inr c' \<and>
        trips c' = [] \<and> (Some ''ICE 100'', Some ''DB Fernverkehr'') \<in> set (map route_key (routes c'))"
proof -
  obtain c' where run: "process_journey ex_env (ex_journey\<lparr>jd_stops := Many [ex_stop_A]\<rparr>) ex_conv = Inr c'"
    by (atomize_elim, simp add: eval_model)
  have sts: "jd_stops (ex_journey\<lparr>jd_stops := Many [ex_stop_A]\<rparr>) = Many [ex_stop_A]" by simp
  have "trips ex_conv = []" by (simp add: eval_model)
  with TripBuilder.process_journey_short_registers_route[OF run sts] show ?thesis
    using run by (auto simp: eval_model)
qed

theorem write_feed_route_id_column_witness:
  "\<exists>f. write_feed (ex_conv\<lparr>trips := [ex_night\<lparr>tr_route_id := 5, tr_service_id := Some 0\<rparr>]\<rparr>) = Inr f \<and>
        map trw_route_id (trips_txt f) = [0]"
proof -
  obtain f where wf: "write_feed (ex_conv\<lparr>trips := [ex_night\<lparr>tr_route_id := 5, tr_service_id := Some 0\<rparr>]\<rparr>) = Inr f"
    by (atomize_elim, simp add: crawl_eval eval_model)
  show ?thesis using wf Output.write_feed_route_id_column[OF wf] by simp
qed

theorem main_run_queries_bounded_witness:
  "finite {11, 22 :: sid} \<and> journey_ids_in {11, 22} ex_env3 \<and> location_ids_in {11, 22} ex_env3 \<and>
   (\<exists>c. main_run ex_env3 100 (Some 103) ''11'' = Some (Inr c) \<and> board_queries (requests c) \<le> 6)"
proof -
  have j: "journey_ids_in {11, 22} ex_env3"
    by (simp add: journey_ids_in_def crawl_eval eval_model)
  have l: "location_ids_in {11, 22} ex_env3"
    by (simp add: location_ids_in_def crawl_eval eval_model)
  obtain c where run: "main_run ex_env3 100 (Some 103) ''11'' = Some (Inr c)"
    by (atomize_elim, simp add: crawl_eval eval_model cong: option.case_cong_weak sum.case_cong_weak)
  have "board_queries (requests c) \<le> card {11, 22 :: sid} * nat (default_end 100 (Some 103) - 100)"
    using Driver.main_run_queries_bounded[OF run _ j l] by simp
  then have "board_queries (requests c) \<le> 6" by (simp add: default_end_def)
  with j l run show ?thesis by blast
qed

theorem main_run_crawls_all_witness:
  "\<exists>c. main_run ex_env3 100 (Some 103) ''11'' = Some (Inr c) \<and> map_of (stops c) 0 = None \<and>
       list_all (\<lambda>(k, st). trips_fetched st) (stops c) \<and> map fst (stops c) = [11, 22]"
proof -
  obtain c where run: "main_run ex_env3 100 (Some 103) ''11'' = Some (Inr c)" and no0: "map_of (stops c) 0 = None"
      and keys: "map fst (stops c) = [11, 22]"
    by (atomize_elim, simp add: crawl_eval eval_model cong: option.case_cong_weak sum.case_cong_weak)
  show ?thesis using run no0 keys Driver.main_run_crawls_all[OF run no0] by (intro exI[of _ c]) simp
qed


theorem main_run_fetches_once_witness:
  "\<exists>c. main_run ex_env_dup 100 (Some 103) ''11'' = Some (Inr c) \<and> processed c = [ex_dep] \<and>
       distinct (map dep_key (processed c)) \<and> trip_queries (requests c) = 1"
proof -
  obtain c where run: "main_run ex_env_dup 100 (Some 103) ''11'' = Some (Inr c)" and p: "processed c = [ex_dep]"
    by (atomize_elim, simp add: crawl_eval eval_model cong: option.case_cong_weak sum.case_cong_weak)
  show ?thesis using run p Dedup.main_run_fetches_once[OF run] by (intro exI[of _ c]) simp
qed

theorem ord2ymd_ymd2ord_witness:
  "valid_ymd 2000 12 31 \<and> ord2ymd (ymd2ord 2000 12 31) = (2000, 12, 31) \<and> ymd2ord 2000 12 31 = 730485 \<and>
   valid_ymd 2016 12 31 \<and> ord2ymd (ymd2ord 2016 12 31) = (2016, 12, 31)"
proof -
  have v1: "valid_ymd 2000 12 31" and v2: "valid_ymd 2016 12 31"
    by (simp_all add: valid_ymd_def days_in_month_def is_leap_def)
  have "ymd2ord 2000 12 31 = 730485"
    by (simp add: ymd2ord_def days_before_year_def days_before_month_def month_start_def is_leap_def dbm_table_def)
  then show ?thesis using v1 v2 Dates.ord2ymd_ymd2ord[OF v1] Dates.ord2ymd_ymd2ord[OF v2] by simp
qed

text \<open>
  The start date 2016-05-20 (ordinal 736104) without \<^verbatim>\<open>--end-date\<close>: \<^verbatim>\<open>main\<close>
  prints 2016-05-23 and reads it back as ordinal 736107.
\<close>

theorem main_end_date_example:
  "main_end_date 736104 None = Inr 736107 \<and> strftime_ymd ''-'' 736107 = Inr ''2016-05-23''"
  by code_simp

theorem trip_append_commute_witness:
  "tr_service_dates (ex_night\<lparr>tr_service_date := 100\<rparr>) = {} \<and> tr_service_dates (ex_night\<lparr>tr_service_date := 101\<rparr>) = {} \<and>
   trip_map (trips (trip_append (ex_night\<lparr>tr_service_date := 101\<rparr>) (trip_append (ex_night\<lparr>tr_service_date := 100\<rparr>) ex_conv))) =
   trip_map (trips (trip_append (ex_night\<lparr>tr_service_date := 100\<rparr>) (trip_append (ex_night\<lparr>tr_service_date := 101\<rparr>) ex_conv))) \<and>
   trip_map (trips (trip_append (ex_night\<lparr>tr_service_date := 101\<rparr>) (trip_append (ex_night\<lparr>tr_service_date := 100\<rparr>) ex_conv)))
     (trip_shape ex_night) = Some {100, 101}"
proof -
  have e: "tr_service_dates (ex_night\<lparr>tr_service_date := d\<rparr>) = {}" for d by (simp add: ex_night_def ex_trip_def)
  have "trip_map (trips (trip_append (ex_night\<lparr>tr_service_date := 101\<rparr>) (trip_append (ex_night\<lparr>tr_service_date := 100\<rparr>) ex_conv)))
          (trip_shape ex_night) = Some {100, 101}"
    by (simp add: trip_append_def trip_map_def ex_conv_def init_converter_def ex_night_def ex_trip_def trip_compare_shape
                  trip_shape_def insert_commute)
  then show ?thesis using e Trips.trip_append_commute[OF e e] by simp
qed

theorem dep_url_inj_witness:
  "dep_url 11 736104 ''10:00'' =
     Inr ''http://open-api.bahn.de/bin/rest.exe/departureBoard?authKey=<insert api key here>&lang=de&id=0011&date=2016-05-20&time=10:00&format=json'' \<and>
   11 = (11::sid) \<and> 736104 = (736104::date) \<and> ''10:00'' = ''10:00''"
proof -
  have p: "py_str_int 11 = ''11''" by code_simp
  have s: "strftime_ymd ''-'' 736104 = Inr ''2016-05-20''" by code_simp
  have u: "dep_url 11 736104 ''10:00'' =
     Inr ''http://open-api.bahn.de/bin/rest.exe/departureBoard?authKey=<insert api key here>&lang=de&id=0011&date=2016-05-20&time=10:00&format=json''"
    by (simp add: dep_url_def dep_url_template s p)
  show ?thesis using Urls.dep_url_inj[OF u u] u by simp
qed

end
